(* ===== verification/Prelude.thy ===== *)
theory Prelude
  imports Main "HOL-Library.Word" "HOL-Library.Signed_Division"
begin

unbundle bit_operations_syntax

section \<open>Programs with state, faults and divergence\<close>

text \<open>
  The C functions of the library run on a state (the port they are given, the library's
  globals and the outside world), return a value, and may do two bad things: make an
  undefined access (call a null function pointer, touch freed or foreign memory), or not
  return at all.  A \<open>prog\<close> keeps the three apart: \<open>Some (Ret a s')\<close> is a return,
  \<open>Some (Fault f)\<close> an undefined access, \<open>None\<close> a run that never returns.  The theory
  defines the sequencing of such programs, four predicates on runs (\<open>post\<close>, \<open>safe\<close>,
  \<open>halts\<close>, \<open>total\<close>) with one rule per program constructor, the frame predicate
  \<open>keeps\<close>, and the rules that \<^theory_text>\<open>partial_function\<close> needs for loops that may not end.
\<close>

datatype fault =
    Null_call        \<comment> \<open>call through a null function pointer\<close>
  | Null_deref       \<comment> \<open>dereference of a null or freed private pointer\<close>
  | Use_after_free   \<comment> \<open>access to a port that has been freed\<close>
  | Out_of_bounds    \<comment> \<open>access outside a buffer\<close>
  | Uninitialised    \<comment> \<open>read of an uninitialised object\<close>
  | Deadlock         \<comment> \<open>a lock taken by the thread that holds it\<close>

datatype ('a, 's) outcome = Ret 'a 's | Fault fault

type_synonym ('a, 's) prog = "'s \<Rightarrow> ('a, 's) outcome option"

named_theorems wp_intro \<open>introduction rules for post and total, one per program constructor or operation\<close>
named_theorems keeps_intro \<open>frame rules, one per program constructor or operation\<close>
named_theorems run_simps \<open>evaluation rules for the program constructors\<close>

subsection \<open>Constructors\<close>

definition ret :: "'a \<Rightarrow> ('a, 's) prog" where
  "ret a = (\<lambda>s. Some (Ret a s))"

definition fail :: "fault \<Rightarrow> ('a, 's) prog" where
  "fail f = (\<lambda>s. Some (Fault f))"

definition bindp :: "('a, 's) prog \<Rightarrow> ('a \<Rightarrow> ('b, 's) prog) \<Rightarrow> ('b, 's) prog" where
  "bindp m k = (\<lambda>s. case m s of None \<Rightarrow> None
      | Some (Fault f) \<Rightarrow> Some (Fault f)
      | Some (Ret a s') \<Rightarrow> k a s')"

definition gets :: "('s \<Rightarrow> 'a) \<Rightarrow> ('a, 's) prog" where
  "gets f = (\<lambda>s. Some (Ret (f s) s))"

definition modify :: "('s \<Rightarrow> 's) \<Rightarrow> (unit, 's) prog" where
  "modify f = (\<lambda>s. Some (Ret () (f s)))"

text \<open>A function pointer slot: calling it when it is null is undefined.\<close>

definition call :: "'f option \<Rightarrow> ('f \<Rightarrow> ('a, 's) prog) \<Rightarrow> ('a, 's) prog" where
  "call slot run = (case slot of None \<Rightarrow> fail Null_call | Some f \<Rightarrow> run f)"

text \<open>A sequence of statements.\<close>

fun stmts :: "(unit, 's) prog list \<Rightarrow> (unit, 's) prog" where
  "stmts [] = ret ()"
| "stmts (m # ms) = bindp m (\<lambda>_. stmts ms)"

lemma run_ret [run_simps]: "ret a s = Some (Ret a s)"
  by (simp add: ret_def)

lemma run_fail [run_simps]: "fail f s = Some (Fault f)"
  by (simp add: fail_def)

lemma run_gets [run_simps]: "gets f s = Some (Ret (f s) s)"
  by (simp add: gets_def)

lemma run_modify [run_simps]: "modify f s = Some (Ret () (f s))"
  by (simp add: modify_def)

lemma run_bindp_Ret [run_simps]: "m s = Some (Ret a s') \<Longrightarrow> bindp m k s = k a s'"
  by (simp add: bindp_def)

lemma run_bindp_Fault [run_simps]: "m s = Some (Fault f) \<Longrightarrow> bindp m k s = Some (Fault f)"
  by (simp add: bindp_def)

lemma run_bindp_None [run_simps]: "m s = None \<Longrightarrow> bindp m k s = None"
  by (simp add: bindp_def)

lemma bindp_eq_Ret:
  "bindp m k s = Some (Ret b s2) \<longleftrightarrow>
     (\<exists>a s1. m s = Some (Ret a s1) \<and> k a s1 = Some (Ret b s2))"
  by (auto simp: bindp_def split: option.splits outcome.splits)

lemma ret_eq_Ret: "ret a s = Some (Ret b s2) \<longleftrightarrow> a = b \<and> s2 = s"
  by (auto simp: ret_def)

lemma run_call [run_simps]: "call (Some f) r = r f" "call None r = fail Null_call"
  by (simp_all add: call_def)

lemma bindp_assoc: "bindp (bindp m k) l = bindp m (\<lambda>a. bindp (k a) l)"
  by (rule ext) (auto simp: bindp_def split: option.splits outcome.splits)

lemma bindp_ret_left [simp]: "bindp (ret a) k = k a"
  by (rule ext) (simp add: bindp_def ret_def)

lemma bindp_ret_right [simp]: "bindp m ret = m"
  by (rule ext) (auto simp: bindp_def ret_def split: option.splits outcome.splits)

subsection \<open>Loops that may not end\<close>

lemma bindp_mono [partial_function_mono]:
  fixes B :: "('x \<Rightarrow> 'y option) \<Rightarrow> ('a, 's) prog"
    and C :: "('x \<Rightarrow> 'y option) \<Rightarrow> 'a \<Rightarrow> ('b, 's) prog"
  assumes "monotone (fun_ord option_ord) option_ord (\<lambda>f. B f s)"
    and "\<And>a s'. monotone (fun_ord option_ord) option_ord (\<lambda>f. C f a s')"
  shows "monotone (fun_ord option_ord) option_ord (\<lambda>f. bindp (B f) (C f) s)"
proof (rule monotoneI)
  fix f g :: "'x \<Rightarrow> 'y option"
  assume fg: "fun_ord option_ord f g"
  have B: "option_ord (B f s) (B g s)"
    using assms(1) fg by (simp add: monotone_def)
  have C: "option_ord (C f a s') (C g a s')" for a s'
    using assms(2) fg by (simp add: monotone_def)
  show "option_ord (bindp (B f) (C f) s) (bindp (B g) (C g) s)"
  proof (cases "B f s")
    case None
    then show ?thesis by (simp add: bindp_def flat_ord_def)
  next
    case (Some r)
    with B have g: "B g s = Some r" by (simp add: flat_ord_def)
    show ?thesis using Some g C by (cases r) (simp_all add: bindp_def flat_ord_def)
  qed
qed

lemma if_prog_mono [partial_function_mono]:
  fixes M N :: "('x \<Rightarrow> 'y option) \<Rightarrow> ('a, 's) prog"
  assumes "monotone (fun_ord option_ord) option_ord (\<lambda>f. M f s)"
    and "monotone (fun_ord option_ord) option_ord (\<lambda>f. N f s)"
  shows "monotone (fun_ord option_ord) option_ord (\<lambda>f. (if b then M f else N f) s)"
  using assms by (cases b) simp_all

subsection \<open>What a run does\<close>

text \<open>\<open>post m s Q\<close>: if \<open>m\<close> returns from \<open>s\<close>, the result and the new state satisfy \<open>Q\<close>.\<close>

definition post :: "('a, 's) prog \<Rightarrow> 's \<Rightarrow> ('a \<Rightarrow> 's \<Rightarrow> bool) \<Rightarrow> bool" where
  "post m s Q \<longleftrightarrow> (\<forall>a s'. m s = Some (Ret a s') \<longrightarrow> Q a s')"

text \<open>\<open>total m s Q\<close>: \<open>m\<close> returns from \<open>s\<close>, without a fault, and satisfies \<open>Q\<close>.\<close>

definition total :: "('a, 's) prog \<Rightarrow> 's \<Rightarrow> ('a \<Rightarrow> 's \<Rightarrow> bool) \<Rightarrow> bool" where
  "total m s Q \<longleftrightarrow> (\<exists>a s'. m s = Some (Ret a s') \<and> Q a s')"

definition safe :: "('a, 's) prog \<Rightarrow> 's \<Rightarrow> bool" where
  "safe m s \<longleftrightarrow> (\<forall>f. m s \<noteq> Some (Fault f))"

definition halts :: "('a, 's) prog \<Rightarrow> 's \<Rightarrow> bool" where
  "halts m s \<longleftrightarrow> m s \<noteq> None"

lemma total_iff: "total m s Q \<longleftrightarrow> post m s Q \<and> safe m s \<and> halts m s"
  by (cases "m s"; cases "the (m s)") (auto simp: total_def post_def safe_def halts_def)

lemma total_post: "total m s Q \<Longrightarrow> post m s Q"
  by (simp add: total_iff)

lemma postD: "post m s Q \<Longrightarrow> m s = Some (Ret a s') \<Longrightarrow> Q a s'"
  by (simp add: post_def)

lemma postI: "(\<And>a s'. m s = Some (Ret a s') \<Longrightarrow> Q a s') \<Longrightarrow> post m s Q"
  by (simp add: post_def)

lemma totalE:
  assumes "total m s Q"
  obtains a s' where "m s = Some (Ret a s')" and "Q a s'"
  using assms by (auto simp: total_def)

lemma post_weaken: "post m s Q \<Longrightarrow> (\<And>a s'. Q a s' \<Longrightarrow> R a s') \<Longrightarrow> post m s R"
  by (auto simp: post_def)

lemma total_weaken: "total m s Q \<Longrightarrow> (\<And>a s'. Q a s' \<Longrightarrow> R a s') \<Longrightarrow> total m s R"
  by (auto simp: total_def)

lemma post_when: "(b \<Longrightarrow> post m s Q) \<Longrightarrow> post m s (\<lambda>a s'. b \<longrightarrow> Q a s')"
  by (auto simp: post_def)

lemma post_when_pair:
  "(b \<Longrightarrow> post m s (\<lambda>(x, y) s'. Q x y s')) \<Longrightarrow> post m s (\<lambda>(x, y) s'. b \<longrightarrow> Q x y s')"
  by (auto simp: post_def)

lemma total_conj: "total m s Q \<Longrightarrow> post m s R \<Longrightarrow> total m s (\<lambda>a s'. Q a s' \<and> R a s')"
  by (auto simp: total_def post_def)

lemma post_conj: "post m s Q \<Longrightarrow> post m s R \<Longrightarrow> post m s (\<lambda>a s'. Q a s' \<and> R a s')"
  by (auto simp: post_def)

lemma post_bindp [wp_intro]:
  "post m s (\<lambda>a s'. post (k a) s' Q) \<Longrightarrow> post (bindp m k) s Q"
  by (auto simp: post_def bindp_def split: option.splits outcome.splits)

lemma total_bindp [wp_intro]:
  "total m s (\<lambda>a s'. total (k a) s' Q) \<Longrightarrow> total (bindp m k) s Q"
  by (auto simp: total_def bindp_def)

lemma post_ret [wp_intro]: "Q a s \<Longrightarrow> post (ret a) s Q"
  by (simp add: post_def ret_def)

lemma total_ret [wp_intro]: "Q a s \<Longrightarrow> total (ret a) s Q"
  by (simp add: total_def ret_def)

lemma post_fail [wp_intro]: "post (fail f) s Q"
  by (simp add: post_def fail_def)

lemma post_gets [wp_intro]: "Q (f s) s \<Longrightarrow> post (gets f) s Q"
  by (simp add: post_def gets_def)

lemma total_gets [wp_intro]: "Q (f s) s \<Longrightarrow> total (gets f) s Q"
  by (simp add: total_def gets_def)

lemma post_modify [wp_intro]: "Q () (f s) \<Longrightarrow> post (modify f) s Q"
  by (simp add: post_def modify_def)

lemma total_modify [wp_intro]: "Q () (f s) \<Longrightarrow> total (modify f) s Q"
  by (simp add: total_def modify_def)

lemma post_if [wp_intro]:
  "(b \<Longrightarrow> post m s Q) \<Longrightarrow> (\<not> b \<Longrightarrow> post n s Q) \<Longrightarrow> post (if b then m else n) s Q"
  by simp

lemma total_if [wp_intro]:
  "(b \<Longrightarrow> total m s Q) \<Longrightarrow> (\<not> b \<Longrightarrow> total n s Q) \<Longrightarrow> total (if b then m else n) s Q"
  by simp

lemma post_call [wp_intro]:
  "(\<And>f. slot = Some f \<Longrightarrow> post (r f) s Q) \<Longrightarrow> post (call slot r) s Q"
  by (cases slot) (auto simp: call_def fail_def post_def)

lemma post_stmts_Nil [wp_intro]: "Q () s \<Longrightarrow> post (stmts []) s Q"
  by (simp add: post_def ret_def)

lemma post_stmts_Cons [wp_intro]:
  "post m s (\<lambda>_ s'. post (stmts ms) s' Q) \<Longrightarrow> post (stmts (m # ms)) s Q"
  by (simp add: post_bindp)

lemma total_stmts_Nil [wp_intro]: "Q () s \<Longrightarrow> total (stmts []) s Q"
  by (simp add: total_def ret_def)

lemma total_stmts_Cons [wp_intro]:
  "total m s (\<lambda>_ s'. total (stmts ms) s' Q) \<Longrightarrow> total (stmts (m # ms)) s Q"
  by (simp add: total_bindp)

text \<open>\<open>returns m\<close>: \<open>m\<close> returns from every state, without a fault.\<close>

named_theorems returns_intro \<open>programs that always return\<close>

definition returns :: "('a, 's) prog \<Rightarrow> bool" where
  "returns m \<longleftrightarrow> (\<forall>s. total m s (\<lambda>_ _. True))"

lemma returns_total: "returns m \<Longrightarrow> post m s Q \<Longrightarrow> total m s Q"
  unfolding returns_def total_def post_def by blast

lemma returns_ret [returns_intro]: "returns (ret a)"
  by (simp add: returns_def total_def ret_def)

lemma returns_gets [returns_intro]: "returns (gets f)"
  by (simp add: returns_def total_def gets_def)

lemma returns_modify [returns_intro]: "returns (modify f)"
  by (simp add: returns_def total_def modify_def)

lemma returns_bindp [returns_intro]:
  "returns m \<Longrightarrow> (\<And>a. returns (k a)) \<Longrightarrow> returns (bindp m k)"
  unfolding returns_def by (intro allI total_bindp) (fastforce elim: total_weaken)

lemma returns_if [returns_intro]:
  "(b \<Longrightarrow> returns m) \<Longrightarrow> (\<not> b \<Longrightarrow> returns n) \<Longrightarrow> returns (if b then m else n)"
  by simp

lemma returns_case_option [returns_intro]:
  "returns m \<Longrightarrow> (\<And>x. returns (n x)) \<Longrightarrow> returns (case a of None \<Rightarrow> m | Some x \<Rightarrow> n x)"
  by (cases a) simp_all

lemma returns_case_prod: "(\<And>a b. returns (f a b)) \<Longrightarrow> returns (case p of (a, b) \<Rightarrow> f a b)"
  by (cases p) simp

subsection \<open>Runs without faults\<close>

text \<open>
  \<open>sound m s Q\<close>: \<open>m\<close> does not fault from \<open>s\<close>, and if it returns, the result and the new
  state satisfy \<open>Q\<close>.  It is what remains of \<open>total\<close> for a program that may not end.
\<close>

named_theorems sound_intro \<open>introduction rules for sound, one per program constructor\<close>

definition sound :: "('a, 's) prog \<Rightarrow> 's \<Rightarrow> ('a \<Rightarrow> 's \<Rightarrow> bool) \<Rightarrow> bool" where
  "sound m s Q \<longleftrightarrow> (case m s of None \<Rightarrow> True | Some (Fault f) \<Rightarrow> False | Some (Ret a s') \<Rightarrow> Q a s')"

lemma sound_iff: "sound m s Q \<longleftrightarrow> safe m s \<and> post m s Q"
  by (auto simp: sound_def safe_def post_def split: option.splits outcome.splits)

lemma sound_post: "sound m s Q \<Longrightarrow> post m s Q"
  by (simp add: sound_iff)

lemma total_sound: "total m s Q \<Longrightarrow> sound m s Q"
  by (simp add: total_iff sound_iff)

lemma sound_halts_total: "sound m s Q \<Longrightarrow> halts m s \<Longrightarrow> total m s Q"
  by (simp add: total_iff sound_iff)

lemma sound_weaken: "sound m s Q \<Longrightarrow> (\<And>a s'. Q a s' \<Longrightarrow> R a s') \<Longrightarrow> sound m s R"
  by (auto simp: sound_iff intro: post_weaken)

lemma sound_conj: "sound m s Q \<Longrightarrow> post m s R \<Longrightarrow> sound m s (\<lambda>a s'. Q a s' \<and> R a s')"
  by (simp add: sound_iff post_conj)

lemma sound_bindp [sound_intro]:
  "sound m s (\<lambda>a s'. sound (k a) s' Q) \<Longrightarrow> sound (bindp m k) s Q"
  by (auto simp: sound_def bindp_def split: option.splits outcome.splits)

lemma sound_ret [sound_intro]: "Q a s \<Longrightarrow> sound (ret a) s Q"
  by (simp add: sound_def ret_def)

lemma sound_gets [sound_intro]: "Q (f s) s \<Longrightarrow> sound (gets f) s Q"
  by (simp add: sound_def gets_def)

lemma sound_modify [sound_intro]: "Q () (f s) \<Longrightarrow> sound (modify f) s Q"
  by (simp add: sound_def modify_def)

lemma sound_if [sound_intro]:
  "(b \<Longrightarrow> sound m s Q) \<Longrightarrow> (\<not> b \<Longrightarrow> sound n s Q) \<Longrightarrow> sound (if b then m else n) s Q"
  by simp

lemma sound_case_option [sound_intro]:
  "(a = None \<Longrightarrow> sound m s Q) \<Longrightarrow> (\<And>x. a = Some x \<Longrightarrow> sound (n x) s Q) \<Longrightarrow>
     sound (case a of None \<Rightarrow> m | Some x \<Rightarrow> n x) s Q"
  by (cases a) simp_all

subsection \<open>Frames\<close>

text \<open>\<open>keeps v m\<close>: whenever \<open>m\<close> returns, the view \<open>v\<close> of the state is unchanged.\<close>

definition keeps :: "('s \<Rightarrow> 'v) \<Rightarrow> ('a, 's) prog \<Rightarrow> bool" where
  "keeps v m \<longleftrightarrow> (\<forall>s. post m s (\<lambda>_ s'. v s' = v s))"

lemma keepsD: "keeps v m \<Longrightarrow> post m s (\<lambda>_ s'. v s' = v s)"
  by (simp add: keeps_def)

lemma keeps_eq: "keeps v m \<Longrightarrow> m s = Some (Ret a s') \<Longrightarrow> v s' = v s"
  by (auto simp: keeps_def post_def)

lemma keepsI: "(\<And>s. post m s (\<lambda>_ s'. v s' = v s)) \<Longrightarrow> keeps v m"
  by (simp add: keeps_def)

lemma keeps_bindp [keeps_intro]:
  "keeps v m \<Longrightarrow> (\<And>a. keeps v (k a)) \<Longrightarrow> keeps v (bindp m k)"
  by (auto simp: keeps_def post_def bindp_def split: option.splits outcome.splits)

lemma keeps_ret [keeps_intro]: "keeps v (ret a)"
  by (simp add: keeps_def post_def ret_def)

lemma keeps_fail [keeps_intro]: "keeps v (fail f)"
  by (simp add: keeps_def post_def fail_def)

lemma keeps_gets [keeps_intro]: "keeps v (gets f)"
  by (simp add: keeps_def post_def gets_def)

lemma keeps_modify [keeps_intro]: "(\<And>s. v (f s) = v s) \<Longrightarrow> keeps v (modify f)"
  by (simp add: keeps_def post_def modify_def)

lemma keeps_if [keeps_intro]:
  "(b \<Longrightarrow> keeps v m) \<Longrightarrow> (\<not> b \<Longrightarrow> keeps v n) \<Longrightarrow> keeps v (if b then m else n)"
  by simp

lemma keeps_case_option [keeps_intro]:
  "keeps v m \<Longrightarrow> (\<And>x. keeps v (n x)) \<Longrightarrow> keeps v (case a of None \<Rightarrow> m | Some x \<Rightarrow> n x)"
  by (cases a) simp_all

lemma keeps_case_prod: "(\<And>a b. keeps v (f a b)) \<Longrightarrow> keeps v (case p of (a, b) \<Rightarrow> f a b)"
  by (cases p) simp

lemma keeps_call [keeps_intro]: "(\<And>f. keeps v (r f)) \<Longrightarrow> keeps v (call slot r)"
  by (cases slot) (auto simp: call_def intro: keeps_fail)

lemma keeps_stmts [keeps_intro]: "(\<And>m. m \<in> set ms \<Longrightarrow> keeps v m) \<Longrightarrow> keeps v (stmts ms)"
  by (induction ms) (auto intro: keeps_bindp keeps_ret)

lemma keeps_comp: "keeps v m \<Longrightarrow> keeps (\<lambda>s. g (v s)) m"
  by (auto simp: keeps_def post_def)

lemma post_keeps:
  "keeps v m \<Longrightarrow> (\<And>a s'. v s' = v s \<Longrightarrow> Q a s') \<Longrightarrow> post m s Q"
  by (auto simp: keeps_def post_def)

text \<open>Steps through a sequence: ignore what a call does, or keep only its frame.\<close>

lemma post_skip: "(\<And>a s'. post (k a) s' Q) \<Longrightarrow> post (bindp m k) s Q"
  by (auto simp: post_def bindp_def split: option.splits outcome.splits)

lemma post_step:
  "keeps v m \<Longrightarrow> (\<And>a s'. v s' = v s \<Longrightarrow> post (k a) s' Q) \<Longrightarrow> post (bindp m k) s Q"
  by (rule post_bindp) (rule post_keeps)

subsection \<open>Invariants\<close>

text \<open>\<open>stays I m\<close>: whenever \<open>m\<close> returns from a state with \<open>I\<close>, the new state has \<open>I\<close>.\<close>

named_theorems stays_intro \<open>invariance rules, one per program constructor or operation\<close>

definition stays :: "('s \<Rightarrow> bool) \<Rightarrow> ('a, 's) prog \<Rightarrow> bool" where
  "stays I m \<longleftrightarrow> (\<forall>s. I s \<longrightarrow> post m s (\<lambda>_. I))"

lemma staysD: "stays I m \<Longrightarrow> I s \<Longrightarrow> post m s (\<lambda>_. I)"
  by (simp add: stays_def)

lemma staysI: "(\<And>s. I s \<Longrightarrow> post m s (\<lambda>_. I)) \<Longrightarrow> stays I m"
  by (simp add: stays_def)

lemma stays_keeps:
  assumes "keeps v m" and "\<And>s s'. v s' = v s \<Longrightarrow> I s' = I s"
  shows "stays I m"
proof (rule staysI)
  fix s assume "I s"
  then show "post m s (\<lambda>_. I)"
    using assms(2) by (intro post_keeps [OF assms(1)]) blast
qed

lemma stays_bindp [stays_intro]:
  "stays I m \<Longrightarrow> (\<And>a. stays I (k a)) \<Longrightarrow> stays I (bindp m k)"
  unfolding stays_def post_def bindp_eq_Ret by blast

lemma stays_step:
  assumes "stays I m" and "I s" and "\<And>a s'. m s = Some (Ret a s') \<Longrightarrow> I s' \<Longrightarrow> post (k a) s' Q"
  shows "post (bindp m k) s Q"
  using assms unfolding stays_def post_def bindp_eq_Ret by blast

lemma stays_ret [stays_intro]: "stays I (ret a)"
  by (simp add: stays_def post_ret)

lemma stays_fail [stays_intro]: "stays I (fail f)"
  by (simp add: stays_def post_fail)

lemma stays_gets [stays_intro]: "stays I (gets f)"
  by (simp add: stays_def post_gets)

lemma stays_modify [stays_intro]: "(\<And>s. I s \<Longrightarrow> I (f s)) \<Longrightarrow> stays I (modify f)"
  by (simp add: stays_def post_modify)

lemma stays_if [stays_intro]:
  "(b \<Longrightarrow> stays I m) \<Longrightarrow> (\<not> b \<Longrightarrow> stays I n) \<Longrightarrow> stays I (if b then m else n)"
  by simp

lemma stays_case_prod: "(\<And>a b. stays I (f a b)) \<Longrightarrow> stays I (case p of (a, b) \<Rightarrow> f a b)"
  by (cases p) simp

lemma stays_stmts [stays_intro]: "(\<And>m. m \<in> set ms \<Longrightarrow> stays I m) \<Longrightarrow> stays I (stmts ms)"
  by (induction ms) (auto intro: stays_bindp stays_ret)

lemma stays_call [stays_intro]: "(\<And>f. stays I (r f)) \<Longrightarrow> stays I (call slot r)"
  by (cases slot) (auto simp: call_def stays_fail)

lemma stays_case_option [stays_intro]:
  "stays I m \<Longrightarrow> (\<And>x. stays I (n x)) \<Longrightarrow> stays I (case a of None \<Rightarrow> m | Some x \<Rightarrow> n x)"
  by (cases a) simp_all

text \<open>\<open>solid I m\<close>: from a state with \<open>I\<close>, \<open>m\<close> does not fault, and if it returns, it keeps \<open>I\<close>.\<close>

named_theorems solid_intro \<open>rules for fault-free programs that keep an invariant\<close>

definition solid :: "('s \<Rightarrow> bool) \<Rightarrow> ('a, 's) prog \<Rightarrow> bool" where
  "solid I m \<longleftrightarrow> (\<forall>s. I s \<longrightarrow> sound m s (\<lambda>_. I))"

lemma solidD: "solid I m \<Longrightarrow> I s \<Longrightarrow> sound m s (\<lambda>_. I)"
  by (simp add: solid_def)

lemma solidI: "(\<And>s. I s \<Longrightarrow> sound m s (\<lambda>_. I)) \<Longrightarrow> solid I m"
  by (simp add: solid_def)

lemma solid_stays: "solid I m \<Longrightarrow> stays I m"
  by (simp add: solid_def stays_def sound_iff)

lemma solid_returns: "returns m \<Longrightarrow> stays I m \<Longrightarrow> solid I m"
  by (auto simp: solid_def returns_def stays_def sound_iff total_iff)

lemma solid_bindp [solid_intro]:
  "solid I m \<Longrightarrow> (\<And>a. solid I (k a)) \<Longrightarrow> solid I (bindp m k)"
  unfolding solid_def by (intro allI impI sound_bindp, rule sound_weaken) blast+

text \<open>The same, with a property of the result that the continuation relies on.\<close>

lemma solid_bindp_result:
  assumes "solid I m" and "\<And>s. post m s (\<lambda>a _. R a)" and "\<And>a. R a \<Longrightarrow> solid I (k a)"
  shows "solid I (bindp m k)"
proof (rule solidI, rule sound_bindp)
  fix s assume "I s"
  from sound_conj [OF solidD [OF assms(1) this] assms(2)] show "sound m s (\<lambda>a s'. sound (k a) s' (\<lambda>_. I))"
    by (rule sound_weaken) (auto intro: solidD [OF assms(3)])
qed

lemma solid_ret [solid_intro]: "solid I (ret a)"
  by (simp add: solid_def sound_ret)

lemma solid_gets [solid_intro]: "solid I (gets f)"
  by (simp add: solid_def sound_gets)

lemma solid_if [solid_intro]:
  "(b \<Longrightarrow> solid I m) \<Longrightarrow> (\<not> b \<Longrightarrow> solid I n) \<Longrightarrow> solid I (if b then m else n)"
  by simp

lemma solid_case_option [solid_intro]:
  "(a = None \<Longrightarrow> solid I m) \<Longrightarrow> (\<And>x. a = Some x \<Longrightarrow> solid I (n x)) \<Longrightarrow>
     solid I (case a of None \<Rightarrow> m | Some x \<Rightarrow> n x)"
  by (cases a) simp_all

lemma solid_case_prod: "(\<And>a b. p = (a, b) \<Longrightarrow> solid I (f a b)) \<Longrightarrow> solid I (case p of (a, b) \<Rightarrow> f a b)"
  by (cases p) simp

subsection \<open>Loops without a bound\<close>

text \<open>
  \<open>loop body\<close> repeats \<open>body\<close> until it gives \<open>Some a\<close> and returns \<open>a\<close>.  The rules: an
  invariant, a frame, a variant that makes it return, and an invariant that makes it run
  for ever.
\<close>

partial_function (option) loop ::
  "('a option, 's) prog \<Rightarrow> 's \<Rightarrow> ('a, 's) outcome option" where
  "loop body s = bindp body (\<lambda>r. if r = None then loop body else ret (the r)) s"

declare loop.simps [code]

lemma loop_post:
  assumes step: "\<And>s. I s \<Longrightarrow> post body s (\<lambda>r s'. (r = None \<longrightarrow> I s') \<and> (\<forall>a. r = Some a \<longrightarrow> Q a s'))"
    and I: "I s"
  shows "post (loop body) s Q"
proof (rule postI)
  fix a s' assume r: "loop body s = Some (Ret a s')"
  have "\<And>y. loop body s = Some y \<Longrightarrow>
      (\<forall>s. I s \<longrightarrow> post body s (\<lambda>r s'. (r = None \<longrightarrow> I s') \<and> (\<forall>a. r = Some a \<longrightarrow> Q a s'))) \<longrightarrow> I s \<longrightarrow>
      (case y of Fault f \<Rightarrow> True | Ret a s' \<Rightarrow> Q a s')"
  proof (erule loop.raw_induct [where P = "\<lambda>body s y.
      (\<forall>s. I s \<longrightarrow> post body s (\<lambda>r s'. (r = None \<longrightarrow> I s') \<and> (\<forall>a. r = Some a \<longrightarrow> Q a s'))) \<longrightarrow> I s \<longrightarrow>
      (case y of Fault f \<Rightarrow> True | Ret a s' \<Rightarrow> Q a s')", rotated], intro impI)
    fix f body s y
    assume IH: "\<And>body s y. f body s = Some y \<Longrightarrow>
        (\<forall>s. I s \<longrightarrow> post body s (\<lambda>r s'. (r = None \<longrightarrow> I s') \<and> (\<forall>a. r = Some a \<longrightarrow> Q a s'))) \<longrightarrow> I s \<longrightarrow>
        (case y of Fault f \<Rightarrow> True | Ret a s' \<Rightarrow> Q a s')"
      and eq: "bindp body (\<lambda>r. if r = None then f body else ret (the r)) s = Some y"
      and stp: "\<forall>s. I s \<longrightarrow> post body s (\<lambda>r s'. (r = None \<longrightarrow> I s') \<and> (\<forall>a. r = Some a \<longrightarrow> Q a s'))"
      and "I s"
    from stp \<open>I s\<close> have p: "post body s (\<lambda>r s'. (r = None \<longrightarrow> I s') \<and> (\<forall>a. r = Some a \<longrightarrow> Q a s'))" by blast
    show "case y of Fault f \<Rightarrow> True | Ret a s' \<Rightarrow> Q a s'"
    proof (cases "body s")
      case None
      with eq show ?thesis by (simp add: bindp_def)
    next
      case (Some out)
      show ?thesis
      proof (cases out)
        case (Fault e)
        with Some eq show ?thesis by (auto simp: bindp_def)
      next
        case (Ret r s1)
        with Some p have q: "(r = None \<longrightarrow> I s1) \<and> (\<forall>a. r = Some a \<longrightarrow> Q a s1)" by (auto dest: postD)
        show ?thesis
        proof (cases r)
          case None
          with Some Ret eq have "f body s1 = Some y" by (simp add: bindp_def)
          from IH [OF this] stp q None show ?thesis by blast
        next
          case (Some a)
          with \<open>body s = Some out\<close> Ret eq q show ?thesis by (auto simp: bindp_def ret_def)
        qed
      qed
    qed
  qed
  from this [OF r] step I show "Q a s'" by simp
qed

lemma keeps_loop [keeps_intro]:
  assumes "keeps v body"
  shows "keeps v (loop body)"
proof (rule keepsI)
  fix s
  show "post (loop body) s (\<lambda>_ s'. v s' = v s)"
    using assms
    by (intro loop_post [where I = "\<lambda>s'. v s' = v s"]) (auto simp: keeps_def post_def)
qed

lemma loop_total:
  fixes \<mu> :: "'s \<Rightarrow> nat"
  assumes step: "\<And>s. I s \<Longrightarrow> total body s (\<lambda>r s'. I s' \<and> (r = None \<longrightarrow> \<mu> s' < \<mu> s))"
    and I: "I s"
  shows "total (loop body) s (\<lambda>_. I)"
  using I
proof (induction "\<mu> s" arbitrary: s rule: less_induct)
  case less
  from step [OF less.prems] obtain r s1 where
    1: "body s = Some (Ret r s1)" "I s1" "r = None \<longrightarrow> \<mu> s1 < \<mu> s" by (rule totalE) simp
  show ?case
  proof (cases r)
    case None
    with less.hyps [of s1] 1 show ?thesis by (simp add: total_def loop.simps [of body s] bindp_def)
  next
    case (Some a)
    with 1 show ?thesis by (simp add: total_def loop.simps [of body s] bindp_def ret_def)
  qed
qed

lemma stays_loop [stays_intro]:
  assumes "stays I body"
  shows "stays I (loop body)"
proof (rule staysI)
  fix s assume "I s"
  then show "post (loop body) s (\<lambda>_. I)"
    using assms by (intro loop_post [where I = I]) (auto simp: stays_def post_def)
qed

lemma loop_sound:
  assumes step: "\<And>s. I s \<Longrightarrow> sound body s (\<lambda>r s'. I s' \<and> (\<forall>a. r = Some a \<longrightarrow> Q a s'))"
    and I: "I s"
  shows "sound (loop body) s Q"
proof -
  have post: "post (loop body) s Q"
    by (rule loop_post [where I = I, OF post_weaken [OF sound_post [OF step]] I]) auto
  have "\<And>y. loop body s = Some y \<Longrightarrow>
      (\<forall>s. I s \<longrightarrow> sound body s (\<lambda>r s'. I s' \<and> (\<forall>a. r = Some a \<longrightarrow> Q a s'))) \<longrightarrow> I s \<longrightarrow>
      (\<forall>f. y \<noteq> Fault f)"
  proof (erule loop.raw_induct [where P = "\<lambda>body s y.
      (\<forall>s. I s \<longrightarrow> sound body s (\<lambda>r s'. I s' \<and> (\<forall>a. r = Some a \<longrightarrow> Q a s'))) \<longrightarrow> I s \<longrightarrow>
      (\<forall>f. y \<noteq> Fault f)", rotated], intro impI)
    fix g body s y
    assume IH: "\<And>body s y. g body s = Some y \<Longrightarrow>
        (\<forall>s. I s \<longrightarrow> sound body s (\<lambda>r s'. I s' \<and> (\<forall>a. r = Some a \<longrightarrow> Q a s'))) \<longrightarrow> I s \<longrightarrow>
        (\<forall>f. y \<noteq> Fault f)"
      and eq: "bindp body (\<lambda>r. if r = None then g body else ret (the r)) s = Some y"
      and stp: "\<forall>s. I s \<longrightarrow> sound body s (\<lambda>r s'. I s' \<and> (\<forall>a. r = Some a \<longrightarrow> Q a s'))"
      and "I s"
    then have b: "sound body s (\<lambda>r s'. I s' \<and> (\<forall>a. r = Some a \<longrightarrow> Q a s'))" by blast
    show "\<forall>f. y \<noteq> Fault f"
    proof (cases "body s")
      case None
      with eq show ?thesis by (simp add: bindp_def)
    next
      case (Some out)
      with b obtain r s1 where s1: "body s = Some (Ret r s1)" "I s1"
        by (cases out) (auto simp: sound_def)
      show ?thesis
      proof (cases r)
        case None
        with eq s1 have "g body s1 = Some y" by (simp add: bindp_def)
        from IH [OF this] stp s1(2) show ?thesis by blast
      next
        case (Some a)
        with eq s1 show ?thesis by (auto simp: bindp_def ret_def)
      qed
    qed
  qed
  with step I have "loop body s \<noteq> Some (Fault f)" for f by blast
  with post show ?thesis by (simp add: sound_iff safe_def)
qed

lemma solid_loop [solid_intro]:
  assumes "solid I body"
  shows "solid I (loop body)"
proof (rule solidI)
  fix s assume s: "I s"
  show "sound (loop body) s (\<lambda>_. I)"
    by (rule loop_sound [where I = I and Q = "\<lambda>_. I"], rule sound_weaken [OF solidD [OF assms]])
       (simp_all add: s)
qed

text \<open>A variant in any well-founded order makes a loop return.\<close>

lemma loop_halts:
  assumes wf: "wf R"
    and step: "\<And>s. I s \<Longrightarrow> total body s (\<lambda>r s'. (r = None \<longrightarrow> I s' \<and> (s', s) \<in> R) \<and>
                    (\<forall>a. r = Some a \<longrightarrow> Q a s'))"
    and I: "I s"
  shows "total (loop body) s Q"
  using wf I
proof (induction s rule: wf_induct_rule)
  case (less s)
  from step [OF less.prems] obtain r s1 where
    1: "body s = Some (Ret r s1)" "r = None \<longrightarrow> I s1 \<and> (s1, s) \<in> R" "\<forall>a. r = Some a \<longrightarrow> Q a s1"
    by (rule totalE) blast
  show ?case
  proof (cases r)
    case None
    with less.IH [of s1] 1 show ?thesis by (simp add: total_def loop.simps [of body s] bindp_def)
  next
    case (Some a)
    with 1 show ?thesis by (simp add: total_def loop.simps [of body s] bindp_def ret_def)
  qed
qed

lemma loop_diverges:
  fixes body :: "('a option, 's) prog"
  assumes step: "\<And>s. I s \<Longrightarrow> total body s (\<lambda>r s'. r = None \<and> I s')" and I: "I s"
  shows "loop body s = None"
proof (rule ccontr)
  assume "loop body s \<noteq> None"
  then obtain y where y: "loop body s = Some y" by blast
  have "(\<forall>s. I s \<longrightarrow> total body s (\<lambda>r s'. r = None \<and> I s')) \<longrightarrow> \<not> I s"
  proof (rule loop.raw_induct [where P = "\<lambda>body s y.
      (\<forall>s. I s \<longrightarrow> total body s (\<lambda>r s'. r = None \<and> I s')) \<longrightarrow> \<not> I s", OF _ y], intro impI notI)
    fix f body s and y :: "('a, 's) outcome"
    assume IH: "\<And>body s y. f body s = Some y \<Longrightarrow>
        (\<forall>s. I s \<longrightarrow> total body s (\<lambda>r s'. r = None \<and> I s')) \<longrightarrow> \<not> I s"
      and eq: "bindp body (\<lambda>r. if r = None then f body else ret (the r)) s = Some y"
      and stp: "\<forall>s. I s \<longrightarrow> total body s (\<lambda>r s'. r = None \<and> I s')" and "I s"
    from stp \<open>I s\<close> obtain s1 where s1: "body s = Some (Ret None s1)" "I s1"
      by (fastforce simp: total_def)
    with eq have "f body s1 = Some y" by (simp add: bindp_def)
    with IH stp s1(2) show False by blast
  qed
  with step I show False by blast
qed

subsection \<open>C integers and registers\<close>

text \<open>
  A C \<open>int\<close> is an \<open>int\<close>: no arithmetic of the modelled code comes near \<open>INT_MAX\<close>, and
  the bit operations on \<open>int\<close> are those of two's complement.  A register, a data byte and
  any other \<open>unsigned char\<close> is an \<open>8 word\<close>.  A C truth value is \<open>\<noteq> 0\<close>.
\<close>

type_synonym u8 = "8 word"
type_synonym u16 = "16 word"
type_synonym u32 = "32 word"

definition truth :: "int \<Rightarrow> bool" where
  "truth i \<longleftrightarrow> i \<noteq> 0"

definition c_not :: "int \<Rightarrow> int" where
  "c_not i = (if i = 0 then 1 else 0)"

text \<open>Conversion of an \<open>int\<close> to \<open>unsigned char\<close> and back.\<close>

definition uchar :: "int \<Rightarrow> u8" where
  "uchar i = word_of_int i"

lemma uchar_uint [simp]: "uchar (uint b) = b"
  by (simp add: uchar_def)

text \<open>Frobbing a register: clear the bits of the mask, then flip those of the value.\<close>

definition frob :: "u8 \<Rightarrow> u8 \<Rightarrow> u8 \<Rightarrow> u8" where
  "frob c msk val = (c AND NOT msk) XOR val"

lemma frob_xor: "frob c msk (val XOR (msk AND ivt)) XOR ivt = frob (c XOR ivt) msk val"
  by (rule bit_eqI) (auto simp: frob_def bit_simps)

lemma frob_and:
  "val AND NOT wm = 0 \<Longrightarrow> msk AND NOT wm = 0 \<Longrightarrow> frob c msk val AND NOT wm = c AND NOT wm"
  by (auto simp: frob_def bit_eq_iff bit_simps)

end
