(* ===== verification/Ieee1284.thy ===== *)
theory Ieee1284
  imports Prelude
begin

section \<open>The interface header and the port structures\<close>

text \<open>
  The constants of \<^verbatim>\<open>include/ieee1284.h.in\<close> and \<^verbatim>\<open>src/parport.h\<close>, and the structures of
  \<^verbatim>\<open>src/detect.h\<close>: the table of access methods, the enumeration of IEEE 1284 phases and
  the private part of a port.  A slot of the table holds \<open>None\<close> for a null pointer or the
  name of the C function it points to; every slot has a datatype of its own that lists the
  functions which the program stores there.  The theories of the access methods and of the
  default implementations give those functions their meaning.
\<close>

subsection \<open>Error codes, capabilities, flags\<close>

abbreviation (input) E1284_OK :: int where "E1284_OK \<equiv> 0"
abbreviation (input) E1284_NOTIMPL :: int where "E1284_NOTIMPL \<equiv> -1"
abbreviation (input) E1284_NOTAVAIL :: int where "E1284_NOTAVAIL \<equiv> -2"
abbreviation (input) E1284_TIMEDOUT :: int where "E1284_TIMEDOUT \<equiv> -3"
abbreviation (input) E1284_REJECTED :: int where "E1284_REJECTED \<equiv> -4"
abbreviation (input) E1284_NEGFAILED :: int where "E1284_NEGFAILED \<equiv> -5"
abbreviation (input) E1284_NOMEM :: int where "E1284_NOMEM \<equiv> -6"
abbreviation (input) E1284_INIT :: int where "E1284_INIT \<equiv> -7"
abbreviation (input) E1284_SYS :: int where "E1284_SYS \<equiv> -8"
abbreviation (input) E1284_NOID :: int where "E1284_NOID \<equiv> -9"
abbreviation (input) E1284_INVALIDPORT :: int where "E1284_INVALIDPORT \<equiv> -10"

abbreviation (input) F1284_FRESH :: int where "F1284_FRESH \<equiv> 2"
abbreviation (input) F1284_EXCL :: int where "F1284_EXCL \<equiv> 1"

abbreviation (input) CAP1284_RAW :: int where "CAP1284_RAW \<equiv> 1"
abbreviation (input) CAP1284_NIBBLE :: int where "CAP1284_NIBBLE \<equiv> 2"
abbreviation (input) CAP1284_BYTE :: int where "CAP1284_BYTE \<equiv> 4"
abbreviation (input) CAP1284_COMPAT :: int where "CAP1284_COMPAT \<equiv> 8"
abbreviation (input) CAP1284_BECP :: int where "CAP1284_BECP \<equiv> 16"
abbreviation (input) CAP1284_ECP :: int where "CAP1284_ECP \<equiv> 32"
abbreviation (input) CAP1284_ECPRLE :: int where "CAP1284_ECPRLE \<equiv> 64"
abbreviation (input) CAP1284_ECPSWE :: int where "CAP1284_ECPSWE \<equiv> 128"
abbreviation (input) CAP1284_EPP :: int where "CAP1284_EPP \<equiv> 256"
abbreviation (input) CAP1284_EPPSL :: int where "CAP1284_EPPSL \<equiv> 512"
abbreviation (input) CAP1284_EPPSWE :: int where "CAP1284_EPPSWE \<equiv> 1024"
abbreviation (input) CAP1284_IRQ :: int where "CAP1284_IRQ \<equiv> 2048"
abbreviation (input) CAP1284_DMA :: int where "CAP1284_DMA \<equiv> 4096"

abbreviation (input) F1284_NONBLOCK :: int where "F1284_NONBLOCK \<equiv> 1"
abbreviation (input) F1284_SWE :: int where "F1284_SWE \<equiv> 4"
abbreviation (input) F1284_RLE :: int where "F1284_RLE \<equiv> 8"
abbreviation (input) F1284_FASTEPP :: int where "F1284_FASTEPP \<equiv> 16"

subsection \<open>Status and control lines\<close>

text \<open>
  The bits of the status and control registers.  They are used both on \<open>unsigned char\<close>
  and on \<open>int\<close> operands, so they are numerals of any type.
\<close>

abbreviation (input) S1284_NFAULT :: "'a::numeral" where "S1284_NFAULT \<equiv> 0x08"
abbreviation (input) S1284_SELECT :: "'a::numeral" where "S1284_SELECT \<equiv> 0x10"
abbreviation (input) S1284_PERROR :: "'a::numeral" where "S1284_PERROR \<equiv> 0x20"
abbreviation (input) S1284_NACK :: "'a::numeral" where "S1284_NACK \<equiv> 0x40"
abbreviation (input) S1284_BUSY :: "'a::numeral" where "S1284_BUSY \<equiv> 0x80"
abbreviation (input) S1284_INVERTED :: "'a::numeral" where "S1284_INVERTED \<equiv> 0x80"

abbreviation (input) C1284_NSTROBE :: u8 where "C1284_NSTROBE \<equiv> 0x01"
abbreviation (input) C1284_NAUTOFD :: u8 where "C1284_NAUTOFD \<equiv> 0x02"
abbreviation (input) C1284_NINIT :: u8 where "C1284_NINIT \<equiv> 0x04"
abbreviation (input) C1284_NSELECTIN :: u8 where "C1284_NSELECTIN \<equiv> 0x08"

definition C1284_INVERTED :: u8 where
  "C1284_INVERTED = C1284_NSTROBE OR C1284_NAUTOFD OR C1284_NSELECTIN"

text \<open>The masks \<open>rm\<close> and \<open>wm\<close> of the access methods: the four control lines.\<close>

definition control_lines :: u8 where
  "control_lines = C1284_NSTROBE OR C1284_NAUTOFD OR C1284_NINIT OR C1284_NSELECTIN"

lemma C1284_INVERTED_val: "C1284_INVERTED = 0x0b"
  by (simp add: C1284_INVERTED_def)

lemma control_lines_val: "control_lines = 0x0f"
  by (simp add: control_lines_def)

subsection \<open>Transfer modes\<close>

abbreviation (input) M1284_NIBBLE :: int where "M1284_NIBBLE \<equiv> 0"
abbreviation (input) M1284_BYTE :: int where "M1284_BYTE \<equiv> 0x1"
abbreviation (input) M1284_COMPAT :: int where "M1284_COMPAT \<equiv> 0x100"
abbreviation (input) M1284_BECP :: int where "M1284_BECP \<equiv> 0x200"
abbreviation (input) M1284_ECP :: int where "M1284_ECP \<equiv> 0x10"
abbreviation (input) M1284_ECPRLE :: int where "M1284_ECPRLE \<equiv> 0x30"
abbreviation (input) M1284_ECPSWE :: int where "M1284_ECPSWE \<equiv> 0x400"
abbreviation (input) M1284_EPP :: int where "M1284_EPP \<equiv> 0x40"
abbreviation (input) M1284_EPPSL :: int where "M1284_EPPSL \<equiv> 0x800"
abbreviation (input) M1284_EPPSWE :: int where "M1284_EPPSWE \<equiv> 0x1000"
abbreviation (input) M1284_FLAG_DEVICEID :: int where "M1284_FLAG_DEVICEID \<equiv> 0x4"
abbreviation (input) M1284_FLAG_EXT_LINK :: int where "M1284_FLAG_EXT_LINK \<equiv> 0x4000"

abbreviation (input) IEEE1284_ADDR :: int where "IEEE1284_ADDR \<equiv> 0x2000"
abbreviation (input) IEEE1284_DATA :: int where "IEEE1284_DATA \<equiv> 0"

datatype ieee1284_phase =
    PH1284_FWD_DATA
  | PH1284_FWD_IDLE
  | PH1284_TERMINATE
  | PH1284_NEGOTIATION
  | PH1284_HBUSY_DNA
  | PH1284_REV_IDLE
  | PH1284_HBUSY_DAVAIL
  | PH1284_REV_DATA
  | PH1284_ECP_SETUP
  | PH1284_ECP_FWD_TO_REV
  | PH1284_ECP_REV_TO_FWD
  | PH1284_ECP_DIR_UNKNOWN

subsection \<open>The table of access methods\<close>

datatype init_fn = Io_init | Ppdev_init | Lpt_init
datatype cleanup_fn = Io_cleanup | Ppdev_cleanup | Lpt_cleanup
datatype claim_fn = Ppdev_claim
datatype release_fn = Ppdev_release
datatype do_inb_fn = Io_raw_inb | Io_port_inb
datatype do_outb_fn = Io_raw_outb | Io_port_outb
datatype get_irq_fd_fn = Ppdev_get_irq_fd
datatype clear_irq_fn = Ppdev_clear_irq
datatype read_data_fn = Io_read_data | Ppdev_read_data
datatype write_data_fn = Io_write_data | Ppdev_write_data | Lpt_write_data
datatype wait_data_fn = Default_wait_data
datatype data_dir_fn = Io_data_dir | Ppdev_data_dir
datatype read_status_fn = Io_read_status | Ppdev_read_status | Lpt_read_status
datatype wait_status_fn = Io_wait_status | Ppdev_wait_status | Lpt_wait_status
datatype read_control_fn = Io_read_control | Ppdev_read_control | Lpt_read_control
datatype write_control_fn = Io_write_control | Ppdev_write_control | Lpt_write_control
datatype frob_control_fn = Io_frob_control | Ppdev_frob_control | Lpt_frob_control
datatype do_nack_handshake_fn = Default_do_nack_handshake | Ppdev_do_nack_handshake
datatype negotiate_fn = Default_negotiate | Ppdev_negotiate
datatype terminate_fn = Default_terminate | Ppdev_terminate
datatype ecp_fwd_to_rev_fn = Default_ecp_fwd_to_rev
datatype ecp_rev_to_fwd_fn = Default_ecp_rev_to_fwd
datatype nibble_read_fn = Default_nibble_read | Ppdev_nibble_read
datatype compat_write_fn = Default_compat_write | Ppdev_compat_write
datatype byte_read_fn = Default_byte_read | Ppdev_byte_read
datatype epp_read_data_fn = Default_epp_read_data | Ppdev_epp_read_data
datatype epp_write_data_fn = Default_epp_write_data | Ppdev_epp_write_data
datatype epp_read_addr_fn = Default_epp_read_addr | Ppdev_epp_read_addr
datatype epp_write_addr_fn = Default_epp_write_addr | Ppdev_epp_write_addr
datatype ecp_read_data_fn = Default_ecp_read_data | Ppdev_ecp_read_data
datatype ecp_write_data_fn = Default_ecp_write_data | Ppdev_ecp_write_data
datatype ecp_read_addr_fn = Default_ecp_read_addr
datatype ecp_write_addr_fn = Default_ecp_write_addr | Ppdev_ecp_write_addr
datatype set_timeout_fn = Default_set_timeout | Ppdev_set_timeout

record parport_access_methods =
  m_init :: "init_fn option"
  m_cleanup :: "cleanup_fn option"
  m_claim :: "claim_fn option"
  m_release :: "release_fn option"
  m_do_inb :: "do_inb_fn option"
  m_do_outb :: "do_outb_fn option"
  m_get_irq_fd :: "get_irq_fd_fn option"
  m_clear_irq :: "clear_irq_fn option"
  m_read_data :: "read_data_fn option"
  m_write_data :: "write_data_fn option"
  m_wait_data :: "wait_data_fn option"
  m_data_dir :: "data_dir_fn option"
  m_read_status :: "read_status_fn option"
  m_wait_status :: "wait_status_fn option"
  m_read_control :: "read_control_fn option"
  m_write_control :: "write_control_fn option"
  m_frob_control :: "frob_control_fn option"
  m_do_nack_handshake :: "do_nack_handshake_fn option"
  m_negotiate :: "negotiate_fn option"
  m_terminate :: "terminate_fn option"
  m_ecp_fwd_to_rev :: "ecp_fwd_to_rev_fn option"
  m_ecp_rev_to_fwd :: "ecp_rev_to_fwd_fn option"
  m_nibble_read :: "nibble_read_fn option"
  m_compat_write :: "compat_write_fn option"
  m_byte_read :: "byte_read_fn option"
  m_epp_read_data :: "epp_read_data_fn option"
  m_epp_write_data :: "epp_write_data_fn option"
  m_epp_read_addr :: "epp_read_addr_fn option"
  m_epp_write_addr :: "epp_write_addr_fn option"
  m_ecp_read_data :: "ecp_read_data_fn option"
  m_ecp_write_data :: "ecp_write_data_fn option"
  m_ecp_read_addr :: "ecp_read_addr_fn option"
  m_ecp_write_addr :: "ecp_write_addr_fn option"
  m_set_timeout :: "set_timeout_fn option"

text \<open>The table of a port that has never been opened: \<^verbatim>\<open>memset (priv->fn, 0, ...)\<close>.\<close>

definition null_methods :: parport_access_methods where
  "null_methods = \<lparr>
     m_init = None, m_cleanup = None, m_claim = None, m_release = None,
     m_do_inb = None, m_do_outb = None, m_get_irq_fd = None, m_clear_irq = None,
     m_read_data = None, m_write_data = None, m_wait_data = None, m_data_dir = None,
     m_read_status = None, m_wait_status = None, m_read_control = None,
     m_write_control = None, m_frob_control = None, m_do_nack_handshake = None,
     m_negotiate = None, m_terminate = None, m_ecp_fwd_to_rev = None,
     m_ecp_rev_to_fwd = None, m_nibble_read = None, m_compat_write = None,
     m_byte_read = None, m_epp_read_data = None, m_epp_write_data = None,
     m_epp_read_addr = None, m_epp_write_addr = None, m_ecp_read_data = None,
     m_ecp_write_data = None, m_ecp_read_addr = None, m_ecp_write_addr = None,
     m_set_timeout = None \<rparr>"

end
