(* ===== verification/Environment.thy ===== *)
theory Environment
  imports Ieee1284
begin

section \<open>The port, the library's globals and the outside world\<close>

text \<open>
  The structures \<^verbatim>\<open>struct parport\<close> and \<^verbatim>\<open>struct parport_internal\<close>, the globals the
  operations on a port read, and the outside world.  The world (hardware registers, kernel
  drivers, clock) is a value of an arbitrary type \<open>'w\<close>; what the library asks of it are the
  fields of an environment \<open>E :: 'w env\<close>, one for each instruction, system call or C library
  function the code uses, each a function that may change the world.  Every definition of
  the development that touches the outside takes \<open>E\<close> as its first argument.  The state of a
  run also carries a trace of the calls that reach the hardware or the kernel, which no
  definition reads: it is there for the theorems.
\<close>

subsection \<open>Time\<close>

record timeval =
  tv_sec :: int
  tv_usec :: int

definition usecs :: "timeval \<Rightarrow> int" where
  "usecs t = tv_sec t * 1000000 + tv_usec t"

text \<open>The guard of every polling loop: is \<open>now\<close> before \<open>deadline\<close>?\<close>

definition tv_before :: "timeval \<Rightarrow> timeval \<Rightarrow> bool" where
  "tv_before now deadline \<longleftrightarrow> tv_sec now < tv_sec deadline \<or>
     (tv_sec now = tv_sec deadline \<and> tv_usec now < tv_usec deadline)"

text \<open>The deadline every polling loop computes from the current time and the timeout.\<close>

definition deadline_after :: "timeval \<Rightarrow> timeval \<Rightarrow> timeval" where
  "deadline_after now timeout =
     (let sec = tv_sec now + tv_sec timeout;
          usec = tv_usec now + tv_usec timeout
      in \<lparr> tv_sec = sec + usec sdiv 1000000, tv_usec = usec smod 1000000 \<rparr>)"

lemma usecs_deadline_after: "usecs (deadline_after now timeout) = usecs now + usecs timeout"
proof -
  have "(u sdiv 1000000) * 1000000 + u smod 1000000 = u" for u :: int
    by (simp add: mult_sdiv_smod_eq mult.commute)
  then show ?thesis
    by (simp add: deadline_after_def usecs_def Let_def algebra_simps)
qed

lemma tv_before_usecs:
  assumes "0 \<le> tv_usec a" "tv_usec a < 1000000" "0 \<le> tv_usec b" "tv_usec b < 1000000"
  shows "tv_before a b \<longleftrightarrow> usecs a < usecs b"
  using assms by (auto simp: tv_before_def usecs_def)

subsection \<open>Builds\<close>

text \<open>
  The system the library is built for, which decides the branches of the conditional
  compilation: one value for each case of \<^verbatim>\<open>configure.in\<close>, where \<open>Linux_No_Io\<close> is a Linux
  without \<^verbatim>\<open>sys/io.h\<close>, and Cygwin and MinGW define both \<^verbatim>\<open>HAVE_CYGWIN_9X\<close> and \<^verbatim>\<open>HAVE_CYGWIN_NT\<close>.
\<close>

datatype build = Linux | Linux_No_Io | OpenBSD | FreeBSD | NetBSD | Solaris | Cygwin | MinGW

fun have_linux :: "build \<Rightarrow> bool" where
  "have_linux Linux = True" | "have_linux Linux_No_Io = True" | "have_linux _ = False"

fun have_cygwin :: "build \<Rightarrow> bool" where
  "have_cygwin Cygwin = True" | "have_cygwin MinGW = True" | "have_cygwin _ = False"

subsection \<open>Requests to the kernel\<close>

text \<open>
  The requests of ppdev, those of the Windows NT driver, and the two of the Solaris driver, whose
  argument points to a port number and a byte.
\<close>

datatype ioctl =
    PPCLAIM | PPRELEASE | PPEXCL | PPGETMODES
  | PPRDATA | PPWDATA u8 | PPRSTATUS | PPRCONTROL | PPWCONTROL u8
  | PPFCONTROL u8 u8 | PPDATADIR int
  | PPCLRIRQ | PPWCTLONIRQ u8
  | PPNEGOT int | PPSETMODE int | PPSETFLAGS int
  | PPGETTIME | PPSETTIME timeval
  | NT_IOCTL_DATA u8 | NT_IOCTL_STATUS | NT_IOCTL_CONTROL u8
  | IOPREAD u32 | IOPWRITE u32 u8

text \<open>The result of an \<open>ioctl\<close>: its return value, and what it stores through its pointer argument.\<close>

record ioctl_reply =
  reply_ret :: int
  reply_int :: int
  reply_time :: timeval

datatype open_flags = O_RDONLY_NOCTTY | O_RDWR_NOCTTY | O_RDONLY | O_RDWR

datatype event =
    Inb u16 u8
  | Outb u8 u16
  | Pause u8   \<comment> \<open>a write to the unused port \<open>0x80\<close>\<close>
  | Ioperm int int int int
  | Get_iomap int
  | Set_iomap "u32 list" int
  | Open string int
  | Close int
  | Ioctl int ioctl int
  | Lseek int int int
  | Read int int int   \<comment> \<open>descriptor, length asked for, result\<close>
  | Write int "u8 list" int
  | Setfl int int
  | Sleep timeval

record 'w env =
  env_build :: build
  env_inb :: "u16 \<Rightarrow> 'w \<Rightarrow> u8 \<times> 'w"
  env_outb :: "u8 \<Rightarrow> u16 \<Rightarrow> 'w \<Rightarrow> 'w"
  env_ioperm :: "int \<Rightarrow> int \<Rightarrow> int \<Rightarrow> 'w \<Rightarrow> int \<times> 'w"
  env_get_iomap :: "'w \<Rightarrow> (int \<times> u32 list) \<times> 'w"
  env_set_iomap :: "u32 list \<Rightarrow> 'w \<Rightarrow> int \<times> 'w"
  env_get_version :: "'w \<Rightarrow> u32 \<times> 'w"
  env_open :: "string \<Rightarrow> open_flags \<Rightarrow> 'w \<Rightarrow> int \<times> 'w"
  env_close :: "int \<Rightarrow> 'w \<Rightarrow> 'w"
  env_ioctl :: "int \<Rightarrow> ioctl \<Rightarrow> 'w \<Rightarrow> ioctl_reply \<times> 'w"
  env_errno :: "'w \<Rightarrow> int"
  env_getfl :: "int \<Rightarrow> 'w \<Rightarrow> int \<times> 'w"
  env_setfl :: "int \<Rightarrow> int \<Rightarrow> 'w \<Rightarrow> int \<times> 'w"
  env_lseek :: "int \<Rightarrow> int \<Rightarrow> 'w \<Rightarrow> int \<times> 'w"
  env_read :: "int \<Rightarrow> int \<Rightarrow> 'w \<Rightarrow> (int \<times> u8 list) \<times> 'w"
  env_write :: "int \<Rightarrow> u8 list \<Rightarrow> 'w \<Rightarrow> int \<times> 'w"
  env_select_read :: "int \<Rightarrow> timeval \<Rightarrow> 'w \<Rightarrow> int \<times> 'w"
  env_sleep :: "timeval \<Rightarrow> 'w \<Rightarrow> 'w"
  env_gettimeofday :: "'w \<Rightarrow> timeval \<times> 'w"
  env_ftime :: "'w \<Rightarrow> (int \<times> int) \<times> 'w"
  env_malloc :: "int \<Rightarrow> 'w \<Rightarrow> bool \<times> 'w"
  env_fopen :: "string \<Rightarrow> 'w \<Rightarrow> bool \<times> 'w"
  env_fgets :: "int \<Rightarrow> 'w \<Rightarrow> string option \<times> 'w"
  env_fclose :: "'w \<Rightarrow> 'w"
  env_stat :: "string \<Rightarrow> 'w \<Rightarrow> (bool \<times> int) option \<times> 'w"
  env_opendir :: "string \<Rightarrow> 'w \<Rightarrow> bool \<times> 'w"
  env_readdir :: "'w \<Rightarrow> string option \<times> 'w"
  env_closedir :: "'w \<Rightarrow> 'w"

subsection \<open>Ports and globals\<close>

record parport =
  pname :: string
  base_addr :: "64 word"
  hibase_addr :: "64 word"
  filename :: "string option"

record ppdev_priv =
  inactivity_timer :: "timeval option"
  nonblock :: int
  current_flags :: int

record parport_internal =
  ptype :: int
  device :: "string option"
  udevice :: "string option"
  base :: "64 word"
  base_hi :: "64 word"
  interrupt :: int
  fd :: int
  opened :: int
  claimed :: int
  ctr :: u8
  current_mode :: int
  current_channel :: int
  current_phase :: ieee1284_phase
  refcount :: int
  fn :: parport_access_methods
  access_priv :: "ppdev_priv option"

abbreviation (input) IO_CAPABLE :: int where "IO_CAPABLE \<equiv> 1"
abbreviation (input) PPDEV_CAPABLE :: int where "PPDEV_CAPABLE \<equiv> 2"
abbreviation (input) PROC_PARPORT_CAPABLE :: int where "PROC_PARPORT_CAPABLE \<equiv> 4"
abbreviation (input) PROC_SYS_DEV_PARPORT_CAPABLE :: int
  where "PROC_SYS_DEV_PARPORT_CAPABLE \<equiv> 8"
abbreviation (input) DEV_LP_CAPABLE :: int where "DEV_LP_CAPABLE \<equiv> 16"
abbreviation (input) DEV_PORT_CAPABLE :: int where "DEV_PORT_CAPABLE \<equiv> 32"
abbreviation (input) LPT_CAPABLE :: int where "LPT_CAPABLE \<equiv> 64"

record globals =
  g_capabilities :: int
  disallow_ppdev :: int

text \<open>
  The state of the functions that work on one port: the public and the private part of that
  port, the globals, the world and the trace.
\<close>

record 'w sys =
  pub :: parport
  prt :: parport_internal
  glob :: globals
  world :: 'w
  trace :: "event list"

definition upd :: "(parport_internal \<Rightarrow> parport_internal) \<Rightarrow> (unit, 'w sys) prog" where
  "upd f = modify (\<lambda>s. s\<lparr>prt := f (prt s)\<rparr>)"

definition env_call ::
  "('w \<Rightarrow> 'a \<times> 'w) \<Rightarrow> ('a \<Rightarrow> event list) \<Rightarrow> ('a, 'w sys) prog" where
  "env_call f ev = (\<lambda>s. case f (world s) of
      (a, w) \<Rightarrow> Some (Ret a (s\<lparr>world := w, trace := trace s @ ev a\<rparr>)))"

definition env_do :: "('w \<Rightarrow> 'w) \<Rightarrow> event list \<Rightarrow> (unit, 'w sys) prog" where
  "env_do f ev = modify (\<lambda>s. s\<lparr>world := f (world s), trace := trace s @ ev\<rparr>)"

lemma run_upd [run_simps]: "upd f s = Some (Ret () (s\<lparr>prt := f (prt s)\<rparr>))"
  by (simp add: upd_def run_simps)

lemma run_env_call [run_simps]:
  "f (world s) = (a, w) \<Longrightarrow>
     env_call f ev s = Some (Ret a (s\<lparr>world := w, trace := trace s @ ev a\<rparr>))"
  by (simp add: env_call_def)

lemma run_env_do [run_simps]:
  "env_do f ev s = Some (Ret () (s\<lparr>world := f (world s), trace := trace s @ ev\<rparr>))"
  by (simp add: env_do_def run_simps)

lemma post_upd [wp_intro]: "Q () (s\<lparr>prt := f (prt s)\<rparr>) \<Longrightarrow> post (upd f) s Q"
  by (simp add: upd_def post_modify)

lemma total_upd [wp_intro]: "Q () (s\<lparr>prt := f (prt s)\<rparr>) \<Longrightarrow> total (upd f) s Q"
  by (simp add: upd_def total_modify)

lemma post_env_call [wp_intro]:
  "(\<And>a w. f (world s) = (a, w) \<Longrightarrow> Q a (s\<lparr>world := w, trace := trace s @ ev a\<rparr>)) \<Longrightarrow>
     post (env_call f ev) s Q"
  by (auto simp: post_def env_call_def split: prod.splits)

lemma total_env_call [wp_intro]:
  "(\<And>a w. f (world s) = (a, w) \<Longrightarrow> Q a (s\<lparr>world := w, trace := trace s @ ev a\<rparr>)) \<Longrightarrow>
     total (env_call f ev) s Q"
  by (auto simp: total_def env_call_def split: prod.splits)

lemma post_env_do [wp_intro]:
  "Q () (s\<lparr>world := f (world s), trace := trace s @ ev\<rparr>) \<Longrightarrow> post (env_do f ev) s Q"
  by (simp add: env_do_def post_modify)

lemma total_env_do [wp_intro]:
  "Q () (s\<lparr>world := f (world s), trace := trace s @ ev\<rparr>) \<Longrightarrow> total (env_do f ev) s Q"
  by (simp add: env_do_def total_modify)

subsection \<open>The part of the state that pin operations leave alone\<close>

text \<open>
  Operations on the pins change the soft copy of the control register, the world and the
  trace; the core is everything else.
\<close>

definition core :: "'w sys \<Rightarrow> parport \<times> parport_internal \<times> globals" where
  "core s = (pub s, (prt s)\<lparr>ctr := 0\<rparr>, glob s)"

lemma core_world [simp]: "core (s\<lparr>world := w\<rparr>) = core s"
  by (simp add: core_def)

lemma core_trace [simp]: "core (s\<lparr>trace := t\<rparr>) = core s"
  by (simp add: core_def)

lemma core_ctr [simp]: "core (s\<lparr>prt := (prt s)\<lparr>ctr := c\<rparr>\<rparr>) = core s"
  by (simp add: core_def)

lemma core_prtD: "core s' = core s \<Longrightarrow> (prt s')\<lparr>ctr := 0\<rparr> = (prt s)\<lparr>ctr := 0\<rparr>"
  by (simp add: core_def)

lemma coreD:
  assumes "core s' = core s"
  shows "pub s' = pub s" "glob s' = glob s"
    "ptype (prt s') = ptype (prt s)" "fd (prt s') = fd (prt s)"
    "base (prt s') = base (prt s)" "interrupt (prt s') = interrupt (prt s)"
    "opened (prt s') = opened (prt s)" "claimed (prt s') = claimed (prt s)"
    "current_mode (prt s') = current_mode (prt s)"
    "current_channel (prt s') = current_channel (prt s)"
    "current_phase (prt s') = current_phase (prt s)"
    "refcount (prt s') = refcount (prt s)" "fn (prt s') = fn (prt s)"
    "access_priv (prt s') = access_priv (prt s)"
    "device (prt s') = device (prt s)" "udevice (prt s') = udevice (prt s)"
  using assms by (cases "prt s"; cases "prt s'"; simp add: core_def)+

text \<open>A view of the state is stable if calls of the outside world cannot change it.\<close>

definition stable :: "('w sys \<Rightarrow> 'v) \<Rightarrow> bool" where
  "stable v \<longleftrightarrow> (\<forall>s w t. v (s\<lparr>world := w, trace := t\<rparr>) = v s)"

lemma stable_world: "stable v \<Longrightarrow> v (s\<lparr>world := w\<rparr>) = v s"
  by (metis stable_def sys.surjective sys.update_convs(4) sys.update_convs(5))

lemma stable_both: "stable v \<Longrightarrow> v (s\<lparr>world := w, trace := t\<rparr>) = v s"
  by (simp add: stable_def)

lemmas stableD = stable_world stable_both

lemma stable_core [simp, keeps_intro]: "stable core"
  by (simp add: stable_def)

lemma stable_prt [simp]: "stable (\<lambda>s. P (prt s))"
  by (simp add: stable_def)

lemma keeps_env_call [keeps_intro]: "stable v \<Longrightarrow> keeps v (env_call f ev)"
  by (auto simp: keeps_def post_def env_call_def stableD split: prod.splits)

lemma keeps_env_do [keeps_intro]: "stable v \<Longrightarrow> keeps v (env_do f ev)"
  by (auto simp: keeps_def post_def env_do_def modify_def stableD)

lemma keeps_upd [keeps_intro]:
  "(\<And>s. v (s\<lparr>prt := f (prt s)\<rparr>) = v s) \<Longrightarrow> keeps v (upd f)"
  by (auto simp: keeps_def post_def upd_def modify_def)

end
