(* ===== verification/Timing.thy ===== *)
theory Timing
  imports Environment
begin

section \<open>Delays and polling loops\<close>

text \<open>
  \<^verbatim>\<open>src/delay.c\<close>, \<^verbatim>\<open>src/delay.h\<close>, the inline \<^verbatim>\<open>delay\<close> of \<^verbatim>\<open>src/access.h\<close>, and the
  polling loop that \<^verbatim>\<open>default_wait_data\<close> and the three \<^verbatim>\<open>wait_status\<close> functions share.
  The loops run until the clock passes a deadline, so they are instances of \<open>loop\<close>; with a
  clock that makes progress (\<open>clock_ok\<close>) they return.
\<close>

subsection \<open>Delays\<close>

datatype Delays = IO_POLL_DELAY | TIMEVAL_SIGNAL_TIMEOUT | TIMEVAL_STROBE_DELAY

fun delay_table :: "Delays \<Rightarrow> int" where
  "delay_table IO_POLL_DELAY = 1"
| "delay_table TIMEVAL_SIGNAL_TIMEOUT = 100000"
| "delay_table TIMEVAL_STROBE_DELAY = 1"

definition lookup_delay :: "Delays \<Rightarrow> timeval" where
  "lookup_delay which = \<lparr> tv_sec = 0, tv_usec = delay_table which \<rparr>"

lemma usecs_lookup_delay: "usecs (lookup_delay which) = delay_table which"
  by (simp add: lookup_delay_def usecs_def)

lemma delay_table_pos: "1 \<le> delay_table which"
  by (cases which) simp_all

definition gettimeofday :: "'w env \<Rightarrow> (timeval, 'w sys) prog" where
  "gettimeofday E = env_call (env_gettimeofday E) (\<lambda>_. [])"

text \<open>
  The MinGW build has no \<^verbatim>\<open>gettimeofday\<close>: it counts milliseconds with \<^verbatim>\<open>ftime\<close>, in an \<^verbatim>\<open>int\<close> or a
  \<^verbatim>\<open>long\<close> of 32 bits, which wraps around every 49 days.
\<close>

definition int32 :: "int \<Rightarrow> int" where
  "int32 n = sint (word_of_int n :: u32)"

definition ftime :: "'w env \<Rightarrow> (int \<times> int, 'w sys) prog" where
  "ftime E = env_call (env_ftime E) (\<lambda>_. [])"

definition ms_now :: "'w env \<Rightarrow> (int, 'w sys) prog" where
  "ms_now E = bindp (ftime E) (\<lambda>(time, millitm). ret (int32 (time * 1000 + millitm)))"

definition delay :: "'w env \<Rightarrow> Delays \<Rightarrow> (unit, 'w sys) prog" where
  "delay E which =
     (let tv = lookup_delay which in
      if env_build E = MinGW
      then bindp (ms_now E) (\<lambda>t0.
           loop (bindp (ms_now E) (\<lambda>t1.
             ret (if int32 (t1 - t0) < tv_sec tv * 1000 + tv_usec tv sdiv 1000 then None
                  else Some ()))))
      else env_do (env_sleep E tv) [Sleep tv])"

definition udelay_loop :: "'w env \<Rightarrow> timeval \<Rightarrow> (unit, 'w sys) prog" where
  "udelay_loop E deadline =
     loop (bindp (gettimeofday E) (\<lambda>now.
       ret (if tv_before now deadline then None else Some ())))"

definition udelay :: "'w env \<Rightarrow> int \<Rightarrow> (unit, 'w sys) prog" where
  "udelay E usec =
     (if env_build E = MinGW
      then bindp (ftime E) (\<lambda>(time, millitm).
           let deadline = int32 (time * 1000 + millitm + usec div 1000) in
           loop (bindp (ms_now E) (\<lambda>now. ret (if now < deadline then None else Some ()))))
      else bindp (gettimeofday E) (\<lambda>now.
           udelay_loop E (deadline_after now \<lparr> tv_sec = 0, tv_usec = usec \<rparr>)))"

subsection \<open>Polling until a deadline\<close>

text \<open>
  One round: test; if the test fails, sleep, look at the clock and go round again unless
  the deadline has passed.  The test comes first, so there is always one round.
\<close>

definition poll_rounds ::
  "'w env \<Rightarrow> (bool, 'w sys) prog \<Rightarrow> (bool, 'w sys) prog \<Rightarrow> (int, 'w sys) prog" where
  "poll_rounds E hit early =
     loop (bindp hit (\<lambda>b.
       if b then ret (Some E1284_OK)
       else bindp (delay E IO_POLL_DELAY) (\<lambda>_.
            bindp early (\<lambda>e. ret (if e then None else Some E1284_TIMEDOUT)))))"

definition poll_loop :: "'w env \<Rightarrow> (bool, 'w sys) prog \<Rightarrow> timeval \<Rightarrow> (int, 'w sys) prog" where
  "poll_loop E hit deadline =
     poll_rounds E hit (bindp (gettimeofday E) (\<lambda>now. ret (tv_before now deadline)))"

definition poll_ms :: "'w env \<Rightarrow> (bool, 'w sys) prog \<Rightarrow> timeval \<Rightarrow> (int, 'w sys) prog" where
  "poll_ms E hit timeout =
     bindp (ftime E) (\<lambda>(time, millitm).
     let deadline = int32 (time * 1000 + millitm + tv_sec timeout * 1000 + tv_usec timeout sdiv 1000)
     in poll_rounds E hit (bindp (ms_now E) (\<lambda>now. ret (now < deadline))))"

definition poll_until :: "'w env \<Rightarrow> (bool, 'w sys) prog \<Rightarrow> timeval \<Rightarrow> (int, 'w sys) prog" where
  "poll_until E hit timeout =
     (if env_build E = MinGW then poll_ms E hit timeout
      else bindp (gettimeofday E) (\<lambda>now. poll_loop E hit (deadline_after now timeout)))"

lemma if_none:
  "(if (if c then None else Some x) = None then m else ret (the (if c then None else Some x))) =
     (if c then m else ret x)"
  by simp

lemma udelay_loop_unfold:
  "udelay_loop E deadline s =
     bindp (gettimeofday E) (\<lambda>now.
       if tv_before now deadline then udelay_loop E deadline else ret ()) s"
  unfolding udelay_loop_def
  by (subst loop.simps) (simp only: bindp_assoc bindp_ret_left if_none)

lemma poll_rounds_unfold:
  "poll_rounds E hit early s =
     bindp hit (\<lambda>b.
       if b then ret E1284_OK
       else bindp (delay E IO_POLL_DELAY) (\<lambda>_.
            bindp early (\<lambda>e. if e then poll_rounds E hit early else ret E1284_TIMEDOUT))) s"
proof -
  have "bindp (if b then ret (Some E1284_OK)
       else bindp (delay E IO_POLL_DELAY) (\<lambda>_.
            bindp early (\<lambda>e. ret (if e then None else Some E1284_TIMEDOUT))))
     (\<lambda>r. if r = None then poll_rounds E hit early else ret (the r)) =
    (if b then ret E1284_OK
       else bindp (delay E IO_POLL_DELAY) (\<lambda>_.
            bindp early (\<lambda>e. if e then poll_rounds E hit early else ret E1284_TIMEDOUT)))" for b
    by (cases b) (simp_all only: bindp_assoc bindp_ret_left if_none if_True if_False option.distinct
        option.sel simp_thms)
  then show ?thesis
    unfolding poll_rounds_def by (subst loop.simps) (simp only: bindp_assoc)
qed

lemma poll_loop_unfold:
  "poll_loop E hit deadline s =
     bindp hit (\<lambda>b.
       if b then ret E1284_OK
       else bindp (delay E IO_POLL_DELAY) (\<lambda>_.
            bindp (gettimeofday E) (\<lambda>now.
              if tv_before now deadline then poll_loop E hit deadline
              else ret E1284_TIMEDOUT))) s"
  unfolding poll_loop_def
  by (subst poll_rounds_unfold) (simp only: bindp_assoc bindp_ret_left)

subsection \<open>Frames and results of the loops\<close>

lemma keeps_gettimeofday [keeps_intro]:
  "stable v \<Longrightarrow> keeps v (gettimeofday E)"
  by (auto simp: gettimeofday_def intro!: keeps_intro)

text \<open>
  The time functions change nothing but the world and the trace; with a clock that is only
  read (\<open>keeps_clock\<close>) that holds of every view which the clock's calls keep.
\<close>

definition keeps_clock :: "('w sys \<Rightarrow> 'v) \<Rightarrow> 'w env \<Rightarrow> bool" where
  "keeps_clock v E \<longleftrightarrow> keeps v (gettimeofday E) \<and> keeps v (ftime E) \<and>
     (\<forall>tv. keeps v (env_do (env_sleep E tv) [Sleep tv]))"

lemma keeps_clock_stable: "stable v \<Longrightarrow> keeps_clock v E"
  unfolding keeps_clock_def ftime_def by (intro conjI allI keeps_gettimeofday keeps_intro; assumption)

lemma keeps_clockD:
  assumes "keeps_clock v E"
  shows "keeps v (gettimeofday E)" "keeps v (ftime E)" "keeps v (env_do (env_sleep E tv) [Sleep tv])"
    "keeps v (ms_now E)"
  using assms unfolding keeps_clock_def ms_now_def
  by (auto intro!: keeps_bindp keeps_ret split: prod.split)

lemma keeps_delay_quiet: "keeps_clock v E \<Longrightarrow> keeps v (delay E which)"
  unfolding delay_def Let_def by (intro keeps_if keeps_bindp keeps_loop keeps_ret keeps_clockD)

lemma keeps_udelay_quiet: "keeps_clock v E \<Longrightarrow> keeps v (udelay E usec)"
  unfolding udelay_def udelay_loop_def Let_def case_prod_beta
  by (intro keeps_if keeps_bindp keeps_loop keeps_ret keeps_clockD)

lemma keeps_poll_until_quiet:
  assumes "keeps_clock v E" and "keeps v hit"
  shows "keeps v (poll_until E hit timeout)"
proof -
  have rounds: "keeps v (poll_rounds E hit early)" if "keeps v early" for early
    unfolding poll_rounds_def
    by (intro keeps_bindp keeps_loop keeps_ret keeps_if assms(2) that keeps_delay_quiet assms(1))
  show ?thesis
    unfolding poll_until_def poll_ms_def poll_loop_def Let_def case_prod_beta
    by (intro keeps_if keeps_bindp keeps_ret rounds keeps_clockD [OF assms(1)])
qed

lemma keeps_delay [keeps_intro]: "stable v \<Longrightarrow> keeps v (delay E which)"
  by (intro keeps_delay_quiet keeps_clock_stable)

lemma keeps_udelay [keeps_intro]: "stable v \<Longrightarrow> keeps v (udelay E usec)"
  by (intro keeps_udelay_quiet keeps_clock_stable)

lemma keeps_poll_until [keeps_intro]:
  "stable v \<Longrightarrow> keeps v hit \<Longrightarrow> keeps v (poll_until E hit timeout)"
  by (intro keeps_poll_until_quiet keeps_clock_stable)

text \<open>
  A polling loop that returns either saw its test succeed, and then the final state is the
  one that test left, or reports a timeout; what a failing test leaves as it was, is left so.
\<close>

lemma poll_rounds_post:
  assumes v: "keeps_clock v E" and early: "keeps v early"
    and hit: "\<And>s1. v s1 = v s \<Longrightarrow> post hit s1 (\<lambda>b s'. \<not> b \<longrightarrow> v s' = v s)"
  shows "post (poll_rounds E hit early) s (\<lambda>r s'.
     r = E1284_OK \<and> (\<exists>s1. v s1 = v s \<and> hit s1 = Some (Ret True s')) \<or> r = E1284_TIMEDOUT \<and> v s' = v s)"
  unfolding poll_rounds_def
proof (rule loop_post [where I = "\<lambda>s'. v s' = v s"])
  fix s0 assume s0: "v s0 = v s"
  let ?wait = "bindp (delay E IO_POLL_DELAY) (\<lambda>_. bindp early (\<lambda>e. ret (if e then None else Some E1284_TIMEDOUT)))"
  have wait: "keeps v ?wait" by (intro keeps_bindp keeps_ret early keeps_delay_quiet v)
  have r: "post ?wait s1 (\<lambda>r s'. \<forall>a. r = Some a \<longrightarrow> a = E1284_TIMEDOUT)" for s1
    by (intro post_skip post_ret) simp
  show "post (bindp hit (\<lambda>b. if b then ret (Some E1284_OK) else ?wait)) s0
     (\<lambda>r s'. (r = None \<longrightarrow> v s' = v s) \<and> (\<forall>a. r = Some a \<longrightarrow>
       a = E1284_OK \<and> (\<exists>s1. v s1 = v s \<and> hit s1 = Some (Ret True s')) \<or>
       a = E1284_TIMEDOUT \<and> v s' = v s))"
  proof (rule post_bindp, rule postI, rule post_if)
    fix b s1 assume h: "hit s0 = Some (Ret b s1)"
    show "b \<Longrightarrow> post (ret (Some E1284_OK)) s1 (\<lambda>r s'. (r = None \<longrightarrow> v s' = v s) \<and> (\<forall>a. r = Some a \<longrightarrow>
       a = E1284_OK \<and> (\<exists>s1. v s1 = v s \<and> hit s1 = Some (Ret True s')) \<or>
       a = E1284_TIMEDOUT \<and> v s' = v s))"
      using h s0 by (intro post_ret) auto
    assume "\<not> b"
    with postD [OF hit [OF s0] h] have "v s1 = v s" by simp
    then show "post ?wait s1 (\<lambda>r s'. (r = None \<longrightarrow> v s' = v s) \<and> (\<forall>a. r = Some a \<longrightarrow>
       a = E1284_OK \<and> (\<exists>s1. v s1 = v s \<and> hit s1 = Some (Ret True s')) \<or>
       a = E1284_TIMEDOUT \<and> v s' = v s))"
      by (intro post_weaken [OF post_conj [OF keepsD [OF wait] r]]) auto
  qed
qed simp

lemma poll_until_post_miss:
  assumes v: "keeps_clock v E"
    and hit: "\<And>s1. v s1 = v s \<Longrightarrow> post hit s1 (\<lambda>b s'. \<not> b \<longrightarrow> v s' = v s)"
  shows "post (poll_until E hit timeout) s (\<lambda>r s'.
     r = E1284_OK \<and> (\<exists>s1. v s1 = v s \<and> hit s1 = Some (Ret True s')) \<or> r = E1284_TIMEDOUT \<and> v s' = v s)"
proof -
  have rounds: "post (poll_rounds E hit early) s1 (\<lambda>r s'.
     r = E1284_OK \<and> (\<exists>s1. v s1 = v s \<and> hit s1 = Some (Ret True s')) \<or> r = E1284_TIMEDOUT \<and> v s' = v s)"
    if "v s1 = v s" and "keeps v early" for s1 :: "'a sys" and early
    using poll_rounds_post [OF v that(2), where s = s1] hit that(1) by simp
  show ?thesis
    unfolding poll_until_def poll_ms_def poll_loop_def Let_def case_prod_beta
    by (intro post_if post_step [of v] rounds keeps_bindp keeps_ret keeps_clockD [OF v])
qed

text \<open>When no reading changes what is looked at, neither does the wait.\<close>

lemma poll_until_post_quiet:
  assumes "keeps_clock v E" and "keeps v hit"
  shows "post (poll_until E hit timeout) s (\<lambda>r s'. v s' = v s \<and>
     (r = E1284_OK \<and> (\<exists>s1. v s1 = v s \<and> hit s1 = Some (Ret True s')) \<or> r = E1284_TIMEDOUT))"
proof (rule post_weaken [OF poll_until_post_miss [OF assms(1)]])
  show "post hit s1 (\<lambda>b s'. \<not> b \<longrightarrow> v s' = v s)" if "v s1 = v s" for s1
    by (rule post_weaken [OF keepsD [OF assms(2)]]) (simp add: that)
qed (auto dest: keeps_eq [OF assms(2)])

lemmas poll_until_post = poll_until_post_quiet [OF keeps_clock_stable]

subsection \<open>Clocks that make progress\<close>

text \<open>
  What the code relies on of the clock (POSIX): \<^verbatim>\<open>gettimeofday\<close> reports a normalised time
  that never goes back and cannot be asked for ever without advancing (\<open>stall\<close> bounds how
  often), \<^verbatim>\<open>select\<close> with empty sets sleeps at least the time asked for, and no other call
  turns the clock back.
\<close>

definition clock_ticks :: "'w env \<Rightarrow> ('w \<Rightarrow> int) \<Rightarrow> ('w \<Rightarrow> nat) \<Rightarrow> bool" where
  "clock_ticks E clk stall \<longleftrightarrow>
     (\<forall>w t w'. env_gettimeofday E w = (t, w') \<longrightarrow>
        clk w < clk w' \<or> clk w' = clk w \<and> stall w' < stall w)"

definition clock_ok :: "'w env \<Rightarrow> ('w \<Rightarrow> int) \<Rightarrow> bool" where
  "clock_ok E clk \<longleftrightarrow>
     (\<exists>stall. clock_ticks E clk stall) \<and>
     (\<forall>w t w'. env_gettimeofday E w = (t, w') \<longrightarrow>
        usecs t = clk w \<and> 0 \<le> tv_usec t \<and> tv_usec t < 1000000) \<and>
     (\<forall>t w. 0 \<le> usecs t \<longrightarrow> clk w + usecs t \<le> clk (env_sleep E t w)) \<and>
     env_build E \<noteq> MinGW \<and>
     (\<forall>a w. clk w \<le> clk (snd (env_inb E a w))) \<and>
     (\<forall>v a w. clk w \<le> clk (env_outb E v a w)) \<and>
     (\<forall>a b c w. clk w \<le> clk (snd (env_ioperm E a b c w))) \<and>
     (\<forall>w. clk w \<le> clk (snd (env_get_iomap E w))) \<and>
     (\<forall>m w. clk w \<le> clk (snd (env_set_iomap E m w))) \<and>
     (\<forall>p m w. clk w \<le> clk (snd (env_open E p m w))) \<and>
     (\<forall>d w. clk w \<le> clk (env_close E d w)) \<and>
     (\<forall>d r w. clk w \<le> clk (snd (env_ioctl E d r w))) \<and>
     (\<forall>d w. clk w \<le> clk (snd (env_getfl E d w))) \<and>
     (\<forall>d m w. clk w \<le> clk (snd (env_setfl E d m w))) \<and>
     (\<forall>d n w. clk w \<le> clk (snd (env_lseek E d n w))) \<and>
     (\<forall>d n w. clk w \<le> clk (snd (env_read E d n w))) \<and>
     (\<forall>d b w. clk w \<le> clk (snd (env_write E d b w))) \<and>
     (\<forall>d t w. clk w \<le> clk (snd (env_select_read E d t w))) \<and>
     (\<forall>n w. clk w \<le> clk (snd (env_malloc E n w)))"

lemma clock_sleep:
  "clock_ok E clk \<Longrightarrow> 0 \<le> usecs t \<Longrightarrow> clk w + usecs t \<le> clk (env_sleep E t w)"
  by (simp add: clock_ok_def)

lemma clock_build: "clock_ok E clk \<Longrightarrow> env_build E \<noteq> MinGW"
  by (simp add: clock_ok_def)

lemma clock_time:
  assumes "clock_ok E clk" and "env_gettimeofday E w = (t, w')"
  shows "usecs t = clk w" "0 \<le> tv_usec t" "tv_usec t < 1000000"
proof -
  have "\<forall>w t w'. env_gettimeofday E w = (t, w') \<longrightarrow>
      usecs t = clk w \<and> 0 \<le> tv_usec t \<and> tv_usec t < 1000000"
    using assms(1) unfolding clock_ok_def by (elim conjE)
  with assms(2) show "usecs t = clk w" "0 \<le> tv_usec t" "tv_usec t < 1000000" by blast+
qed

lemma clock_time_mono:
  assumes "clock_ok E clk" and "env_gettimeofday E w = (t, w')"
  shows "clk w \<le> clk w'"
  using assms by (fastforce simp: clock_ok_def clock_ticks_def)

lemma clock_mono:
  assumes "clock_ok E clk"
  shows "clk w \<le> clk (snd (env_inb E a w))" "clk w \<le> clk (env_outb E v a w)"
    "clk w \<le> clk (snd (env_ioperm E i j k w))" "clk w \<le> clk (snd (env_open E p m w))"
    "clk w \<le> clk (env_close E d w)" "clk w \<le> clk (snd (env_ioctl E d r w))"
    "clk w \<le> clk (snd (env_getfl E d w))" "clk w \<le> clk (snd (env_setfl E d i w))"
    "clk w \<le> clk (snd (env_lseek E d i w))" "clk w \<le> clk (snd (env_read E d i w))"
    "clk w \<le> clk (snd (env_write E d b w))" "clk w \<le> clk (snd (env_select_read E d t w))"
    "clk w \<le> clk (snd (env_malloc E i w))" "clk w \<le> clk (snd (env_get_iomap E w))"
    "clk w \<le> clk (snd (env_set_iomap E m' w))"
  using assms by (simp_all add: clock_ok_def)

text \<open>
  \<open>works clk I m\<close>: from every state with the invariant \<open>I\<close>, the program \<open>m\<close> returns without
  a fault, in a state with \<open>I\<close>, and the clock has not gone back.
\<close>

definition works ::
  "('w \<Rightarrow> int) \<Rightarrow> ('w sys \<Rightarrow> bool) \<Rightarrow> ('a, 'w sys) prog \<Rightarrow> bool" where
  "works clk I m \<longleftrightarrow>
     (\<forall>s. I s \<longrightarrow> total m s (\<lambda>_ s'. I s' \<and> clk (world s) \<le> clk (world s')))"

named_theorems works_intro \<open>rules for works, one per program constructor or operation\<close>

lemma worksD:
  "works clk I m \<Longrightarrow> I s \<Longrightarrow> total m s (\<lambda>_ s'. I s' \<and> clk (world s) \<le> clk (world s'))"
  by (simp add: works_def)

lemma works_total:
  "works clk I m \<Longrightarrow> I s \<Longrightarrow> post m s Q \<Longrightarrow> total m s (\<lambda>a s'. I s' \<and> Q a s')"
  by (auto simp: works_def total_def post_def)

lemma works_ret [works_intro]: "works clk I (ret a)"
  by (simp add: works_def total_def ret_def)

lemma works_gets [works_intro]: "works clk I (gets f)"
  by (simp add: works_def total_def gets_def)

lemma works_upd [works_intro]:
  "(\<And>s. I s \<Longrightarrow> I (s\<lparr>prt := f (prt s)\<rparr>)) \<Longrightarrow> works clk I (upd f)"
  by (simp add: works_def total_def upd_def modify_def)

lemma works_bindp [works_intro]:
  assumes "works clk I m" and "\<And>a. works clk I (k a)"
  shows "works clk I (bindp m k)"
  unfolding works_def
proof (intro allI impI)
  fix s assume "I s"
  with assms(1) obtain a s1 where 1: "m s = Some (Ret a s1)" "I s1" "clk (world s) \<le> clk (world s1)"
    by (auto simp: works_def elim!: totalE)
  with assms(2) [of a] obtain b s2 where
      2: "k a s1 = Some (Ret b s2)" "I s2" "clk (world s1) \<le> clk (world s2)"
    by (auto simp: works_def elim!: totalE)
  from 1 2 show "total (bindp m k) s (\<lambda>_ s'. I s' \<and> clk (world s) \<le> clk (world s'))"
    by (simp add: total_def run_simps)
qed

lemma works_if [works_intro]:
  "(b \<Longrightarrow> works clk I m) \<Longrightarrow> (\<not> b \<Longrightarrow> works clk I n) \<Longrightarrow> works clk I (if b then m else n)"
  by simp

lemma works_stmts [works_intro]:
  "(\<And>m. m \<in> set ms \<Longrightarrow> works clk I m) \<Longrightarrow> works clk I (stmts ms)"
  by (induction ms) (auto intro: works_bindp works_ret)

lemma works_env_call:
  "stable I \<Longrightarrow> (\<And>w. clk w \<le> clk (snd (f w))) \<Longrightarrow> works clk I (env_call f ev)"
  by (auto simp: works_def total_def env_call_def stableD split: prod.split)
     (metis snd_conv)

lemma works_env_do:
  "stable I \<Longrightarrow> (\<And>w. clk w \<le> clk (f w)) \<Longrightarrow> works clk I (env_do f ev)"
  by (auto simp: works_def total_def env_do_def modify_def stableD)

lemma works_gettimeofday [works_intro]:
  assumes "clock_ok E clk" and "stable I"
  shows "works clk I (gettimeofday E)"
proof -
  have "clk w \<le> clk (snd (env_gettimeofday E w))" for w
    using clock_time_mono [OF assms(1), of w] by (cases "env_gettimeofday E w") simp
  then show ?thesis
    unfolding gettimeofday_def by (intro works_env_call assms(2))
qed

lemma sleep_advances:
  "clock_ok E clk \<Longrightarrow> clk w + delay_table d \<le> clk (env_sleep E (lookup_delay d) w)"
  using clock_sleep [of E clk "lookup_delay d" w] delay_table_pos [of d]
  by (simp add: usecs_lookup_delay)

lemma works_delay [works_intro]:
  assumes "clock_ok E clk" and "stable I"
  shows "works clk I (delay E d)"
  unfolding delay_def Let_def if_not_P [OF clock_build [OF assms(1)]]
proof (rule works_env_do [OF assms(2)])
  fix w show "clk w \<le> clk (env_sleep E (lookup_delay d) w)"
    using sleep_advances [OF assms(1), of w d] delay_table_pos [of d] by linarith
qed

subsection \<open>The loops return\<close>

definition normal_time :: "timeval \<Rightarrow> bool" where
  "normal_time t \<longleftrightarrow> 0 \<le> tv_usec t \<and> tv_usec t < 1000000"

lemma normal_deadline_after:
  assumes "0 \<le> tv_usec now" and "0 \<le> tv_usec timeout"
  shows "normal_time (deadline_after now timeout)"
  using assms by (simp add: normal_time_def deadline_after_def Let_def smod_mod_positive)

lemma clock_before:
  assumes "clock_ok E clk" and "env_gettimeofday E w = (t, w')" and "normal_time deadline"
  shows "tv_before t deadline \<longleftrightarrow> clk w < usecs deadline"
  using clock_time [OF assms(1,2)] assms(3) by (simp add: tv_before_usecs normal_time_def)

lemma poll_loop_works:
  assumes ok: "clock_ok E clk" and st: "stable I" and hit: "works clk I hit"
    and dl: "normal_time deadline" and I: "I s"
  shows "total (poll_loop E hit deadline) s (\<lambda>r s'. I s' \<and> clk (world s) \<le> clk (world s') \<and>
           (r = E1284_TIMEDOUT \<longrightarrow> usecs deadline \<le> clk (world s')))"
  using I
proof (induction "nat (usecs deadline - clk (world s))" arbitrary: s rule: less_induct)
  case less
  from worksD [OF hit less.prems] obtain b s1 where
    1: "hit s = Some (Ret b s1)" "I s1" "clk (world s) \<le> clk (world s1)" by (rule totalE) simp
  let ?s2 = "s1\<lparr>world := env_sleep E (lookup_delay IO_POLL_DELAY) (world s1),
               trace := trace s1 @ [Sleep (lookup_delay IO_POLL_DELAY)]\<rparr>"
  have 2: "delay E IO_POLL_DELAY s1 = Some (Ret () ?s2)"
    using clock_build [OF ok] by (simp add: delay_def Let_def run_simps)
  have c2: "clk (world s1) + 1 \<le> clk (world ?s2)"
    using sleep_advances [OF ok, of "world s1" IO_POLL_DELAY] by simp
  obtain t w where tw: "env_gettimeofday E (world ?s2) = (t, w)" by (cases "env_gettimeofday E (world ?s2)")
  let ?s3 = "?s2\<lparr>world := w, trace := trace ?s2 @ []\<rparr>"
  have 3: "gettimeofday E ?s2 = Some (Ret t ?s3)"
    using tw by (simp add: gettimeofday_def env_call_def)
  have c3: "clk (world ?s2) \<le> clk (world ?s3)"
    using clock_time_mono [OF ok tw] by simp
  have I3: "I ?s3" using 1(2) stableD [OF st] by simp
  have step: "poll_loop E hit deadline s =
      (if b then Some (Ret E1284_OK s1)
       else if clk (world ?s2) < usecs deadline then poll_loop E hit deadline ?s3
       else Some (Ret E1284_TIMEDOUT ?s3))"
    using clock_before [OF ok tw dl]
    by (subst poll_loop_unfold) (simp add: bindp_def 1(1) 2 3 [simplified] run_ret)
  show ?case
  proof (cases "\<not> b \<and> clk (world ?s2) < usecs deadline")
    case True
    with 1(3) c2 c3 have "nat (usecs deadline - clk (world ?s3)) < nat (usecs deadline - clk (world s))"
      by simp
    from less.hyps [OF this I3] True 1(3) c2 c3 show ?thesis
      unfolding total_def step by auto
  next
    case False
    with 1 c2 c3 I3 show ?thesis unfolding total_def step by auto
  qed
qed

lemma poll_until_works:
  assumes ok: "clock_ok E clk" and st: "stable I" and hit: "works clk I hit"
    and t: "0 \<le> tv_usec timeout" and I: "I s"
  shows "total (poll_until E hit timeout) s (\<lambda>r s'. I s' \<and> clk (world s) \<le> clk (world s') \<and>
           (r = E1284_TIMEDOUT \<longrightarrow> clk (world s) + usecs timeout \<le> clk (world s')))"
  unfolding poll_until_def gettimeofday_def if_not_P [OF clock_build [OF ok]]
proof (rule total_bindp, rule total_env_call)
  fix now w
  assume now: "env_gettimeofday E (world s) = (now, w)"
  let ?s1 = "s\<lparr>world := w, trace := trace s @ []\<rparr>"
  have "normal_time (deadline_after now timeout)"
    using clock_time(2) [OF ok now] t by (rule normal_deadline_after)
  moreover have "I ?s1" using I stableD [OF st] by simp
  ultimately show "total (poll_loop E hit (deadline_after now timeout)) ?s1
      (\<lambda>r s'. I s' \<and> clk (world s) \<le> clk (world s') \<and>
        (r = E1284_TIMEDOUT \<longrightarrow> clk (world s) + usecs timeout \<le> clk (world s')))"
    using clock_time(1) [OF ok now] clock_time_mono [OF ok now]
    by (intro total_weaken [OF poll_loop_works [OF ok st hit]])
       (auto simp: usecs_deadline_after)
qed

lemma works_poll_until [works_intro]:
  assumes "clock_ok E clk" and "stable I" and "works clk I hit" and "0 \<le> tv_usec timeout"
  shows "works clk I (poll_until E hit timeout)"
  unfolding works_def
  using poll_until_works [OF assms] by (auto intro: total_weaken)

lemma udelay_loop_works:
  assumes ok: "clock_ok E clk" and st: "stable I" and dl: "normal_time deadline" and I: "I s"
  shows "total (udelay_loop E deadline) s (\<lambda>_ s'. I s' \<and> clk (world s) \<le> clk (world s'))"
proof -
  from ok obtain stall where ticks: "clock_ticks E clk stall" by (auto simp: clock_ok_def)
  show ?thesis using I
  proof (induction "(nat (usecs deadline - clk (world s)), stall (world s))" arbitrary: s
      rule: wf_induct_rule [OF wf_lex_prod [OF wf_less wf_less]])
  case (1 s)
  obtain t w where tw: "env_gettimeofday E (world s) = (t, w)" by (cases "env_gettimeofday E (world s)")
  let ?s1 = "s\<lparr>world := w, trace := trace s @ []\<rparr>"
  have g: "gettimeofday E s = Some (Ret t ?s1)"
    using tw by (simp add: gettimeofday_def env_call_def)
  have step: "udelay_loop E deadline s =
      (if clk (world s) < usecs deadline then udelay_loop E deadline ?s1 else Some (Ret () ?s1))"
    using clock_before [OF ok tw dl]
    by (subst udelay_loop_unfold) (simp add: bindp_def g run_ret)
  have I1: "I ?s1" using 1(2) stableD [OF st] by simp
  show ?case
  proof (cases "clk (world s) < usecs deadline")
    case True
    with ticks tw
    have "((nat (usecs deadline - clk (world ?s1)), stall (world ?s1)),
        (nat (usecs deadline - clk (world s)), stall (world s))) \<in> {(x, y). x < y} <*lex*> {(x, y). x < y}"
      by (fastforce simp: clock_ticks_def)
    from 1(1) [OF this I1] True clock_time_mono [OF ok tw] show ?thesis
      unfolding total_def step by auto
  next
    case False
    with I1 clock_time_mono [OF ok tw] show ?thesis unfolding total_def step by auto
  qed
  qed
qed

lemma works_udelay [works_intro]:
  assumes ok: "clock_ok E clk" and st: "stable I" and u: "0 \<le> usec"
  shows "works clk I (udelay E usec)"
  unfolding works_def
proof (intro allI impI)
  fix s assume I: "I s"
  show "total (udelay E usec) s (\<lambda>_ s'. I s' \<and> clk (world s) \<le> clk (world s'))"
    unfolding udelay_def gettimeofday_def if_not_P [OF clock_build [OF ok]]
  proof (rule total_bindp, rule total_env_call)
    fix now w
    assume now: "env_gettimeofday E (world s) = (now, w)"
    let ?s1 = "s\<lparr>world := w, trace := trace s @ []\<rparr>"
    have "normal_time (deadline_after now \<lparr>tv_sec = 0, tv_usec = usec\<rparr>)"
      using clock_time(2) [OF ok now] u by (intro normal_deadline_after) simp_all
    moreover have "I ?s1" using I stableD [OF st] by simp
    ultimately show "total (udelay_loop E (deadline_after now \<lparr>tv_sec = 0, tv_usec = usec\<rparr>)) ?s1
        (\<lambda>_ s'. I s' \<and> clk (world s) \<le> clk (world s'))"
      using clock_time_mono [OF ok now]
      by (intro total_weaken [OF udelay_loop_works [OF ok st]]) auto
  qed
qed

end
