(* ===== verification/Io_Permission.thy ===== *)
theory Io_Permission
  imports Timing
begin

section \<open>Access to the I/O ports\<close>

text \<open>
  The instructions of \<^verbatim>\<open>src/io.h\<close> and the first part of \<^verbatim>\<open>src/access_io.c\<close>: how a process gets
  the right to use them on OpenBSD and NetBSD, where it edits the kernel's bitmap of I/O ports
  itself.  The kernel's bitmap is a list of 32-bit words, in which a set bit denies a port; a
  write outside the list is a fault.  The theorem about \<open>set_bitmap\<close>, which works on a first
  partial word, whole words and a last partial word, is that it changes the bits of the range
  and no others.
\<close>

subsection \<open>\<^verbatim>\<open>src/io.h\<close>\<close>

definition io_h_inb :: "'w env \<Rightarrow> u16 \<Rightarrow> (u8, 'w sys) prog" where
  "io_h_inb E port = env_call (env_inb E port) (\<lambda>b. [Inb port b])"

definition io_h_outb_p :: "'w env \<Rightarrow> u8 \<Rightarrow> u16 \<Rightarrow> (unit, 'w sys) prog" where
  "io_h_outb_p E val port =
     bindp (env_do (env_outb E val port) [Outb val port]) (\<lambda>_.
     env_do (env_outb E val 0x80) [Pause val])"

subsection \<open>The bitmap\<close>

definition put_word :: "(u32 \<Rightarrow> u32) \<Rightarrow> int \<Rightarrow> u32 list \<Rightarrow> u32 list option" where
  "put_word f i ws =
     (if 0 \<le> i \<and> i < int (length ws) then Some (ws[nat i := f (ws ! nat i)]) else None)"

definition mask_word :: "int \<Rightarrow> u32 \<Rightarrow> u32 \<Rightarrow> u32" where
  "mask_word new_value msk w = (if truth new_value then w OR msk else w AND NOT msk)"

text \<open>\<^verbatim>\<open>~0 << k\<close>\<close>

definition ones_from :: "int \<Rightarrow> u32" where
  "ones_from k = push_bit (nat k) (-1)"

text \<open>The loop over whole words: the next word is number \<open>i\<close>, \<open>len\<close> bits remain.\<close>

function fill_words :: "u32 \<Rightarrow> int \<Rightarrow> int \<Rightarrow> u32 list \<Rightarrow> (int \<times> int \<times> u32 list) option" where
  "fill_words msk i len ws =
     (if 32 \<le> len
      then (case put_word (\<lambda>_. msk) i ws of
              None \<Rightarrow> None
            | Some ws' \<Rightarrow> fill_words msk (i + 1) (len - 32) ws')
      else Some (i, len, ws))"
  by pat_completeness auto
termination
  by (relation "measure (\<lambda>(_, _, len, _). nat len)") auto

declare fill_words.simps [simp del]

text \<open>
  The first word, when the range does not start at its first bit.  The result is the next word,
  the number of bits that are left, which may be negative, and the bitmap.
\<close>

definition first_word ::
  "int \<Rightarrow> int \<Rightarrow> int \<Rightarrow> int \<Rightarrow> u32 list \<Rightarrow> (int \<times> int \<times> u32 list) option" where
  "first_word new_value i low_index len bitmap =
     (if low_index \<noteq> 0
      then (let msk = ones_from low_index;
                msk' = (if len < 32 then msk AND NOT (ones_from len) else msk)
            in map_option (\<lambda>ws. (i + 1, len - 32, ws)) (put_word (mask_word new_value msk') i bitmap))
      else Some (i, len, bitmap))"

definition set_bitmap :: "u32 list \<Rightarrow> int \<Rightarrow> int \<Rightarrow> int \<Rightarrow> u32 list option" where
  "set_bitmap bitmap start extent new_value =
     (let low_index = start mod 32 in
      case first_word new_value (start div 32) low_index (low_index + extent) bitmap of
        None \<Rightarrow> None
      | Some (i, len, ws) \<Rightarrow>
          (case fill_words (if truth new_value then -1 else 0) i len ws of
             None \<Rightarrow> None
           | Some (i, len, ws) \<Rightarrow>
               if 0 < len then put_word (mask_word new_value (NOT (ones_from len))) i ws
               else Some ws))"

subsection \<open>What the bitmap denies\<close>

definition denied :: "u32 list \<Rightarrow> nat \<Rightarrow> bool" where
  "denied ws p = bit (ws ! (p div 32)) (p mod 32)"

text \<open>\<open>ws'\<close> is \<open>ws\<close> with the bits from \<open>lo\<close> up to \<open>hi\<close> set to \<open>v\<close>.\<close>

definition range_set :: "u32 list \<Rightarrow> int \<Rightarrow> int \<Rightarrow> bool \<Rightarrow> u32 list \<Rightarrow> bool" where
  "range_set ws lo hi v ws' \<longleftrightarrow> length ws' = length ws \<and>
     (\<forall>p < 32 * length ws. denied ws' p = (if lo \<le> int p \<and> int p < hi then v else denied ws p))"

lemma range_set_refl: "hi \<le> lo \<Longrightarrow> range_set ws lo hi v ws"
  by (auto simp: range_set_def)

lemma range_set_trans:
  assumes "range_set ws lo mid v ws1" and "range_set ws1 mid hi v ws2" and "lo \<le> mid" and "mid \<le> hi"
  shows "range_set ws lo hi v ws2"
  using assms by (auto simp: range_set_def)

lemma put_word_range:
  assumes i: "0 \<le> i" "i < int (length ws)" and a: "0 \<le> a" and ab: "b \<le> 32"
    and f: "\<And>w n. n < 32 \<Longrightarrow> bit (f w) n = (if a \<le> int n \<and> int n < b then v else bit w n)"
  shows "\<exists>ws'. put_word f i ws = Some ws' \<and> range_set ws (32 * i + a) (32 * i + b) v ws'"
proof (intro exI conjI)
  show "put_word f i ws = Some (ws[nat i := f (ws ! nat i)])"
    using i by (simp add: put_word_def)
  have "denied (ws[nat i := f (ws ! nat i)]) p =
      (if 32 * i + a \<le> int p \<and> int p < 32 * i + b then v else denied ws p)"
    if p: "p < 32 * length ws" for p
  proof (cases "p div 32 = nat i")
    case True
    then have "int p = 32 * i + int (p mod 32)"
      using i(1) by (metis div_mult_mod_eq mult.commute nat_0_le of_nat_add of_nat_mult of_nat_numeral)
    moreover have "nat i < length ws" using i by linarith
    ultimately show ?thesis
      using True f [of "p mod 32" "ws ! nat i"] by (simp add: denied_def)
  next
    case False
    have "int p = 32 * int (p div 32) + int (p mod 32)"
      by (metis div_mult_mod_eq mult.commute of_nat_add of_nat_mult of_nat_numeral)
    moreover from False i(1) have "int (p div 32) \<noteq> i" by linarith
    moreover have "int (p mod 32) < 32" by simp
    ultimately have "\<not> (32 * i + a \<le> int p \<and> int p < 32 * i + b)"
      using ab a by (smt (verit) of_nat_0_le_iff)
    moreover have nochange: "denied (ws[nat i := f (ws ! nat i)]) p = denied ws p"
      using False by (simp add: denied_def nth_list_update)
    ultimately show ?thesis by metis
  qed
  then show "range_set ws (32 * i + a) (32 * i + b) v (ws[nat i := f (ws ! nat i)])"
    by (simp add: range_set_def)
qed

lemma bit_ones_from: "n < 32 \<Longrightarrow> 0 \<le> k \<Longrightarrow> bit (ones_from k) n = (k \<le> int n)"
  using bit_push_bit_iff [of "nat k" "-1 :: u32" n] by (auto simp: ones_from_def possible_bit_word)

lemma mask_word_bits:
  assumes "n < 32" and "\<And>n. n < 32 \<Longrightarrow> bit msk n = (a \<le> int n \<and> int n < b)"
  shows "bit (mask_word new msk w) n = (if a \<le> int n \<and> int n < b then truth new else bit w n)"
  using assms(2) [OF assms(1)] assms(1)
  by (auto simp: mask_word_def bit_or_iff bit_and_iff bit_not_iff possible_bit_word)

lemma fill_words_range:
  assumes "0 \<le> i" and "32 * i + len \<le> 32 * int (length ws)"
  shows "\<exists>i' len' ws'. fill_words (if v then -1 else 0) i len ws = Some (i', len', ws') \<and> len' < 32 \<and>
     0 \<le> i' \<and> 32 * i' + len' = 32 * i + len \<and> i \<le> i' \<and> (0 \<le> len \<longrightarrow> 0 \<le> len') \<and>
     range_set ws (32 * i) (32 * i') v ws'"
  using assms
proof (induction "nat len" arbitrary: i len ws rule: less_induct)
  case less
  show ?case
  proof (cases "32 \<le> len")
    case True
    have "\<exists>ws1. put_word (\<lambda>_. if v then -1 else 0) i ws = Some ws1 \<and>
        range_set ws (32 * i + 0) (32 * i + 32) v ws1"
      using less.prems True by (intro put_word_range) auto
    then obtain ws1 where ws1: "put_word (\<lambda>_. if v then -1 else 0) i ws = Some ws1"
      "range_set ws (32 * i) (32 * (i + 1)) v ws1" by (auto simp: algebra_simps)
    then have l1: "length ws1 = length ws" by (simp add: range_set_def)
    from less.hyps [of "len - 32" "i + 1" ws1] less.prems True l1
    obtain i' len' ws' where "fill_words (if v then -1 else 0) (i + 1) (len - 32) ws1 = Some (i', len', ws')"
      "len' < 32" "0 \<le> i'" "32 * i' + len' = 32 * i + len" "i + 1 \<le> i'" "0 \<le> len'"
      "range_set ws1 (32 * (i + 1)) (32 * i') v ws'"
      by auto
    moreover from this have "range_set ws (32 * i) (32 * i') v ws'"
      by (intro range_set_trans [OF ws1(2)]) simp_all
    ultimately show ?thesis
      using True ws1(1) by (subst fill_words.simps) simp
  next
    case False
    then show ?thesis
      using less.prems by (subst fill_words.simps) (auto simp: range_set_refl)
  qed
qed

text \<open>The specification of \<open>set_bitmap\<close>: it stays inside the bitmap and sets the range.\<close>

lemma set_bitmap_range:
  assumes "0 \<le> start" and "0 \<le> extent" and "start + extent \<le> 32 * int (length ws)"
  shows "\<exists>ws'. set_bitmap ws start extent new = Some ws' \<and>
           range_set ws start (start + extent) (truth new) ws'"
proof -
  define i low where "i = start div 32" and "low = start mod 32"
  have start: "start = 32 * i + low" "0 \<le> low" "low < 32" "0 \<le> i"
    using assms(1) by (simp_all add: i_def low_def)
  let ?v = "truth new" and ?len = "low + extent"
  let ?first = "first_word new i low ?len ws"
  have "\<exists>i1 len1 ws1. ?first = Some (i1, len1, ws1) \<and> 0 \<le> i1 \<and> 32 * i1 + len1 = start + extent \<and>
      range_set ws start (if len1 < 0 then start + extent else 32 * i1) ?v ws1 \<and>
      (0 \<le> len1 \<longrightarrow> start \<le> 32 * i1)"
  proof (cases "low = 0")
    case True
    with start show ?thesis by (auto simp: first_word_def intro: range_set_refl)
  next
    case False
    define msk :: u32 where "msk = (if ?len < 32
        then ones_from low AND NOT (ones_from ?len) else ones_from low)"
    have bits: "bit msk n = (low \<le> int n \<and> int n < min ?len 32)" if "n < 32" for n
      using that start(2) assms(2)
      by (auto simp: msk_def bit_and_iff bit_not_iff bit_ones_from possible_bit_word)
    have "\<exists>ws1. put_word (mask_word new msk) i ws = Some ws1 \<and>
        range_set ws (32 * i + low) (32 * i + min ?len 32) ?v ws1"
    proof (rule put_word_range)
      show "i < int (length ws)" using False start assms by linarith
      show "bit (mask_word new msk w) n =
          (if low \<le> int n \<and> int n < min ?len 32 then ?v else bit w n)" if "n < 32" for w n
        by (rule mask_word_bits [OF that bits])
    qed (use start in auto)
    then obtain ws1 where "put_word (mask_word new msk) i ws = Some ws1"
      "range_set ws (32 * i + low) (32 * i + min ?len 32) ?v ws1" by blast
    then have w: "put_word (mask_word new (if ?len < 32 then ones_from low AND NOT (ones_from ?len)
        else ones_from low)) i ws = Some ws1" and
      r: "range_set ws start (if ?len < 32 then start + extent else 32 * (i + 1)) ?v ws1"
      using start by (simp_all add: msk_def algebra_simps min_def split: if_splits)
    have "?first = Some (i + 1, ?len - 32, ws1)"
      using False w by (simp add: first_word_def Let_def)
    moreover have "32 * (i + 1) + (?len - 32) = start + extent" "0 \<le> ?len - 32 \<longrightarrow> start \<le> 32 * (i + 1)"
      using start by simp_all
    ultimately show ?thesis
      using start r by (intro exI [of _ "i + 1"] exI [of _ "?len - 32"] exI [of _ ws1]) simp
  qed
  then obtain i1 len1 ws1 where first: "?first = Some (i1, len1, ws1)" "0 \<le> i1"
    "32 * i1 + len1 = start + extent"
    "range_set ws start (if len1 < 0 then start + extent else 32 * i1) ?v ws1"
    "0 \<le> len1 \<longrightarrow> start \<le> 32 * i1" by blast
  have l1: "length ws1 = length ws" using first(4) by (simp add: range_set_def)
  from fill_words_range [of i1 len1 ws1 ?v] first assms(3) l1
  obtain i2 len2 ws2 where fill: "fill_words (if ?v then -1 else 0) i1 len1 ws1 = Some (i2, len2, ws2)"
    "len2 < 32" "0 \<le> i2" "32 * i2 + len2 = start + extent" "i1 \<le> i2" "0 \<le> len1 \<longrightarrow> 0 \<le> len2"
    "range_set ws1 (32 * i1) (32 * i2) ?v ws2" by auto
  have l2: "length ws2 = length ws" using fill(7) l1 by (simp add: range_set_def)
  have set: "set_bitmap ws start extent new =
      (if 0 < len2 then put_word (mask_word new (NOT (ones_from len2))) i2 ws2 else Some ws2)"
    using first(1) fill(1) by (simp add: set_bitmap_def Let_def i_def low_def)
  show ?thesis
  proof (cases "len1 < 0")
    case True
    then have "fill_words (if ?v then -1 else 0) i1 len1 ws1 = Some (i1, len1, ws1)"
      by (subst fill_words.simps) simp
    with True fill(1) first(4) set show ?thesis by simp
  next
    case False
    with first(4,5) fill(5,7) have r2: "range_set ws start (32 * i2) ?v ws2" "start \<le> 32 * i2"
      using range_set_trans [of ws start "32 * i1" ?v ws1 "32 * i2" ws2] by auto
    show ?thesis
    proof (cases "0 < len2")
      case True
      have bits: "bit (NOT (ones_from len2) :: u32) n = (0 \<le> int n \<and> int n < len2)"
        if "n < 32" for n
        using that True by (auto simp: bit_not_iff bit_ones_from possible_bit_word)
      have "\<exists>ws3. put_word (mask_word new (NOT (ones_from len2))) i2 ws2 = Some ws3 \<and>
          range_set ws2 (32 * i2 + 0) (32 * i2 + len2) ?v ws3"
      proof (rule put_word_range)
        show "i2 < int (length ws2)" using True fill(4) assms(3) l2 by linarith
        show "bit (mask_word new (NOT (ones_from len2)) w) n =
            (if 0 \<le> int n \<and> int n < len2 then ?v else bit w n)" if "n < 32" for w n
          by (rule mask_word_bits [OF that bits])
      qed (use fill in auto)
      then show ?thesis
        using r2 True fill(4) range_set_trans [OF r2(1)] set by auto
    next
      case False
      with fill(4,6) \<open>\<not> len1 < 0\<close> r2 set show ?thesis by auto
    qed
  qed
qed

subsection \<open>The system calls\<close>

definition get_iomap :: "'w env \<Rightarrow> (int \<times> u32 list, 'w sys) prog" where
  "get_iomap E = env_call (env_get_iomap E) (\<lambda>(r, _). [Get_iomap r])"

definition set_iomap :: "'w env \<Rightarrow> u32 list \<Rightarrow> (int, 'w sys) prog" where
  "set_iomap E m = env_call (env_set_iomap E m) (\<lambda>r. [Set_iomap m r])"

text \<open>A write to the bitmap through a pointer that may have left it.\<close>

definition in_bitmap :: "u32 list option \<Rightarrow> (u32 list, 'w sys) prog" where
  "in_bitmap m = (case m of None \<Rightarrow> fail Out_of_bounds | Some ws \<Rightarrow> ret ws)"

text \<open>On NetBSD the results of the two system calls are ignored.\<close>

definition netbsd_ioport :: "'w env \<Rightarrow> int \<Rightarrow> (unit, 'w sys) prog" where
  "netbsd_ioport E port =
     bindp (get_iomap E) (\<lambda>(_, iomap).
     bindp (in_bitmap (put_word (\<lambda>w. w AND NOT (push_bit (nat (port mod 32)) 1)) (port div 32) iomap))
       (\<lambda>iomap'. bindp (set_iomap E iomap') (\<lambda>_. ret ())))"

text \<open>On OpenBSD the bitmap is edited in a buffer of 1024 bits; ports are passed as \<^verbatim>\<open>short\<close>.\<close>

definition openbsd_ioports :: "'w env \<Rightarrow> 64 word \<Rightarrow> (int, 'w sys) prog" where
  "openbsd_ioports E port =
     bindp (env_call (env_malloc E 128) (\<lambda>_. [])) (\<lambda>m.
     if \<not> m then ret E1284_NOMEM
     else bindp (get_iomap E) (\<lambda>(r, iomap).
     if truth r then ret E1284_INIT
     else
     bindp (in_bitmap (set_bitmap iomap (sint (ucast port :: u16)) 3 0)) (\<lambda>iomap1.
     bindp (in_bitmap (set_bitmap iomap1 0x80 1 0)) (\<lambda>iomap2.
     bindp (set_iomap E iomap2) (\<lambda>r.
     if truth r then ret E1284_INIT else ret E1284_OK)))))"

lemma keeps_iomap [keeps_intro]:
  assumes "stable v"
  shows "keeps v (get_iomap E)" "keeps v (set_iomap E m)" "keeps v (in_bitmap b)"
    "keeps v (netbsd_ioport E p)" "keeps v (openbsd_ioports E q)"
proof -
  show i: "keeps v (get_iomap E)" "keeps v (set_iomap E m)" "keeps v (in_bitmap b)" for m b
    unfolding get_iomap_def set_iomap_def in_bitmap_def
    by (intro keeps_env_call assms) (intro keeps_env_call assms,
        auto split: option.split intro: keeps_ret keeps_fail)
  show "keeps v (netbsd_ioport E p)" "keeps v (openbsd_ioports E q)"
    unfolding netbsd_ioport_def openbsd_ioports_def case_prod_beta
    by (intro keeps_bindp keeps_if keeps_ret keeps_env_call assms i)+
qed

text \<open>
  On OpenBSD a successful call has asked the kernel for the old bitmap without the three ports
  of the adapter and the port of the pauses.
\<close>

definition iomap_ok :: "'w env \<Rightarrow> bool" where
  "iomap_ok E \<longleftrightarrow> (\<forall>w. length (snd (fst (env_get_iomap E w))) = 32)"

definition grants :: "u32 list \<Rightarrow> nat \<Rightarrow> u32 list \<Rightarrow> bool" where
  "grants ws port ws' \<longleftrightarrow> length ws' = 32 \<and>
     (\<forall>p < 1024. denied ws' p = (denied ws p \<and> p \<notin> {port, port + 1, port + 2, 0x80}))"

lemma bitmaps_grant:
  assumes "length ws = 32" and "port + 3 \<le> 1024"
  shows "\<exists>ws1 ws2. set_bitmap ws (int port) 3 0 = Some ws1 \<and> set_bitmap ws1 0x80 1 0 = Some ws2 \<and>
     grants ws port ws2"
proof -
  have f: "truth 0 = False" by (simp add: truth_def)
  from set_bitmap_range [where start = "int port" and extent = 3 and ws = ws and new = 0] assms obtain ws1 where
    1: "set_bitmap ws (int port) 3 0 = Some ws1" "range_set ws (int port) (int port + 3) False ws1"
    unfolding f by auto
  then have "length ws1 = 32" using assms(1) by (simp add: range_set_def)
  with set_bitmap_range [where start = 128 and extent = 1 and ws = ws1 and new = 0] obtain ws2 where
    2: "set_bitmap ws1 0x80 1 0 = Some ws2" "range_set ws1 0x80 (0x80 + 1) False ws2"
    unfolding f by auto
  have "denied ws2 p = (denied ws p \<and> p \<notin> {port, port + 1, port + 2, 0x80})" if "p < 1024" for p
  proof -
    have "denied ws1 p = (\<not> (int port \<le> int p \<and> int p < int port + 3) \<and> denied ws p)"
      using 1(2) that assms(1) by (simp add: range_set_def)
    moreover have "denied ws2 p = (\<not> (128 \<le> int p \<and> int p < 128 + 1) \<and> denied ws1 p)"
      using 2(2) that \<open>length ws1 = 32\<close> by (simp add: range_set_def)
    moreover have "int port \<le> int p \<and> int p < int port + 3 \<longleftrightarrow> p = port \<or> p = port + 1 \<or> p = port + 2"
      "128 \<le> int p \<and> int p < 128 + 1 \<longleftrightarrow> p = 128" by linarith+
    ultimately show ?thesis by blast
  qed
  then have "grants ws port ws2"
    using 2(2) \<open>length ws1 = 32\<close> unfolding grants_def range_set_def by simp
  with 1(1) 2(1) show ?thesis by blast
qed

lemma small_port_signed:
  assumes "unat (port :: 64 word) + 3 \<le> 1024"
  shows "sint (ucast port :: u16) = int (unat port)"
proof -
  have small: "uint port < 1024" unfolding uint_nat using assms by linarith
  then have "uint (ucast port :: u16) = uint port"
    unfolding unsigned_ucast_eq by (intro take_bit_int_eq_self) simp_all
  then have "sint (ucast port :: u16) = signed_take_bit 15 (uint port)"
    by (simp add: sint_uint)
  also have "\<dots> = uint port"
    by (rule signed_take_bit_int_eq_self) (rule order_trans [OF _ uint_ge_0], simp, use small in simp)
  finally show ?thesis by (simp only: uint_nat)
qed

lemma openbsd_ioports_total:
  assumes ok: "iomap_ok E" and port: "unat port + 3 \<le> 1024"
  shows "total (openbsd_ioports E port) s (\<lambda>r s'. prt s' = prt s \<and>
     (r = E1284_OK \<longrightarrow> (\<exists>w ws. grants (snd (fst (env_get_iomap E w))) (unat port) ws \<and>
        trace s' = trace s @ [Get_iomap 0, Set_iomap ws 0])))"
proof -
  have map: "\<exists>ws1 ws2. set_bitmap iomap (sint (ucast port :: u16)) 3 0 = Some ws1 \<and>
      set_bitmap ws1 0x80 1 0 = Some ws2 \<and> grants iomap (unat port) ws2"
    if "env_get_iomap E w = ((r, iomap), w')" for w r iomap w'
  proof -
    from ok that have "length iomap = 32" unfolding iomap_ok_def by (metis fst_conv snd_conv)
    then show ?thesis
      unfolding small_port_signed [OF port] using port by (intro bitmaps_grant) simp_all
  qed
  obtain m w1 where m: "env_malloc E 128 (world s) = (m, w1)" by fastforce
  obtain r iomap w2 where g: "env_get_iomap E w1 = ((r, iomap), w2)" by (metis prod.exhaust_sel)
  from map [OF g] obtain ws1 ws2 where
    *: "set_bitmap iomap (sint (ucast port :: u16)) 3 0 = Some ws1"
    "set_bitmap ws1 0x80 1 0 = Some ws2" "grants iomap (unat port) ws2" by blast
  obtain r' w3 where t: "env_set_iomap E ws2 w2 = (r', w3)" by fastforce
  have "grants (snd (fst (env_get_iomap E w1))) (unat port) ws2" using * g by simp
  then have granted: "\<exists>w. grants (snd (fst (env_get_iomap E w))) (unat port) ws2" by blast
  have run: "openbsd_ioports E port s = (
      if \<not> m then Some (Ret E1284_NOMEM (s\<lparr>world := w1, trace := trace s @ []\<rparr>))
      else if truth r then Some (Ret E1284_INIT (s\<lparr>world := w2, trace := trace s @ [Get_iomap r]\<rparr>))
      else Some (Ret (if truth r' then E1284_INIT else E1284_OK)
        (s\<lparr>world := w3, trace := trace s @ [Get_iomap r, Set_iomap ws2 r']\<rparr>)))"
    using m g * t
    by (simp add: openbsd_ioports_def get_iomap_def set_iomap_def in_bitmap_def
        bindp_def env_call_def ret_def)
  show ?thesis
    unfolding total_def run using granted by (simp add: truth_def)
qed

end
