(* ===== verification/Access_Io.thy ===== *)
theory Access_Io
  imports Io_Permission
begin

section \<open>Direct I/O: \<^verbatim>\<open>src/access_io.c\<close>\<close>

text \<open>
  The access methods that reach the PC-style registers at \<open>base\<close> (data), \<open>base + 1\<close>
  (status) and \<open>base + 2\<close> (control), either with the \<^verbatim>\<open>in\<close> and \<^verbatim>\<open>out\<close> instructions (on Solaris
  through a driver), or by seeking in \<^verbatim>\<open>/dev/port\<close>.  How the process gets the right to do so depends
  on the build; the processor is an x86.  The condition that decides whether the instructions are
  compiled at all tests \<^verbatim>\<open>HAVE_NBSD_i386\<close>, where \<^verbatim>\<open>configure.in\<close> defines \<^verbatim>\<open>HAVE_NBSD_I386\<close>.  The control register cannot be read back reliably, so the
  code keeps a copy of it in \<open>ctr\<close>; the theorems say that the copy implements the four
  logical control lines and the data direction, and that it agrees with the last value
  written to the hardware.
\<close>

subsection \<open>Reaching the registers\<close>

text \<open>Is the guard around the \<^verbatim>\<open>inb\<close> and \<^verbatim>\<open>outb\<close> of \<open>raw_inb\<close> and \<open>raw_outb\<close> true?\<close>

fun in_out_build :: "build \<Rightarrow> bool" where
  "in_out_build Linux = True"
| "in_out_build Cygwin = True"
| "in_out_build MinGW = True"
| "in_out_build OpenBSD = True"
| "in_out_build FreeBSD = True"
| "in_out_build Linux_No_Io = False"
| "in_out_build NetBSD = False"
| "in_out_build Solaris = False"

definition iop_ioctl :: "'w env \<Rightarrow> ioctl \<Rightarrow> (ioctl_reply, 'w sys) prog" where
  "iop_ioctl E req =
     bindp (gets (\<lambda>s. fd (prt s))) (\<lambda>d.
     env_call (env_ioctl E d req) (\<lambda>r. [Ioctl d req (reply_ret r)]))"

definition raw_inb :: "'w env \<Rightarrow> 64 word \<Rightarrow> (u8, 'w sys) prog" where
  "raw_inb E addr =
     (if in_out_build (env_build E) then io_h_inb E (ucast addr)
      else if env_build E = Solaris
      then bindp (iop_ioctl E (IOPREAD (ucast addr))) (\<lambda>r. ret (uchar (reply_int r)))
      else ret (uchar E1284_SYS))"

text \<open>The \<^verbatim>\<open>outb_p\<close> of a Linux system is in its C library, the others have that of \<^verbatim>\<open>io.h\<close>.\<close>

definition raw_outb :: "'w env \<Rightarrow> u8 \<Rightarrow> 64 word \<Rightarrow> (unit, 'w sys) prog" where
  "raw_outb E val addr =
     (if in_out_build (env_build E)
      then (if env_build E = Linux
            then env_do (env_outb E val (ucast addr)) [Outb val (ucast addr)]
            else io_h_outb_p E val (ucast addr))
      else if env_build E = Solaris
      then bindp (iop_ioctl E (IOPWRITE (ucast addr) val)) (\<lambda>_. ret ())
      else ret ())"

definition lseek :: "'w env \<Rightarrow> int \<Rightarrow> int \<Rightarrow> (int, 'w sys) prog" where
  "lseek E d off = env_call (env_lseek E d off) (\<lambda>r. [Lseek d off r])"

definition port_inb :: "'w env \<Rightarrow> 64 word \<Rightarrow> (u8, 'w sys) prog" where
  "port_inb E addr =
     bindp (gets (\<lambda>s. fd (prt s))) (\<lambda>d.
     bindp (lseek E d (uint addr)) (\<lambda>r.
     if r \<noteq> -1
     then bindp (env_call (env_read E d 1) (\<lambda>(n, _). [Read d 1 n])) (\<lambda>(n, bytes).
          ret (if n \<le> 0 \<or> bytes = [] then 0xff else hd bytes))
     else ret 0xff))"

definition port_outb :: "'w env \<Rightarrow> u8 \<Rightarrow> 64 word \<Rightarrow> (unit, 'w sys) prog" where
  "port_outb E val addr =
     bindp (gets (\<lambda>s. fd (prt s))) (\<lambda>d.
     bindp (lseek E d (uint addr)) (\<lambda>r.
     if r \<noteq> -1
     then bindp (env_call (env_write E d [val]) (\<lambda>n. [Write d [val] n])) (\<lambda>_. ret ())
     else ret ()))"

text \<open>A slot of the port's method table.\<close>

definition slot :: "(parport_access_methods \<Rightarrow> 'f option) \<Rightarrow> ('f option, 'w sys) prog" where
  "slot sel = gets (\<lambda>s. sel (fn (prt s)))"

fun run_do_inb :: "'w env \<Rightarrow> 64 word \<Rightarrow> do_inb_fn \<Rightarrow> (u8, 'w sys) prog" where
  "run_do_inb E addr Io_raw_inb = raw_inb E addr"
| "run_do_inb E addr Io_port_inb = port_inb E addr"

fun run_do_outb :: "'w env \<Rightarrow> u8 \<Rightarrow> 64 word \<Rightarrow> do_outb_fn \<Rightarrow> (unit, 'w sys) prog" where
  "run_do_outb E val addr Io_raw_outb = raw_outb E val addr"
| "run_do_outb E val addr Io_port_outb = port_outb E val addr"

definition do_inb :: "'w env \<Rightarrow> 64 word \<Rightarrow> (u8, 'w sys) prog" where
  "do_inb E addr = bindp (slot m_do_inb) (\<lambda>f. call f (run_do_inb E addr))"

definition do_outb :: "'w env \<Rightarrow> u8 \<Rightarrow> 64 word \<Rightarrow> (unit, 'w sys) prog" where
  "do_outb E val addr = bindp (slot m_do_outb) (\<lambda>f. call f (run_do_outb E val addr))"

subsection \<open>The methods\<close>

definition io_open :: "'w env \<Rightarrow> string \<Rightarrow> open_flags \<Rightarrow> (int, 'w sys) prog" where
  "io_open E path flags = env_call (env_open E path flags) (\<lambda>r. [Open path r])"

definition ioperm :: "'w env \<Rightarrow> int \<Rightarrow> int \<Rightarrow> int \<Rightarrow> (int, 'w sys) prog" where
  "ioperm E from num on = env_call (env_ioperm E from num on) (\<lambda>r. [Ioperm from num on r])"

text \<open>
  A pointer argument for capabilities is null or points to an \<open>int\<close>; the model takes and
  returns the pointed-to value.
\<close>

definition or_caps :: "int option \<Rightarrow> int \<Rightarrow> int option" where
  "or_caps caps c = map_option (\<lambda>x. x OR c) caps"

text \<open>
  The case \<^verbatim>\<open>IO_CAPABLE\<close> of the initialisation, one branch per build: the result is \<open>E1284_OK\<close> if
  the process may now use the ports.
\<close>

definition io_permission :: "'w env \<Rightarrow> (int, 'w sys) prog" where
  "io_permission E =
     bindp (gets (\<lambda>s. base (prt s))) (\<lambda>a. case env_build E of
       Linux \<Rightarrow>
         bindp (ioperm E (uint a) 3 1) (\<lambda>r1.
         if r1 \<noteq> 0 then ret E1284_INIT
         else bindp (ioperm E 0x80 1 1) (\<lambda>r2. if r2 \<noteq> 0 then ret E1284_INIT else ret E1284_OK))
     | Linux_No_Io \<Rightarrow> ret E1284_SYS
     | FreeBSD \<Rightarrow>
         bindp (io_open E ''/dev/io'' O_RDONLY) (\<lambda>d.
         bindp (upd (\<lambda>p. p\<lparr>fd := d\<rparr>)) (\<lambda>_. if d < 0 then ret E1284_INIT else ret E1284_OK))
     | OpenBSD \<Rightarrow> openbsd_ioports E a
     | NetBSD \<Rightarrow>
         bindp (netbsd_ioport E (sint (ucast a :: u32))) (\<lambda>_.
         bindp (netbsd_ioport E (sint (ucast (a + 1) :: u32))) (\<lambda>_.
         bindp (netbsd_ioport E (sint (ucast (a + 2) :: u32))) (\<lambda>_. ret E1284_OK)))
     | Solaris \<Rightarrow>
         bindp (io_open E ''/devices/pseudo/iop@0:iop'' O_RDWR) (\<lambda>d.
         bindp (upd (\<lambda>p. p\<lparr>fd := d\<rparr>)) (\<lambda>_.
         if d < 0 then ret E1284_INIT
         else bindp (iop_ioctl E (IOPREAD 0x80)) (\<lambda>r.
              if reply_ret r \<noteq> 0 then ret E1284_INIT else ret E1284_OK)))
     | _ \<Rightarrow> ret E1284_OK)"

definition io_init :: "'w env \<Rightarrow> int \<Rightarrow> int option \<Rightarrow> (int \<times> int option, 'w sys) prog" where
  "io_init E flags caps =
     (if flags \<noteq> 0 then ret (E1284_NOTAVAIL, caps)
      else bindp (gets (\<lambda>s. ptype (prt s))) (\<lambda>typ.
        if typ = IO_CAPABLE then
          bindp (io_permission E) (\<lambda>r.
          if r \<noteq> E1284_OK then ret (r, caps) else ret (E1284_OK, or_caps caps CAP1284_RAW))
        else if typ = DEV_PORT_CAPABLE then
          bindp (io_open E ''/dev/port'' O_RDWR_NOCTTY) (\<lambda>d.
          bindp (upd (\<lambda>p. p\<lparr>fd := d\<rparr>)) (\<lambda>_.
          if d < 0 then ret (E1284_INIT, caps)
          else bindp (upd (\<lambda>p. p\<lparr>fn := (fn p)\<lparr>m_do_inb := Some Io_port_inb,
                                            m_do_outb := Some Io_port_outb\<rparr>\<rparr>)) (\<lambda>_.
               ret (E1284_OK, or_caps caps CAP1284_RAW))))
        else ret (E1284_OK, or_caps caps CAP1284_RAW)))"

text \<open>On FreeBSD and Solaris a second condition closes the descriptor, whatever the first did.\<close>

definition io_cleanup :: "'w env \<Rightarrow> (unit, 'w sys) prog" where
  "io_cleanup E =
     bindp (gets prt) (\<lambda>p.
     bindp (if ptype p \<noteq> IO_CAPABLE \<and> 0 \<le> fd p
            then env_do (env_close E (fd p)) [Close (fd p)] else ret ()) (\<lambda>_.
     if (env_build E = FreeBSD \<or> env_build E = Solaris) \<and> 0 \<le> fd p
     then env_do (env_close E (fd p)) [Close (fd p)] else ret ()))"

definition io_read_data :: "'w env \<Rightarrow> (int, 'w sys) prog" where
  "io_read_data E =
     bindp (gets (\<lambda>s. base (prt s))) (\<lambda>a. bindp (do_inb E a) (\<lambda>b. ret (uint b)))"

definition io_write_data :: "'w env \<Rightarrow> u8 \<Rightarrow> (unit, 'w sys) prog" where
  "io_write_data E reg = bindp (gets (\<lambda>s. base (prt s))) (\<lambda>a. do_outb E reg a)"

definition io_read_status :: "'w env \<Rightarrow> (int, 'w sys) prog" where
  "io_read_status E =
     bindp (gets (\<lambda>s. base (prt s))) (\<lambda>a.
     bindp (do_inb E (a + 1)) (\<lambda>b. ret (uint (b XOR S1284_INVERTED))))"

definition io_raw_frob_control :: "'w env \<Rightarrow> u8 \<Rightarrow> u8 \<Rightarrow> (unit, 'w sys) prog" where
  "io_raw_frob_control E msk val =
     bindp (gets prt) (\<lambda>p.
     let val' = val XOR (msk AND C1284_INVERTED);
         c = frob (ctr p) msk val'
     in bindp (do_outb E c (base p + 2)) (\<lambda>_. upd (\<lambda>p. p\<lparr>ctr := c\<rparr>)))"

definition io_read_control :: "(int, 'w sys) prog" where
  "io_read_control = gets (\<lambda>s. uint ((ctr (prt s) XOR C1284_INVERTED) AND control_lines))"

definition io_data_dir :: "'w env \<Rightarrow> int \<Rightarrow> (int, 'w sys) prog" where
  "io_data_dir E reverse =
     bindp (io_raw_frob_control E 0x20 (if truth reverse then 0x20 else 0x00)) (\<lambda>_. ret E1284_OK)"

definition io_write_control :: "'w env \<Rightarrow> u8 \<Rightarrow> (unit, 'w sys) prog" where
  "io_write_control E reg =
     bindp (if reg AND 0x20 \<noteq> 0 then io_data_dir E 1 else ret E1284_OK) (\<lambda>_.
     io_raw_frob_control E control_lines (reg AND control_lines))"

definition io_frob_control :: "'w env \<Rightarrow> u8 \<Rightarrow> u8 \<Rightarrow> (unit, 'w sys) prog" where
  "io_frob_control E msk val =
     bindp (if msk AND 0x20 \<noteq> 0 then io_data_dir E (uint (val AND 0x20)) else ret E1284_OK) (\<lambda>_.
     io_raw_frob_control E (msk AND control_lines) (val AND control_lines))"

definition io_wait_status :: "'w env \<Rightarrow> u8 \<Rightarrow> u8 \<Rightarrow> timeval \<Rightarrow> (int, 'w sys) prog" where
  "io_wait_status E msk val timeout =
     poll_until E (bindp (io_read_status E) (\<lambda>st. ret (uchar st AND msk = val))) timeout"

definition io_access_methods :: parport_access_methods where
  "io_access_methods = \<lparr>
     m_init = Some Io_init, m_cleanup = Some Io_cleanup, m_claim = None, m_release = None,
     m_do_inb = Some Io_raw_inb, m_do_outb = Some Io_raw_outb,
     m_get_irq_fd = None, m_clear_irq = None,
     m_read_data = Some Io_read_data, m_write_data = Some Io_write_data,
     m_wait_data = Some Default_wait_data, m_data_dir = Some Io_data_dir,
     m_read_status = Some Io_read_status, m_wait_status = Some Io_wait_status,
     m_read_control = Some Io_read_control, m_write_control = Some Io_write_control,
     m_frob_control = Some Io_frob_control,
     m_do_nack_handshake = Some Default_do_nack_handshake,
     m_negotiate = Some Default_negotiate, m_terminate = Some Default_terminate,
     m_ecp_fwd_to_rev = Some Default_ecp_fwd_to_rev,
     m_ecp_rev_to_fwd = Some Default_ecp_rev_to_fwd,
     m_nibble_read = Some Default_nibble_read, m_compat_write = Some Default_compat_write,
     m_byte_read = Some Default_byte_read,
     m_epp_read_data = Some Default_epp_read_data,
     m_epp_write_data = Some Default_epp_write_data,
     m_epp_read_addr = Some Default_epp_read_addr,
     m_epp_write_addr = Some Default_epp_write_addr,
     m_ecp_read_data = Some Default_ecp_read_data,
     m_ecp_write_data = Some Default_ecp_write_data,
     m_ecp_read_addr = Some Default_ecp_read_addr,
     m_ecp_write_addr = Some Default_ecp_write_addr,
     m_set_timeout = Some Default_set_timeout \<rparr>"

subsection \<open>Frames\<close>

lemma keeps_io_open [keeps_intro]:
  "stable v \<Longrightarrow> keeps v (io_open E f m)" "stable v \<Longrightarrow> keeps v (ioperm E i j k)"
  by (auto simp: io_open_def ioperm_def intro!: keeps_intro)

lemma keeps_slot [keeps_intro]: "keeps v (slot sel)"
  by (auto simp: slot_def intro!: keeps_intro)

lemma keeps_iop_ioctl [keeps_intro]: "stable v \<Longrightarrow> keeps v (iop_ioctl E req)"
  by (auto simp: iop_ioctl_def intro!: keeps_intro)

lemma keeps_run_do_inb [keeps_intro]: "stable v \<Longrightarrow> keeps v (run_do_inb E addr f)"
  by (cases f) (auto simp: raw_inb_def io_h_inb_def port_inb_def lseek_def intro!: keeps_intro)

lemma keeps_run_do_outb [keeps_intro]: "stable v \<Longrightarrow> keeps v (run_do_outb E val addr f)"
  by (cases f) (auto simp: raw_outb_def io_h_outb_p_def port_outb_def lseek_def intro!: keeps_intro)

lemma keeps_do_inb [keeps_intro]: "stable v \<Longrightarrow> keeps v (do_inb E addr)"
  by (auto simp: do_inb_def intro!: keeps_intro)

lemma keeps_do_outb [keeps_intro]: "stable v \<Longrightarrow> keeps v (do_outb E val addr)"
  by (auto simp: do_outb_def intro!: keeps_intro)

lemma keeps_io_read_data [keeps_intro]: "stable v \<Longrightarrow> keeps v (io_read_data E)"
  by (auto simp: io_read_data_def intro!: keeps_intro)

lemma keeps_io_write_data [keeps_intro]: "stable v \<Longrightarrow> keeps v (io_write_data E b)"
  by (auto simp: io_write_data_def intro!: keeps_intro)

lemma keeps_io_read_status [keeps_intro]: "stable v \<Longrightarrow> keeps v (io_read_status E)"
  by (auto simp: io_read_status_def intro!: keeps_intro)

lemma keeps_io_read_control [keeps_intro]: "keeps v io_read_control"
  by (auto simp: io_read_control_def intro!: keeps_intro)

lemma keeps_io_wait_status [keeps_intro]: "stable v \<Longrightarrow> keeps v (io_wait_status E m b t)"
  by (auto simp: io_wait_status_def intro!: keeps_intro)

lemma keeps_io_raw_frob_control [keeps_intro]: "keeps core (io_raw_frob_control E m b)"
  by (auto simp: io_raw_frob_control_def Let_def intro!: keeps_intro)

lemma keeps_io_data_dir [keeps_intro]: "keeps core (io_data_dir E r)"
  by (auto simp: io_data_dir_def intro!: keeps_intro)

lemma keeps_io_write_control [keeps_intro]: "keeps core (io_write_control E b)"
  by (auto simp: io_write_control_def intro!: keeps_intro)

lemma keeps_io_frob_control [keeps_intro]: "keeps core (io_frob_control E m b)"
  by (auto simp: io_frob_control_def intro!: keeps_intro)

lemma keeps_io_permission:
  assumes "stable v" and "\<And>s d. v (s\<lparr>prt := (prt s)\<lparr>fd := d\<rparr>\<rparr>) = v s"
  shows "keeps v (io_permission E)"
  unfolding io_permission_def
  by (cases "env_build E") (auto intro!: keeps_intro assms)

subsection \<open>The soft copy of the control register\<close>

text \<open>
  The abstract value of the register: the logical levels of the four control lines, and
  whether the data lines are inputs (bit 5).
\<close>

definition lines :: "'w sys \<Rightarrow> u8" where
  "lines s = (ctr (prt s) XOR C1284_INVERTED) AND control_lines"

definition reversed :: "'w sys \<Rightarrow> bool" where
  "reversed s \<longleftrightarrow> bit (ctr (prt s)) 5"

lemma lines_frob:
  "(frob c (m AND control_lines) ((v AND control_lines) XOR
      ((m AND control_lines) AND C1284_INVERTED)) XOR C1284_INVERTED) AND control_lines =
   frob ((c XOR C1284_INVERTED) AND control_lines) (m AND control_lines) (v AND control_lines)"
  by (rule bit_eqI) (auto simp: frob_def bit_simps)

lemma lines_set:
  "(frob c control_lines ((v AND control_lines) XOR (control_lines AND C1284_INVERTED))
      XOR C1284_INVERTED) AND control_lines = v AND control_lines"
  by (rule bit_eqI) (auto simp: frob_def bit_simps)

lemma bit5_frob:
  "bit (frob c (m AND control_lines) ((v AND control_lines) XOR
      ((m AND control_lines) AND C1284_INVERTED))) 5 = bit c 5"
proof -
  have "\<not> bit control_lines 5" by (simp add: control_lines_val)
  then show ?thesis by (auto simp: frob_def bit_simps)
qed

lemma post_do_outb:
  "(\<And>s'. prt s' = prt s \<Longrightarrow> Q () s') \<Longrightarrow> post (do_outb E c a) s Q"
  by (rule post_keeps [of prt]) (auto intro!: keeps_intro simp: stable_def)

lemma io_raw_frob_ctr:
  "post (io_raw_frob_control E m v) s
     (\<lambda>_ s'. ctr (prt s') = frob (ctr (prt s)) m (v XOR (m AND C1284_INVERTED)))"
  by (auto simp: io_raw_frob_control_def Let_def intro!: wp_intro post_do_outb)

lemma io_data_dir_ctr:
  "post (io_data_dir E r) s (\<lambda>x s'. x = E1284_OK \<and>
     ctr (prt s') = frob (ctr (prt s)) 0x20 (if truth r then 0x20 else 0x00))"
  unfolding io_data_dir_def
  by (intro wp_intro post_weaken [OF io_raw_frob_ctr]) (simp add: C1284_INVERTED_val)

lemma and_0x20: "x AND 0x20 = 0 \<longleftrightarrow> \<not> bit x 5" for x :: u8
  using and_exp_eq_0_iff_not_bit [of x 5] by simp

lemma frob_0x20:
  "(frob c 0x20 (if b then 0x20 else 0) XOR C1284_INVERTED) AND control_lines =
     (c XOR C1284_INVERTED) AND control_lines"
  "bit (frob c 0x20 (if b then 0x20 else 0)) 5 = b"
proof -
  have e: "\<not> (bit (0x0f :: u8) n \<and> bit (0x20 :: u8) n)" for n
  proof -
    have "bit ((0x0f :: u8) AND 0x20) n \<longleftrightarrow> bit (0x0f :: u8) n \<and> bit (0x20 :: u8) n"
      by (rule bit_and_iff)
    then show ?thesis by simp
  qed
  show "(frob c 0x20 (if b then 0x20 else 0) XOR C1284_INVERTED) AND control_lines =
     (c XOR C1284_INVERTED) AND control_lines"
    unfolding control_lines_val
    by (rule bit_eqI) (use e in \<open>auto simp: frob_def bit_simps\<close>)
  show "bit (frob c 0x20 (if b then 0x20 else 0)) 5 = b"
    by (auto simp: frob_def bit_simps)
qed

lemma io_data_dir_lines:
  "post (io_data_dir E r) s (\<lambda>x s'. x = E1284_OK \<and> lines s' = lines s \<and> reversed s' = truth r)"
  by (rule post_weaken [OF io_data_dir_ctr])
     (simp add: lines_def reversed_def frob_0x20 del: if_split)

lemma io_write_control_lines:
  "post (io_write_control E c) s (\<lambda>_ s'. lines s' = c AND control_lines \<and>
     reversed s' = (reversed s \<or> bit c 5))"
  unfolding io_write_control_def
  by (intro wp_intro post_weaken [OF io_data_dir_lines] post_weaken [OF io_raw_frob_ctr])
     (simp_all add: lines_def reversed_def lines_set
        bit5_frob [of _ control_lines, simplified] and_0x20 truth_def)

lemma io_frob_control_lines:
  "post (io_frob_control E m v) s (\<lambda>_ s'.
     lines s' = frob (lines s) (m AND control_lines) (v AND control_lines) \<and>
     reversed s' = (if bit m 5 then bit v 5 else reversed s))"
  unfolding io_frob_control_def
  by (intro wp_intro post_weaken [OF io_data_dir_lines] post_weaken [OF io_raw_frob_ctr])
     (auto simp: lines_def reversed_def lines_frob bit5_frob and_0x20 uint_0_iff truth_def)

subsection \<open>Waiting for the status lines\<close>

lemma stable_prt_id [simp]: "stable prt"
  by (simp add: stable_def)

lemma io_wait_status_post:
  "post (io_wait_status E m v t) s (\<lambda>r s'. prt s' = prt s \<and>
     (r = E1284_OK \<and> (\<exists>s1 st. io_read_status E s1 = Some (Ret st s') \<and> uchar st AND m = v) \<or>
      r = E1284_TIMEDOUT))"
  unfolding io_wait_status_def
proof (rule post_weaken [OF poll_until_post])
  show "stable prt" by simp
  show "keeps prt (bindp (io_read_status E) (\<lambda>st. ret (uchar st AND m = v)))"
    by (auto intro!: keeps_intro)
qed (auto simp: bindp_eq_Ret ret_eq_Ret)

subsection \<open>Ports with direct I/O\<close>

text \<open>
  The two tables a port can have after \<open>io_init\<close>, and the fact that on such a port every
  pin operation returns, given a clock that makes progress.
\<close>

definition dev_port_methods :: parport_access_methods where
  "dev_port_methods = io_access_methods\<lparr>m_do_inb := Some Io_port_inb, m_do_outb := Some Io_port_outb\<rparr>"

definition io_ready :: "'w sys \<Rightarrow> bool" where
  "io_ready s \<longleftrightarrow> fn (prt s) = io_access_methods \<or> fn (prt s) = dev_port_methods"

lemma stable_io_ready [simp]: "stable io_ready"
  by (simp add: stable_def io_ready_def)

lemma io_ready_upd [simp]:
  "fn (f (prt s)) = fn (prt s) \<Longrightarrow> io_ready (s\<lparr>prt := f (prt s)\<rparr>) = io_ready s"
  by (simp add: io_ready_def)

lemma io_ready_core: "core s' = core s \<Longrightarrow> io_ready s' = io_ready s"
  using coreD(13) [of s' s] by (simp add: io_ready_def)

lemma works_slot_call:
  assumes "\<And>s. I s \<Longrightarrow> sel (fn (prt s)) \<noteq> None" and "\<And>f. works clk I (r f)"
  shows "works clk I (bindp (slot sel) (\<lambda>f. call f r))"
  unfolding works_def
proof (intro allI impI)
  fix s assume I: "I s"
  then obtain f where f: "sel (fn (prt s)) = Some f" using assms(1) by blast
  from worksD [OF assms(2) I, of f]
  show "total (bindp (slot sel) (\<lambda>f. call f r)) s (\<lambda>_ s'. I s' \<and> clk (world s) \<le> clk (world s'))"
    by (simp add: slot_def bindp_def gets_def call_def f total_def)
qed

lemma works_lseek [works_intro]:
  "clock_ok E clk \<Longrightarrow> stable I \<Longrightarrow> works clk I (lseek E d n)"
  unfolding lseek_def by (rule works_env_call) (auto intro: clock_mono)

lemma works_run_do_inb [works_intro]:
  assumes "clock_ok E clk" and "stable I"
  shows "works clk I (run_do_inb E addr f)"
  by (cases f) (auto simp: raw_inb_def io_h_inb_def iop_ioctl_def port_inb_def split: prod.split
      intro!: works_intro works_env_call assms clock_mono [OF assms(1)])

lemma works_run_do_outb [works_intro]:
  assumes "clock_ok E clk" and "stable I"
  shows "works clk I (run_do_outb E val addr f)"
  by (cases f) (auto simp: raw_outb_def io_h_outb_p_def iop_ioctl_def port_outb_def split: prod.split
      intro!: works_intro works_env_call works_env_do assms clock_mono [OF assms(1)])

lemma works_do_inb [works_intro]:
  "clock_ok E clk \<Longrightarrow> works clk io_ready (do_inb E addr)"
  unfolding do_inb_def
  by (rule works_slot_call)
     (auto simp: io_ready_def io_access_methods_def dev_port_methods_def intro!: works_intro)

lemma works_do_outb [works_intro]:
  "clock_ok E clk \<Longrightarrow> works clk io_ready (do_outb E val addr)"
  unfolding do_outb_def
  by (rule works_slot_call)
     (auto simp: io_ready_def io_access_methods_def dev_port_methods_def intro!: works_intro)

lemma works_io_raw_frob_control [works_intro]:
  "clock_ok E clk \<Longrightarrow> works clk io_ready (io_raw_frob_control E m v)"
  by (auto simp: io_raw_frob_control_def Let_def intro!: works_intro)

lemma works_io_pins [works_intro]:
  assumes "clock_ok E clk"
  shows "works clk io_ready (io_read_data E)" "works clk io_ready (io_write_data E b)"
    "works clk io_ready (io_read_status E)" "works clk io_ready io_read_control"
    "works clk io_ready (io_data_dir E r)" "works clk io_ready (io_write_control E c)"
    "works clk io_ready (io_frob_control E m v)"
  unfolding io_read_data_def io_write_data_def io_read_status_def io_read_control_def
    io_data_dir_def io_write_control_def io_frob_control_def
  by (intro works_intro assms)+

lemma works_io_wait_status [works_intro]:
  assumes "clock_ok E clk" and "0 \<le> tv_usec t"
  shows "works clk io_ready (io_wait_status E m v t)"
  unfolding io_wait_status_def
  by (intro works_intro assms works_poll_until [OF assms(1)]) simp_all

end
