(* ===== verification/Pins.thy ===== *)
theory Pins
  imports Access_Io
begin

section \<open>The virtualised interface\<close>

text \<open>
  \<^verbatim>\<open>struct parport_access_methods\<close> of \<^verbatim>\<open>src/detect.h\<close> is the interface between the
  default implementations of \<^verbatim>\<open>src/default.c\<close> and the access methods: a default reaches the
  hardware only by calls \<open>fn->...\<close> through the port's table.  Here \<open>fn\<close> is a record of
  operations, in three layers: the pins, the ECP direction switches (which are themselves
  defaults over the pins), and termination (a default over both).  A locale for each layer
  states the laws a provider promises; the defaults are proved correct from the laws.  The
  theory \<open>Dispatch\<close> gives the records for the table of a port and interprets the locales.
\<close>

record 'w pins =
  p_read_data :: "(int, 'w sys) prog"
  p_write_data :: "u8 \<Rightarrow> (unit, 'w sys) prog"
  p_data_dir :: "int \<Rightarrow> (int, 'w sys) prog"
  p_read_status :: "(int, 'w sys) prog"
  p_wait_status :: "u8 \<Rightarrow> u8 \<Rightarrow> timeval \<Rightarrow> (int, 'w sys) prog"
  p_write_control :: "u8 \<Rightarrow> (unit, 'w sys) prog"
  p_frob_control :: "u8 \<Rightarrow> u8 \<Rightarrow> (unit, 'w sys) prog"

record 'w dir_pins = "'w pins" +
  p_ecp_fwd_to_rev :: "(int, 'w sys) prog"
  p_ecp_rev_to_fwd :: "(int, 'w sys) prog"

record 'w mode_pins = "'w dir_pins" +
  p_terminate :: "(unit, 'w sys) prog"

subsection \<open>Views of the port\<close>

text \<open>
  The defaults change the soft state of the protocol as well: the phase and the ECP channel
  (\<open>core_phase\<close> is the core without them), and the current mode (\<open>core_mode\<close> is the core
  without any of the three).
\<close>

definition core_phase :: "'w sys \<Rightarrow> parport \<times> parport_internal \<times> globals" where
  "core_phase s = (case core s of (p, q, g) \<Rightarrow>
     (p, q\<lparr>current_phase := PH1284_FWD_IDLE, current_channel := 0\<rparr>, g))"

definition core_mode :: "'w sys \<Rightarrow> parport \<times> parport_internal \<times> globals" where
  "core_mode s = (case core_phase s of (p, q, g) \<Rightarrow> (p, q\<lparr>current_mode := 0\<rparr>, g))"

lemma stable_core_phase [simp, keeps_intro]: "stable core_phase"
  by (simp add: stable_def core_phase_def)

lemma stable_core_mode [simp, keeps_intro]: "stable core_mode"
  by (simp add: stable_def core_mode_def core_phase_def)

lemma core_core_phase: "core s' = core s \<Longrightarrow> core_phase s' = core_phase s"
  by (simp add: core_phase_def)

lemma core_phase_core_mode: "core_phase s' = core_phase s \<Longrightarrow> core_mode s' = core_mode s"
  by (simp add: core_mode_def)

lemma keeps_core_phase: "keeps core m \<Longrightarrow> keeps core_phase m"
  by (auto simp: keeps_def post_def intro: core_core_phase)

lemma keeps_core_mode: "keeps core_phase m \<Longrightarrow> keeps core_mode m"
  by (auto simp: keeps_def post_def intro: core_phase_core_mode)

lemma core_upd_phase [simp]:
  "core_phase (s\<lparr>prt := (prt s)\<lparr>current_phase := x\<rparr>\<rparr>) = core_phase s"
  "core_phase (s\<lparr>prt := (prt s)\<lparr>current_channel := c\<rparr>\<rparr>) = core_phase s"
  "core_mode (s\<lparr>prt := (prt s)\<lparr>current_phase := x\<rparr>\<rparr>) = core_mode s"
  "core_mode (s\<lparr>prt := (prt s)\<lparr>current_channel := c\<rparr>\<rparr>) = core_mode s"
  "core_mode (s\<lparr>prt := (prt s)\<lparr>current_mode := m\<rparr>\<rparr>) = core_mode s"
  by (simp_all add: core_mode_def core_phase_def core_def)

lemma core_phaseD:
  assumes "core_phase s' = core_phase s"
  shows "current_mode (prt s') = current_mode (prt s)" "core_mode s' = core_mode s"
proof -
  show "current_mode (prt s') = current_mode (prt s)"
    using assms by (cases "prt s"; cases "prt s'"; simp add: core_phase_def core_def)
  show "core_mode s' = core_mode s"
    using assms by (rule core_phase_core_mode)
qed

lemma core_modeD:
  assumes "core_mode s' = core_mode s"
  shows "pub s' = pub s" "glob s' = glob s"
    "ptype (prt s') = ptype (prt s)" "fd (prt s') = fd (prt s)"
    "base (prt s') = base (prt s)" "interrupt (prt s') = interrupt (prt s)"
    "opened (prt s') = opened (prt s)" "claimed (prt s') = claimed (prt s)"
    "refcount (prt s') = refcount (prt s)" "fn (prt s') = fn (prt s)"
    "access_priv (prt s') = access_priv (prt s)"
    "device (prt s') = device (prt s)" "udevice (prt s') = udevice (prt s)"
  using assms
  by (cases "prt s"; cases "prt s'"; simp add: core_mode_def core_phase_def core_def)+

lemma keeps_core_fields:
  assumes "keeps core m"
  shows "keeps (\<lambda>s. current_mode (prt s)) m" "keeps (\<lambda>s. current_phase (prt s)) m"
  using assms by (auto simp: keeps_def post_def intro!: coreD)

subsection \<open>The laws of the pins\<close>

locale pin_laws =
  fixes P :: "('w, 'z) pins_scheme"
  assumes read_data_core: "keeps core (p_read_data P)"
    and write_data_core: "keeps core (p_write_data P b)"
    and data_dir_core: "keeps core (p_data_dir P r)"
    and read_status_core: "keeps core (p_read_status P)"
    and wait_status_core: "keeps core (p_wait_status P m v t)"
    and write_control_core: "keeps core (p_write_control P c)"
    and frob_control_core: "keeps core (p_frob_control P m v)"
    and wait_status_result:
      "post (p_wait_status P m v t) s (\<lambda>r _. r = E1284_OK \<or> r = E1284_TIMEDOUT)"
begin

lemmas pin_core = read_data_core write_data_core data_dir_core read_status_core
  wait_status_core write_control_core frob_control_core

lemmas pin_core_phase = pin_core [THEN keeps_core_phase]

lemmas pin_core_mode = pin_core_phase [THEN keeps_core_mode]

lemmas pin_fields = pin_core [THEN keeps_core_fields(1)] pin_core [THEN keeps_core_fields(2)]

lemmas pin_step = pin_core [THEN post_step]

lemma wait_status_post:
  "(\<And>r s'. core s' = core s \<Longrightarrow> r = E1284_OK \<or> r = E1284_TIMEDOUT \<Longrightarrow> Q r s') \<Longrightarrow>
     post (p_wait_status P m v t) s Q"
  by (rule post_weaken [OF post_conj [OF keepsD [OF wait_status_core] wait_status_result]]) auto

end

text \<open>
  The laws of the direction switches: they change pins and phase only, and the phase tells
  how they went.
\<close>

locale dir_laws = pin_laws P for P :: "('w, 'z) dir_pins_scheme" +
  assumes fwd_to_rev_core: "keeps core_phase (p_ecp_fwd_to_rev P)"
    and rev_to_fwd_core: "keeps core_phase (p_ecp_rev_to_fwd P)"
    and fwd_to_rev_phase: "post (p_ecp_fwd_to_rev P) s (\<lambda>r s'. current_phase (prt s') =
          (if r = E1284_OK then PH1284_REV_IDLE else PH1284_ECP_DIR_UNKNOWN))"
    and rev_to_fwd_phase: "post (p_ecp_rev_to_fwd P) s (\<lambda>r s'. current_phase (prt s') =
          (if r = E1284_OK then PH1284_FWD_IDLE else PH1284_ECP_DIR_UNKNOWN))"

text \<open>
  The law of termination.  It is promised for ports whose protocol runs in this library
  (\<open>soft\<close>), not for those that leave it to the kernel.
\<close>

locale mode_laws = dir_laws P for P :: "('w, 'z) mode_pins_scheme" +
  fixes soft :: "'w sys \<Rightarrow> bool"
  assumes soft_core_mode: "core_mode s' = core_mode s \<Longrightarrow> soft s' = soft s"
    and terminate_core: "keeps core_mode (p_terminate P)"
    and terminate_mode: "soft s \<Longrightarrow>
          post (p_terminate P) s (\<lambda>_ s'. current_mode (prt s') = M1284_COMPAT)"

text \<open>
  Total correctness: from the states \<open>ok\<close> every operation of the table returns without a
  fault, into a state that is \<open>ok\<close> again, and the clock does not go back.
\<close>

locale pin_total = pin_laws P for P :: "('w, 'z) pins_scheme" +
  fixes E :: "'w env" and clk :: "'w \<Rightarrow> int" and ok :: "'w sys \<Rightarrow> bool"
  assumes ok_clock: "ok s \<Longrightarrow> clock_ok E clk"
    and ok_stable: "stable ok"
    and ok_soft_state: "core_mode s' = core_mode s \<Longrightarrow> ok s' = ok s"
    and read_data_works: "works clk ok (p_read_data P)"
    and write_data_works: "works clk ok (p_write_data P b)"
    and data_dir_works: "works clk ok (p_data_dir P r)"
    and read_status_works: "works clk ok (p_read_status P)"
    and wait_status_works: "0 \<le> tv_usec t \<Longrightarrow> works clk ok (p_wait_status P m v t)"
    and write_control_works: "works clk ok (p_write_control P c)"
    and frob_control_works: "works clk ok (p_frob_control P m v)"
begin

lemma works_when_clock:
  "(clock_ok E clk \<Longrightarrow> works clk ok m) \<Longrightarrow> works clk ok m"
  using ok_clock by (auto simp: works_def)

lemma upd_works:
  "works clk ok (upd (\<lambda>p. p\<lparr>current_phase := x\<rparr>))"
  "works clk ok (upd (\<lambda>p. p\<lparr>current_channel := c\<rparr>))"
  "works clk ok (upd (\<lambda>p. p\<lparr>current_mode := m\<rparr>))"
  by (intro works_upd, subst ok_soft_state, simp_all)+

lemma wait_signal_works: "works clk ok (p_wait_status P m v (lookup_delay d))"
  using delay_table_pos [of d] by (intro wait_status_works) (simp add: lookup_delay_def)

lemma delay_works: "works clk ok (delay E d)"
  by (rule works_when_clock) (intro works_delay ok_stable)

lemma udelay_works: "0 \<le> n \<Longrightarrow> works clk ok (udelay E n)"
  by (rule works_when_clock) (intro works_udelay ok_stable)

lemmas pin_works = read_data_works write_data_works data_dir_works read_status_works
  wait_signal_works write_control_works frob_control_works delay_works udelay_works upd_works

end

end
