(* ===== verification/Negotiation.thy ===== *)
theory Negotiation
  imports Pins
begin

section \<open>Negotiation, termination and ECP direction: \<^verbatim>\<open>src/default.c\<close>, first part\<close>

text \<open>
  The default implementations that drive the IEEE 1284 state machine: \<^verbatim>\<open>default_wait_data\<close>,
  \<^verbatim>\<open>default_do_nack_handshake\<close>, \<^verbatim>\<open>default_negotiate\<close>, \<^verbatim>\<open>default_terminate\<close> and the two
  ECP direction switches.  \<open>P\<close> is the local variable \<^verbatim>\<open>fn\<close> of the code.  The theorems say
  how the recorded mode and phase follow the outcome of the handshake.
\<close>

definition signal_timeout :: timeval where
  "signal_timeout = lookup_delay TIMEVAL_SIGNAL_TIMEOUT"

subsection \<open>Waiting and the missing handshake\<close>

definition default_wait_data ::
  "'w env \<Rightarrow> ('w, 'z) pins_scheme \<Rightarrow> u8 \<Rightarrow> u8 \<Rightarrow> timeval \<Rightarrow> (int, 'w sys) prog" where
  "default_wait_data E P msk val timeout =
     poll_until E (bindp (p_read_data P) (\<lambda>d. ret (d AND uint msk = uint val))) timeout"

definition default_do_nack_handshake :: "u8 \<Rightarrow> u8 \<Rightarrow> timeval \<Rightarrow> (int, 'w sys) prog" where
  "default_do_nack_handshake ct_before ct_after timeout = ret E1284_NOTIMPL"

subsection \<open>ECP direction\<close>

definition default_ecp_fwd_to_rev ::
  "'w env \<Rightarrow> ('w, 'z) pins_scheme \<Rightarrow> (int, 'w sys) prog" where
  "default_ecp_fwd_to_rev E P =
     bindp (p_frob_control P C1284_NAUTOFD 0) (\<lambda>_.
     bindp (p_data_dir P 1) (\<lambda>_.
     bindp (udelay E 5) (\<lambda>_.
     bindp (p_frob_control P C1284_NINIT 0) (\<lambda>_.
     bindp (p_wait_status P S1284_PERROR 0 signal_timeout) (\<lambda>retval.
     bindp (upd (\<lambda>p. p\<lparr>current_phase :=
       (if truth retval then PH1284_ECP_DIR_UNKNOWN else PH1284_REV_IDLE)\<rparr>)) (\<lambda>_.
     ret retval))))))"

definition default_ecp_rev_to_fwd :: "('w, 'z) pins_scheme \<Rightarrow> (int, 'w sys) prog" where
  "default_ecp_rev_to_fwd P =
     bindp (p_frob_control P (C1284_NINIT OR C1284_NAUTOFD) (C1284_NINIT OR C1284_NAUTOFD)) (\<lambda>_.
     bindp (p_wait_status P S1284_PERROR S1284_PERROR signal_timeout) (\<lambda>retval.
     bindp (if \<not> truth retval
            then bindp (p_data_dir P 0) (\<lambda>_. upd (\<lambda>p. p\<lparr>current_phase := PH1284_FWD_IDLE\<rparr>))
            else upd (\<lambda>p. p\<lparr>current_phase := PH1284_ECP_DIR_UNKNOWN\<rparr>)) (\<lambda>_.
     ret retval)))"

subsection \<open>Termination\<close>

text \<open>The handshake after the data lines have been turned forward.\<close>

definition terminate_handshake :: "('w, 'z) pins_scheme \<Rightarrow> (unit, 'w sys) prog" where
  "terminate_handshake P =
     bindp (p_write_control P (C1284_NINIT OR C1284_NAUTOFD OR C1284_NSTROBE)) (\<lambda>_.
     bindp (upd (\<lambda>p. p\<lparr>current_mode := M1284_COMPAT\<rparr>)) (\<lambda>_.
     bindp (p_wait_status P S1284_NACK 0 signal_timeout) (\<lambda>r1.
     if r1 \<noteq> E1284_OK then ret ()
     else bindp (p_write_control P (C1284_NINIT OR C1284_NSTROBE)) (\<lambda>_.
     bindp (p_wait_status P S1284_NACK S1284_NACK signal_timeout) (\<lambda>r2.
     if r2 \<noteq> E1284_OK then ret ()
     else p_write_control P (C1284_NINIT OR C1284_NAUTOFD OR C1284_NSTROBE))))))"

definition default_terminate :: "('w, 'z) dir_pins_scheme \<Rightarrow> (unit, 'w sys) prog" where
  "default_terminate P =
     bindp (gets (\<lambda>s. current_phase (prt s))) (\<lambda>ph.
     bindp (if ph = PH1284_REV_IDLE then bindp (p_ecp_rev_to_fwd P) (\<lambda>_. ret ()) else ret ()) (\<lambda>_.
     terminate_handshake P))"

subsection \<open>Negotiation\<close>

text \<open>The extensibility request byte \<open>m\<close> for a mode.\<close>

definition extensibility_request :: "int \<Rightarrow> int" where
  "extensibility_request mode =
     (let m = (if mode = M1284_ECPSWE then M1284_ECP
               else if mode = M1284_EPPSL \<or> mode = M1284_EPPSWE then M1284_EPP
               else if mode = M1284_BECP then 0x18
               else mode)
      in if truth (mode AND M1284_FLAG_EXT_LINK) then 0x80 else m)"

text \<open>The label \<^verbatim>\<open>abort\<close>.\<close>

definition negotiate_abort :: "('w, 'z) mode_pins_scheme \<Rightarrow> int \<Rightarrow> (int, 'w sys) prog" where
  "negotiate_abort P r = bindp (p_terminate P) (\<lambda>_. ret r)"

definition default_negotiate ::
  "'w env \<Rightarrow> ('w, 'z) mode_pins_scheme \<Rightarrow> int \<Rightarrow> (int, 'w sys) prog" where
  "default_negotiate E P mode =
     bindp (gets (\<lambda>s. current_mode (prt s))) (\<lambda>cm.
     if mode = cm then ret E1284_OK
     else if mode = M1284_COMPAT then negotiate_abort P E1284_OK
     else let m = extensibility_request mode in
     bindp (p_write_data P (uchar m)) (\<lambda>_.
     bindp (p_frob_control P
        (C1284_NSELECTIN OR C1284_NSTROBE OR C1284_NINIT OR C1284_NAUTOFD)
        (C1284_NSELECTIN OR C1284_NSTROBE OR C1284_NINIT)) (\<lambda>_.
     bindp (p_wait_status P
        (S1284_PERROR OR S1284_SELECT OR S1284_NFAULT OR S1284_NACK)
        (S1284_PERROR OR S1284_SELECT OR S1284_NFAULT) signal_timeout) (\<lambda>r2.
     if truth r2 then negotiate_abort P E1284_NEGFAILED
     else
     bindp (p_frob_control P C1284_NSTROBE 0) (\<lambda>_.
     bindp (delay E TIMEVAL_STROBE_DELAY) (\<lambda>_.
     bindp (p_frob_control P (C1284_NSTROBE OR C1284_NAUTOFD)
        (C1284_NSTROBE OR C1284_NAUTOFD)) (\<lambda>_.
     bindp (p_wait_status P S1284_NACK S1284_NACK signal_timeout) (\<lambda>r6.
     if truth r6 then negotiate_abort P E1284_NEGFAILED
     else
     bindp (upd (\<lambda>p. p\<lparr>current_mode := c_not mode\<rparr>)) (\<lambda>_.
     bindp (p_read_status P) (\<lambda>st.
     if (st AND S1284_SELECT) \<noteq> (if truth mode then S1284_SELECT else 0)
     then negotiate_abort P E1284_REJECTED
     else
     bindp (upd (\<lambda>p. p\<lparr>current_mode := mode\<rparr>)) (\<lambda>_.
     if truth (m AND M1284_ECP) then
       bindp (p_frob_control P C1284_NAUTOFD 0) (\<lambda>_.
       bindp (p_wait_status P S1284_PERROR S1284_PERROR signal_timeout) (\<lambda>r31.
       if truth r31 then negotiate_abort P E1284_NEGFAILED
       else bindp (upd (\<lambda>p. p\<lparr>current_channel := 0\<rparr>)) (\<lambda>_.
            bindp (upd (\<lambda>p. p\<lparr>current_phase := PH1284_FWD_IDLE\<rparr>)) (\<lambda>_.
            ret E1284_OK))))
     else ret E1284_OK)))))))))))"

subsection \<open>The direction switches satisfy the laws of the interface\<close>

context pin_laws
begin

lemma default_fwd_to_rev_core: "keeps core_phase (default_ecp_fwd_to_rev E P)"
  unfolding default_ecp_fwd_to_rev_def
  by (intro keeps_intro pin_core_phase) simp_all

lemma default_rev_to_fwd_core: "keeps core_phase (default_ecp_rev_to_fwd P)"
  unfolding default_ecp_rev_to_fwd_def
  by (intro keeps_intro pin_core_phase) simp_all

lemma default_fwd_to_rev_phase:
  "post (default_ecp_fwd_to_rev E P) s (\<lambda>r s'. current_phase (prt s') =
     (if r = E1284_OK then PH1284_REV_IDLE else PH1284_ECP_DIR_UNKNOWN))"
  unfolding default_ecp_fwd_to_rev_def
  by (intro wp_intro postI) (auto simp: truth_def run_simps)

lemma default_rev_to_fwd_phase:
  "post (default_ecp_rev_to_fwd P) s (\<lambda>r s'. current_phase (prt s') =
     (if r = E1284_OK then PH1284_FWD_IDLE else PH1284_ECP_DIR_UNKNOWN))"
  unfolding default_ecp_rev_to_fwd_def
  by (intro wp_intro postI) (auto simp: truth_def run_simps)

lemma terminate_handshake_core: "keeps core_mode (terminate_handshake P)"
  unfolding terminate_handshake_def
  by (intro keeps_intro pin_core_mode) simp_all

text \<open>Whatever the peripheral answers, the recorded mode is compatibility mode.\<close>

lemma terminate_handshake_mode:
  "post (terminate_handshake P) s (\<lambda>_ s'. current_mode (prt s') = M1284_COMPAT)"
  unfolding terminate_handshake_def
proof (rule post_skip, rule post_bindp, rule post_upd,
    rule post_keeps [where v = "\<lambda>s. current_mode (prt s)"])
qed (intro keeps_intro pin_fields, simp)

lemma terminate_handshake_phase: "keeps (\<lambda>s. current_phase (prt s)) (terminate_handshake P)"
  unfolding terminate_handshake_def by (intro keeps_intro pin_fields) simp

lemma default_wait_data_core: "keeps core (default_wait_data E P m v t)"
  unfolding default_wait_data_def by (intro keeps_intro pin_core)

end

subsection \<open>Termination goes back to compatibility mode\<close>

context dir_laws
begin

lemma default_terminate_core: "keeps core_mode (default_terminate P)"
  unfolding default_terminate_def
  by (intro keeps_intro terminate_handshake_core rev_to_fwd_core [THEN keeps_core_mode])

lemma default_terminate_mode:
  "post (default_terminate P) s (\<lambda>_ s'. current_mode (prt s') = M1284_COMPAT)"
  unfolding default_terminate_def by (rule post_skip)+ (rule terminate_handshake_mode)

text \<open>The reverse phase is always left first; the phase then records how that went.\<close>

lemma default_terminate_phase:
  "post (default_terminate P) s (\<lambda>_ s'. current_phase (prt s') \<noteq> PH1284_REV_IDLE)"
proof -
  have rest: "post (terminate_handshake P) s1 (\<lambda>_ s'. current_phase (prt s') \<noteq> PH1284_REV_IDLE)"
    if "current_phase (prt s1) \<noteq> PH1284_REV_IDLE" for s1
    using that by (intro post_keeps [OF terminate_handshake_phase]) simp
  show ?thesis
    unfolding default_terminate_def
    by (intro post_bindp [of "gets _"] post_gets post_bindp [of "If _ _ _"] post_if
        post_bindp [of "p_ecp_rev_to_fwd P"] post_ret post_weaken [OF rev_to_fwd_phase] rest)
       (auto split: if_splits)
qed

end

subsection \<open>Negotiation keeps the recorded mode right\<close>

context mode_laws
begin

lemma pinD:
  assumes "core s' = core s"
  shows "soft s' = soft s \<and> current_mode (prt s') = current_mode (prt s)"
  using soft_core_mode [OF core_phase_core_mode [OF core_core_phase [OF assms]]] coreD(9) [OF assms]
  by blast

lemma soft_upd [simp]:
  "soft (s\<lparr>prt := (prt s)\<lparr>current_mode := m\<rparr>\<rparr>) = soft s"
  "soft (s\<lparr>prt := (prt s)\<lparr>current_phase := x\<rparr>\<rparr>) = soft s"
  "soft (s\<lparr>prt := (prt s)\<lparr>current_channel := c\<rparr>\<rparr>) = soft s"
  by (rule soft_core_mode, simp)+

lemma negotiate_abort_post:
  "soft s \<Longrightarrow> (\<And>s'. current_mode (prt s') = M1284_COMPAT \<Longrightarrow> Q r s') \<Longrightarrow>
     post (negotiate_abort P r) s Q"
  unfolding negotiate_abort_def
  by (rule post_bindp, rule post_weaken [OF terminate_mode]) (auto intro: post_ret)

lemma wait_step:
  "(\<And>r s'. core s' = core s \<Longrightarrow> r = E1284_OK \<or> r = E1284_TIMEDOUT \<Longrightarrow> post (k r) s' Q) \<Longrightarrow>
     post (bindp (p_wait_status P m v t) k) s Q"
  by (rule post_bindp) (rule wait_status_post)

lemma delay_step:
  "(\<And>a s'. core s' = core s \<Longrightarrow> post (k a) s' Q) \<Longrightarrow> post (bindp (delay E d) k) s Q"
  by (rule post_step [OF keeps_delay [OF stable_core]])

lemma upd_step:
  "post (k ()) (s\<lparr>prt := f (prt s)\<rparr>) Q \<Longrightarrow> post (bindp (upd f) k) s Q"
  by (rule post_bindp, rule post_upd)

lemma default_negotiate_mode:
  assumes "soft s"
  shows "post (default_negotiate E P mode) s (\<lambda>r s'.
     (r = E1284_OK \<or> r = E1284_NEGFAILED \<or> r = E1284_REJECTED) \<and>
     current_mode (prt s') = (if r = E1284_OK then mode else M1284_COMPAT))"
  unfolding default_negotiate_def Let_def
  using assms
  by (intro post_if post_ret wait_step pin_step delay_step upd_step negotiate_abort_post
      post_bindp [of "gets _"] post_gets)
     (auto dest!: pinD)

lemma default_negotiate_core: "keeps core_mode (default_negotiate E P mode)"
  unfolding default_negotiate_def negotiate_abort_def Let_def
  by (intro keeps_intro pin_core_mode terminate_core) simp_all


text \<open>ECP modes are entered in the forward idle phase on channel 0.\<close>

lemma default_negotiate_ecp:
  assumes "soft s" and "current_mode (prt s) \<noteq> mode" and "mode \<noteq> M1284_COMPAT"
    and "truth (extensibility_request mode AND M1284_ECP)"
  shows "post (default_negotiate E P mode) s (\<lambda>r s'. r = E1284_OK \<longrightarrow>
     current_phase (prt s') = PH1284_FWD_IDLE \<and> current_channel (prt s') = 0)"
  unfolding default_negotiate_def Let_def
  using assms
  by (intro post_if post_ret wait_step pin_step delay_step upd_step negotiate_abort_post
      post_bindp [of "gets _"] post_gets)
     (auto dest!: pinD)

end

subsection \<open>Everything returns when the pins do and the clock ticks\<close>

context pin_total
begin

lemma default_wait_data_works: "0 \<le> tv_usec t \<Longrightarrow> works clk ok (default_wait_data E P m v t)"
  unfolding default_wait_data_def
  by (rule works_when_clock) (intro works_intro pin_works ok_stable)

lemma default_fwd_to_rev_works: "works clk ok (default_ecp_fwd_to_rev E P)"
  unfolding default_ecp_fwd_to_rev_def signal_timeout_def
  by (intro works_bindp works_if works_ret pin_works) simp_all

lemma default_rev_to_fwd_works: "works clk ok (default_ecp_rev_to_fwd P)"
  unfolding default_ecp_rev_to_fwd_def signal_timeout_def
  by (intro works_bindp works_if works_ret pin_works)

lemma terminate_handshake_works: "works clk ok (terminate_handshake P)"
  unfolding terminate_handshake_def signal_timeout_def
  by (intro works_bindp works_if works_ret pin_works)

end

locale dir_total = dir_laws P + pin_total P E clk ok
  for P :: "('w, 'z) dir_pins_scheme" and E :: "'w env" and clk :: "'w \<Rightarrow> int"
    and ok :: "'w sys \<Rightarrow> bool" +
  assumes fwd_to_rev_works: "works clk ok (p_ecp_fwd_to_rev P)"
    and rev_to_fwd_works: "works clk ok (p_ecp_rev_to_fwd P)"
begin

lemma default_terminate_works: "works clk ok (default_terminate P)"
  unfolding default_terminate_def
  by (intro works_bindp works_if works_ret works_gets rev_to_fwd_works terminate_handshake_works)

end

locale mode_total = mode_laws P ok + dir_total P E clk ok
  for P :: "('w, 'z) mode_pins_scheme" and E :: "'w env" and clk :: "'w \<Rightarrow> int"
    and ok :: "'w sys \<Rightarrow> bool" +
  assumes terminate_works: "works clk ok (p_terminate P)"
begin

lemma default_negotiate_works: "works clk ok (default_negotiate E P mode)"
  unfolding default_negotiate_def negotiate_abort_def signal_timeout_def Let_def
  by (intro works_bindp works_if works_ret works_gets pin_works terminate_works)

lemma default_negotiate_total:
  assumes "ok s"
  shows "total (default_negotiate E P mode) s (\<lambda>r s'. ok s' \<and>
     (r = E1284_OK \<or> r = E1284_NEGFAILED \<or> r = E1284_REJECTED) \<and>
     current_mode (prt s') = (if r = E1284_OK then mode else M1284_COMPAT))"
  by (rule works_total [OF default_negotiate_works assms default_negotiate_mode [OF assms]])

end

end
