(* ===== verification/Transfers.thy ===== *)
theory Transfers
  imports Negotiation
begin

section \<open>Data transfer: \<^verbatim>\<open>src/default.c\<close>, second part\<close>

text \<open>
  The default transfer functions of each mode.  A reading function returns its C result and
  the bytes it has stored into the caller's buffer, from the start of the buffer on; a
  writing function takes the \<open>len\<close> bytes of the caller's buffer as a list.  The counters
  of the loops (\<^verbatim>\<open>count\<close>, \<^verbatim>\<open>len\<close>, \<^verbatim>\<open>written\<close>) are natural numbers; the loops recurse on
  what is left.  The argument \<^verbatim>\<open>flags\<close> only selects a debug message and is left out.
  Two loops of the ECP functions have no bound (\<^verbatim>\<open>while (fn->wait_status ...) {}\<close> and
  \<^verbatim>\<open>goto try_again\<close>); they are instances of \<open>loop\<close>.
\<close>

subsection \<open>Nibble mode\<close>

definition nibble_low :: "int \<Rightarrow> int" where
  "nibble_low st = (let low = drop_bit 3 st in (low AND 0x07) + drop_bit 1 (low AND 0x10))"

definition nibble_high :: "int \<Rightarrow> int" where
  "nibble_high st = (let high = drop_bit 3 st in (high AND 0x07) OR drop_bit 1 (high AND 0x10))"

definition nibble_byte :: "int \<Rightarrow> int \<Rightarrow> u8" where
  "nibble_byte low high = uchar ((push_bit 4 high + low) AND 0xff)"

text \<open>
  The handshake for one nibble: events 7 to 9, the status, events 10 and 11.  \<open>None\<close> is the
  jump to the label \<^verbatim>\<open>error\<close>.
\<close>

definition nibble_half :: "('w, 'z) pins_scheme \<Rightarrow> (int option, 'w sys) prog" where
  "nibble_half P =
     bindp (p_write_control P (C1284_NSTROBE OR C1284_NINIT OR C1284_NSELECTIN)) (\<lambda>_.
     bindp (p_wait_status P S1284_NACK 0 signal_timeout) (\<lambda>r9.
     if r9 \<noteq> E1284_OK then ret None
     else
     bindp (p_read_status P) (\<lambda>st.
     bindp (p_write_control P (C1284_NSTROBE OR C1284_NINIT OR C1284_NSELECTIN OR C1284_NAUTOFD)) (\<lambda>_.
     bindp (p_wait_status P S1284_NACK S1284_NACK signal_timeout) (\<lambda>r11.
     if r11 \<noteq> E1284_OK then ret None else ret (Some st))))))"

definition nibble_error :: "('w, 'z) mode_pins_scheme \<Rightarrow> u8 list \<Rightarrow> (int \<times> u8 list, 'w sys) prog" where
  "nibble_error P buffer = bindp (p_terminate P) (\<lambda>_. ret (int (length buffer), buffer))"

text \<open>
  The loop: \<open>left\<close> is \<^verbatim>\<open>len - count\<close>, \<open>buffer\<close> holds the \<^verbatim>\<open>count\<close> bytes stored so far.  Every
  regular exit returns \<^verbatim>\<open>len\<close>, also the one after the peripheral has no more data.
\<close>

fun nibble_loop ::
  "('w, 'z) mode_pins_scheme \<Rightarrow> nat \<Rightarrow> nat \<Rightarrow> u8 list \<Rightarrow> (int \<times> u8 list, 'w sys) prog" where
  "nibble_loop P len 0 buffer = ret (int len, buffer)"
| "nibble_loop P len (Suc left) buffer =
     bindp (if length buffer AND 1 = 0 then p_read_status P else ret 0) (\<lambda>st.
     if truth (st AND S1284_NFAULT)
     then bindp (p_frob_control P C1284_NAUTOFD 0) (\<lambda>_. ret (int len, buffer))
     else
     bindp (nibble_half P) (\<lambda>low. case low of None \<Rightarrow> nibble_error P buffer | Some l \<Rightarrow>
     bindp (nibble_half P) (\<lambda>high. case high of None \<Rightarrow> nibble_error P buffer | Some h \<Rightarrow>
     nibble_loop P len left (buffer @ [nibble_byte (nibble_low l) (nibble_high h)]))))"

definition default_nibble_read ::
  "('w, 'z) mode_pins_scheme \<Rightarrow> nat \<Rightarrow> (int \<times> u8 list, 'w sys) prog" where
  "default_nibble_read P len = nibble_loop P len len []"

subsection \<open>Compatibility mode\<close>

fun compat_loop ::
  "'w env \<Rightarrow> ('w, 'z) mode_pins_scheme \<Rightarrow> nat \<Rightarrow> nat \<Rightarrow> u8 list \<Rightarrow> (int, 'w sys) prog" where
  "compat_loop E P len count [] = ret (int len)"
| "compat_loop E P len count (b # buffer) =
     bindp (p_wait_status P S1284_BUSY 0 signal_timeout) (\<lambda>r.
     if r \<noteq> E1284_OK then bindp (p_terminate P) (\<lambda>_. ret (int count))
     else
     bindp (delay E TIMEVAL_STROBE_DELAY) (\<lambda>_.
     bindp (p_write_data P b) (\<lambda>_.
     bindp (p_write_control P (C1284_NINIT OR C1284_NAUTOFD)) (\<lambda>_.
     bindp (delay E TIMEVAL_STROBE_DELAY) (\<lambda>_.
     bindp (p_write_control P (C1284_NINIT OR C1284_NAUTOFD OR C1284_NSTROBE)) (\<lambda>_.
     bindp (delay E TIMEVAL_STROBE_DELAY) (\<lambda>_.
     compat_loop E P len (count + 1) buffer)))))))"

definition default_compat_write ::
  "'w env \<Rightarrow> ('w, 'z) mode_pins_scheme \<Rightarrow> u8 list \<Rightarrow> (int, 'w sys) prog" where
  "default_compat_write E P buffer = compat_loop E P (length buffer) 0 buffer"

subsection \<open>Byte mode\<close>

text \<open>\<open>count\<close> falls behind the number of stored bytes when event 11 times out.\<close>

fun byte_loop ::
  "'w env \<Rightarrow> ('w, 'z) pins_scheme \<Rightarrow> nat \<Rightarrow> nat \<Rightarrow> u8 list \<Rightarrow> (int \<times> u8 list, 'w sys) prog" where
  "byte_loop E P 0 count buf = ret (int count, buf)"
| "byte_loop E P (Suc left) count buf =
     bindp (p_read_status P) (\<lambda>st.
     if truth (st AND S1284_PERROR)
     then bindp (p_frob_control P C1284_NAUTOFD C1284_NAUTOFD) (\<lambda>_. ret (int count, buf))
     else
     bindp (p_data_dir P 1) (\<lambda>_.
     bindp (p_frob_control P C1284_NAUTOFD 0) (\<lambda>_.
     bindp (p_wait_status P S1284_NACK 0 signal_timeout) (\<lambda>r9.
     if truth r9
     then bindp (p_frob_control P C1284_NAUTOFD C1284_NAUTOFD) (\<lambda>_. ret (int count, buf))
     else
     bindp (p_read_data P) (\<lambda>d.
     bindp (p_frob_control P C1284_NAUTOFD C1284_NAUTOFD) (\<lambda>_.
     bindp (p_wait_status P S1284_NACK S1284_NACK signal_timeout) (\<lambda>r11.
     if truth r11 then ret (int count, buf @ [uchar d])
     else
     bindp (p_frob_control P C1284_NSTROBE 0) (\<lambda>_.
     bindp (udelay E 5) (\<lambda>_.
     bindp (p_frob_control P C1284_NSTROBE C1284_NSTROBE) (\<lambda>_.
     byte_loop E P left (count + 1) (buf @ [uchar d])))))))))))"

definition default_byte_read ::
  "'w env \<Rightarrow> ('w, 'z) pins_scheme \<Rightarrow> nat \<Rightarrow> (int \<times> u8 list, 'w sys) prog" where
  "default_byte_read E P len = byte_loop E P len 0 []"

subsection \<open>EPP mode\<close>

fun epp_read_loop ::
  "('w, 'z) pins_scheme \<Rightarrow> nat \<Rightarrow> nat \<Rightarrow> u8 list \<Rightarrow> (int \<times> u8 list, 'w sys) prog" where
  "epp_read_loop P 0 count buf = ret (int count, buf)"
| "epp_read_loop P (Suc len) count buf =
     bindp (p_frob_control P C1284_NAUTOFD 0) (\<lambda>_.
     bindp (p_wait_status P S1284_BUSY S1284_BUSY signal_timeout) (\<lambda>r58.
     if truth r58 then ret (int count, buf)
     else
     bindp (p_read_data P) (\<lambda>d.
     bindp (p_frob_control P C1284_NAUTOFD C1284_NAUTOFD) (\<lambda>_.
     bindp (p_wait_status P S1284_BUSY 0 signal_timeout) (\<lambda>r60.
     if truth r60 then ret (int count, buf @ [uchar d])
     else epp_read_loop P len (count + 1) (buf @ [uchar d]))))))"

definition default_epp_read_data ::
  "('w, 'z) pins_scheme \<Rightarrow> nat \<Rightarrow> (int \<times> u8 list, 'w sys) prog" where
  "default_epp_read_data P len =
     bindp (p_frob_control P (C1284_NSTROBE OR C1284_NAUTOFD OR C1284_NSELECTIN OR C1284_NINIT)
        (C1284_NSTROBE OR C1284_NINIT)) (\<lambda>_.
     bindp (p_data_dir P 1) (\<lambda>_.
     bindp (epp_read_loop P len 0 []) (\<lambda>res.
     bindp (p_data_dir P 0) (\<lambda>_. ret res))))"

text \<open>The loop of \<^verbatim>\<open>poll_port\<close> runs \<^verbatim>\<open>i\<close> from \<open>i\<close> over the \<open>left\<close> rounds that remain.\<close>

fun poll_port_loop ::
  "'w env \<Rightarrow> ('w, 'z) pins_scheme \<Rightarrow> u8 \<Rightarrow> u8 \<Rightarrow> nat \<Rightarrow> nat \<Rightarrow> (int, 'w sys) prog" where
  "poll_port_loop E P msk result i 0 = ret E1284_TIMEDOUT"
| "poll_port_loop E P msk result i (Suc left) =
     bindp (p_read_status P) (\<lambda>st.
     if uchar st AND msk = result then ret E1284_OK
     else bindp (if 2 \<le> i then udelay E 5 else ret ()) (\<lambda>_.
          poll_port_loop E P msk result (i + 1) left))"

definition poll_port ::
  "'w env \<Rightarrow> ('w, 'z) pins_scheme \<Rightarrow> u8 \<Rightarrow> u8 \<Rightarrow> int \<Rightarrow> (int, 'w sys) prog" where
  "poll_port E P msk result usec = poll_port_loop E P msk result 0 (nat (usec sdiv 5 + 2))"

fun epp_write_loop ::
  "'w env \<Rightarrow> ('w, 'z) pins_scheme \<Rightarrow> nat \<Rightarrow> u8 list \<Rightarrow> (int, 'w sys) prog" where
  "epp_write_loop E P n [] = ret (int n)"
| "epp_write_loop E P n (b # buffer) =
     bindp (p_write_data P b) (\<lambda>_.
     bindp (p_frob_control P C1284_NAUTOFD 0) (\<lambda>_.
     bindp (poll_port E P S1284_BUSY S1284_BUSY 10) (\<lambda>r58.
     if r58 \<noteq> E1284_OK then ret (int n)
     else
     bindp (p_frob_control P C1284_NAUTOFD C1284_NAUTOFD) (\<lambda>_.
     bindp (poll_port E P S1284_BUSY 0 5) (\<lambda>r60.
     if r60 \<noteq> E1284_OK then ret (int n)
     else epp_write_loop E P (n + 1) buffer)))))"

definition default_epp_write_data ::
  "'w env \<Rightarrow> ('w, 'z) pins_scheme \<Rightarrow> u8 list \<Rightarrow> (int, 'w sys) prog" where
  "default_epp_write_data E P buffer =
     bindp (p_frob_control P (C1284_NSTROBE OR C1284_NAUTOFD OR C1284_NSELECTIN OR C1284_NINIT)
        (C1284_NAUTOFD OR C1284_NSELECTIN OR C1284_NINIT)) (\<lambda>_.
     bindp (p_data_dir P 0) (\<lambda>_.
     epp_write_loop E P 0 buffer))"

definition default_epp_read_addr :: "nat \<Rightarrow> (int \<times> u8 list, 'w sys) prog" where
  "default_epp_read_addr len = ret (E1284_NOTIMPL, [])"

definition default_epp_write_addr :: "u8 list \<Rightarrow> (int, 'w sys) prog" where
  "default_epp_write_addr buffer = ret E1284_NOTIMPL"

subsection \<open>ECP mode, reading\<close>

text \<open>Event 43: wait for the peripheral, as long as it takes.\<close>

definition wait_event_43 :: "('w, 'z) pins_scheme \<Rightarrow> (unit, 'w sys) prog" where
  "wait_event_43 P =
     loop (bindp (p_wait_status P S1284_NACK 0 signal_timeout) (\<lambda>r.
       ret (if truth r then None else Some ())))"

text \<open>
  \<open>rle\<close> is the run-length byte when the last byte was one: the code's \<^verbatim>\<open>rle\<close> with
  \<^verbatim>\<open>rle_count = byte + 1\<close>.  All exits of the loop assign \<^verbatim>\<open>PH1284_REV_IDLE\<close> to the phase and
  return the count; the caller does both.
\<close>

function ecp_read_loop ::
  "('w, 'z) pins_scheme \<Rightarrow> nat \<Rightarrow> u8 option \<Rightarrow> u8 list \<Rightarrow> (u8 list, 'w sys) prog" where
  "ecp_read_loop P left rle buf =
     (if left = 0 then ret buf
      else
      bindp (wait_event_43 P) (\<lambda>_.
      bindp (if rle \<noteq> None then ret False
             else bindp (p_read_status P) (\<lambda>st. ret (\<not> truth (st AND S1284_BUSY)))) (\<lambda>command.
      bindp (p_read_data P) (\<lambda>d.
      let byte = uchar d in
      if command \<and> byte AND 0x80 \<noteq> 0 then ret buf
      else if command \<and> unat byte + 1 > left then ret buf
      else
      bindp (p_frob_control P C1284_NAUTOFD C1284_NAUTOFD) (\<lambda>_.
      bindp (p_wait_status P S1284_NACK S1284_NACK signal_timeout) (\<lambda>r45.
      if truth r45 then ret buf
      else
      bindp (p_frob_control P C1284_NAUTOFD 0) (\<lambda>_.
      if command \<and> rle = None then ecp_read_loop P left (Some byte) buf
      else case rle of
        Some c \<Rightarrow> ecp_read_loop P (left - (unat c + 1)) None (buf @ replicate (unat c + 1) byte)
      | None \<Rightarrow> ecp_read_loop P (left - 1) None (buf @ [byte]))))))))"
  by pat_completeness auto
termination
  by (relation "measure (\<lambda>(P, left, rle, buf). 2 * left + (if rle = None then 1 else 0))") auto

declare ecp_read_loop.simps [simp del]

definition default_ecp_read_data ::
  "('w, 'z) dir_pins_scheme \<Rightarrow> nat \<Rightarrow> (int \<times> u8 list, 'w sys) prog" where
  "default_ecp_read_data P len =
     bindp (gets (\<lambda>s. current_phase (prt s))) (\<lambda>ph.
     bindp (if ph \<noteq> PH1284_REV_IDLE then p_ecp_fwd_to_rev P else ret 0) (\<lambda>r.
     if truth r then ret (0, [])
     else
     bindp (upd (\<lambda>p. p\<lparr>current_phase := PH1284_REV_DATA\<rparr>)) (\<lambda>_.
     bindp (p_frob_control P (C1284_NAUTOFD OR C1284_NSTROBE OR C1284_NINIT) C1284_NSTROBE) (\<lambda>_.
     bindp (ecp_read_loop P len None []) (\<lambda>buf.
     bindp (upd (\<lambda>p. p\<lparr>current_phase := PH1284_REV_IDLE\<rparr>)) (\<lambda>_.
     ret (int (length buf), buf)))))))"

subsection \<open>ECP mode, writing\<close>

text \<open>The retry loop of event 36: \<open>True\<close> is the jump to the label \<^verbatim>\<open>success\<close>.\<close>

fun event_36_loop :: "('w, 'z) pins_scheme \<Rightarrow> nat \<Rightarrow> (bool, 'w sys) prog" where
  "event_36_loop P 0 = ret False"
| "event_36_loop P (Suc retries) =
     bindp (p_wait_status P S1284_BUSY S1284_BUSY signal_timeout) (\<lambda>r.
     if \<not> truth r then ret True else event_36_loop P retries)"

text \<open>Host Transfer Recovery: \<open>True\<close> is the jump back to \<^verbatim>\<open>try_again\<close>, \<open>False\<close> a \<^verbatim>\<open>break\<close>.\<close>

definition host_transfer_recovery :: "'w env \<Rightarrow> ('w, 'z) pins_scheme \<Rightarrow> (bool, 'w sys) prog" where
  "host_transfer_recovery E P =
     bindp (p_frob_control P C1284_NINIT C1284_NINIT) (\<lambda>_.
     bindp (udelay E 50) (\<lambda>_.
     bindp (p_read_status P) (\<lambda>st1.
     if truth (st1 AND S1284_PERROR)
     then bindp (p_frob_control P C1284_NINIT 0) (\<lambda>_. ret False)
     else
     bindp (p_frob_control P C1284_NINIT 0) (\<lambda>_.
     bindp (udelay E 50) (\<lambda>_.
     bindp (p_read_status P) (\<lambda>st2.
     ret (truth (st2 AND S1284_PERROR))))))))"

text \<open>From \<^verbatim>\<open>try_again\<close> to \<^verbatim>\<open>success\<close>, for one byte: \<open>False\<close> is a \<^verbatim>\<open>break\<close>.\<close>

definition ecp_offer_byte ::
  "'w env \<Rightarrow> ('w, 'z) pins_scheme \<Rightarrow> u8 \<Rightarrow> (bool, 'w sys) prog" where
  "ecp_offer_byte E P byte =
     loop
      (bindp (p_write_data P byte) (\<lambda>_.
       bindp (p_frob_control P C1284_NSTROBE 0) (\<lambda>_.
       bindp (udelay E 5) (\<lambda>_.
       bindp (event_36_loop P 100) (\<lambda>success.
       if success then ret (Some True)
       else bindp (host_transfer_recovery E P) (\<lambda>again.
            ret (if again then None else Some False)))))))"

fun ecp_write_loop ::
  "'w env \<Rightarrow> ('w, 'z) pins_scheme \<Rightarrow> nat \<Rightarrow> u8 list \<Rightarrow> (int, 'w sys) prog" where
  "ecp_write_loop E P written [] = ret (int written)"
| "ecp_write_loop E P written (byte # buf) =
     bindp (ecp_offer_byte E P byte) (\<lambda>success.
     if \<not> success then ret (int written)
     else
     bindp (p_frob_control P C1284_NSTROBE C1284_NSTROBE) (\<lambda>_.
     bindp (udelay E 5) (\<lambda>_.
     bindp (p_wait_status P S1284_BUSY 0 signal_timeout) (\<lambda>r.
     if truth r then ret (int written)
     else ecp_write_loop E P (written + 1) buf))))"

text \<open>
  \<^verbatim>\<open>default_ecp_write_data\<close> and \<^verbatim>\<open>default_ecp_write_addr\<close> have the same body but for the
  level of HostAck: high for data, low for an address.
\<close>

definition ecp_write ::
  "'w env \<Rightarrow> ('w, 'z) dir_pins_scheme \<Rightarrow> u8 \<Rightarrow> u8 list \<Rightarrow> (int, 'w sys) prog" where
  "ecp_write E P level buffer =
     bindp (gets (\<lambda>s. current_phase (prt s))) (\<lambda>ph.
     bindp (if ph \<noteq> PH1284_FWD_IDLE then p_ecp_rev_to_fwd P else ret 0) (\<lambda>r.
     if truth r then ret 0
     else
     bindp (upd (\<lambda>p. p\<lparr>current_phase := PH1284_FWD_DATA\<rparr>)) (\<lambda>_.
     bindp (p_frob_control P (C1284_NAUTOFD OR C1284_NINIT) level) (\<lambda>_.
     bindp (ecp_write_loop E P 0 buffer) (\<lambda>written.
     bindp (upd (\<lambda>p. p\<lparr>current_phase := PH1284_FWD_IDLE\<rparr>)) (\<lambda>_.
     ret written))))))"

definition default_ecp_write_data ::
  "'w env \<Rightarrow> ('w, 'z) dir_pins_scheme \<Rightarrow> u8 list \<Rightarrow> (int, 'w sys) prog" where
  "default_ecp_write_data E P buffer = ecp_write E P (C1284_NAUTOFD OR C1284_NINIT) buffer"

definition default_ecp_write_addr ::
  "'w env \<Rightarrow> ('w, 'z) dir_pins_scheme \<Rightarrow> u8 list \<Rightarrow> (int, 'w sys) prog" where
  "default_ecp_write_addr E P buffer = ecp_write E P C1284_NINIT buffer"

definition default_ecp_read_addr :: "nat \<Rightarrow> (int \<times> u8 list, 'w sys) prog" where
  "default_ecp_read_addr len = ret (E1284_NOTIMPL, [])"

definition default_set_timeout :: "timeval \<Rightarrow> (timeval, 'w sys) prog" where
  "default_set_timeout timeout = ret \<lparr> tv_sec = 9999, tv_usec = 0 \<rparr>"

subsection \<open>What is stored stays inside the caller's buffer\<close>

definition nibble_result :: "nat \<Rightarrow> int \<times> u8 list \<Rightarrow> bool" where
  "nibble_result len res \<longleftrightarrow> (case res of (r, buf) \<Rightarrow>
     length buf \<le> len \<and> (r = int len \<or> r = int (length buf)))"

lemma nibble_loop_bounds:
  "length buffer + left = len \<Longrightarrow>
     post (nibble_loop P len left buffer) s (\<lambda>res _. nibble_result len res)"
proof (induction left arbitrary: buffer s)
  case 0
  then show ?case by (simp add: post_ret nibble_result_def)
next
  case (Suc left)
  have stop: "nibble_result len (int len, buffer)" "nibble_result len (int (length buffer), buffer)"
    using Suc.prems by (simp_all add: nibble_result_def)
  have error: "post (nibble_error P buffer) s1 (\<lambda>res _. nibble_result len res)" for s1
    unfolding nibble_error_def by (intro post_skip post_ret stop)
  have rest: "post (nibble_loop P len left (buffer @ [b])) s1 (\<lambda>res _. nibble_result len res)" for b s1
    using Suc.prems by (intro Suc.IH) simp
  show ?case
    by (auto intro!: post_skip post_ret stop error rest simp del: nibble_loop.simps(1)
        split: option.split)
qed

text \<open>\<open>stored_one_more\<close>: at most one byte has been stored that the result does not count.\<close>

definition stored_one_more :: "nat \<Rightarrow> int \<times> u8 list \<Rightarrow> bool" where
  "stored_one_more len res \<longleftrightarrow> (case res of (r, buf) \<Rightarrow>
     length buf \<le> len \<and> (int (length buf) = r \<or> int (length buf) = r + 1))"

lemma byte_loop_bounds:
  "count = length buf \<Longrightarrow> count + left = len \<Longrightarrow>
     post (byte_loop E P left count buf) s (\<lambda>res _. stored_one_more len res)"
proof (induction left arbitrary: count buf s)
  case 0
  then show ?case by (auto intro: post_ret simp: stored_one_more_def)
next
  case (Suc left)
  then show ?case by (auto intro!: post_skip post_ret simp: stored_one_more_def)
qed

lemma epp_read_loop_bounds:
  "count = length buf \<Longrightarrow> count + left = len \<Longrightarrow>
     post (epp_read_loop P left count buf) s (\<lambda>res _. stored_one_more len res)"
proof (induction left arbitrary: count buf s)
  case 0
  then show ?case by (auto intro: post_ret simp: stored_one_more_def)
next
  case (Suc left)
  then show ?case by (auto intro!: post_skip post_ret simp: stored_one_more_def)
qed

lemma byte_read_stored: "post (default_byte_read E P len) s (\<lambda>res _. stored_one_more len res)"
  unfolding default_byte_read_def by (rule byte_loop_bounds) simp_all

lemma epp_read_stored: "post (default_epp_read_data P len) s (\<lambda>res _. stored_one_more len res)"
  unfolding default_epp_read_data_def
  by (rule post_skip, rule post_skip, rule post_bindp, rule post_weaken [OF epp_read_loop_bounds [of 0 "[]" len len]])
     (auto intro!: post_skip post_ret)

text \<open>The decompression of a run stays inside the buffer because of the check before it.\<close>

lemma ecp_read_loop_bounds:
  "(case rle of None \<Rightarrow> True | Some c \<Rightarrow> unat c + 1 \<le> left) \<Longrightarrow>
     post (ecp_read_loop P left rle buf) s (\<lambda>buf' _. length buf' \<le> length buf + left)"
proof (induction "2 * left + (if rle = None then 1 else 0 :: nat)" arbitrary: left rle buf s
    rule: less_induct)
  case less
  have command: "post (ecp_read_loop P left (Some c) buf) s1 (\<lambda>buf' _. length buf' \<le> length buf + left)"
    if "rle = None" "unat c + 1 \<le> left" for c s1
    using that by (intro less.hyps) auto
  have data: "post (ecp_read_loop P (left - length bs) None (buf @ bs)) s1
      (\<lambda>buf' _. length buf' \<le> length buf + left)"
    if "bs \<noteq> []" "length bs \<le> left" for bs s1
  proof -
    have "1 \<le> length bs" using that(1) by (cases bs) simp_all
    with that(2) have "2 * (left - length bs) + 1 < 2 * left" by linarith
    then have "2 * (left - length bs) + 1 < 2 * left + (if rle = None then 1 else 0)"
      by linarith
    from less.hyps [of "left - length bs" None "buf @ bs" s1] this that(2) show ?thesis by simp
  qed
  show ?case
    unfolding ecp_read_loop.simps [of P left rle buf] Let_def
    using less.prems
    by (cases rle) (auto intro!: post_if post_ret post_skip command
        data [of "replicate (unat c + 1) b" for c b, simplified] data [of "[b]" for b, simplified])
qed

definition write_result :: "nat \<Rightarrow> int \<Rightarrow> bool" where
  "write_result len r \<longleftrightarrow> 0 \<le> r \<and> r \<le> int len"

lemma compat_loop_bounds:
  "count + length buffer = len \<Longrightarrow>
     post (compat_loop E P len count buffer) s (\<lambda>r _. write_result len r)"
proof (induction buffer arbitrary: count s)
  case Nil
  then show ?case by (auto intro: post_ret simp: write_result_def)
next
  case (Cons b buffer)
  then show ?case by (auto intro!: post_skip post_ret simp: write_result_def)
qed

lemma epp_write_loop_bounds:
  "n + length buffer = len \<Longrightarrow> post (epp_write_loop E P n buffer) s (\<lambda>r _. write_result len r)"
proof (induction buffer arbitrary: n s)
  case Nil
  then show ?case by (auto intro: post_ret simp: write_result_def)
next
  case (Cons b buffer)
  then show ?case by (auto intro!: post_skip post_ret simp: write_result_def)
qed

lemma ecp_write_loop_bounds:
  "n + length buffer = len \<Longrightarrow> post (ecp_write_loop E P n buffer) s (\<lambda>r _. write_result len r)"
proof (induction buffer arbitrary: n s)
  case Nil
  then show ?case by (auto intro: post_ret simp: write_result_def)
next
  case (Cons b buffer)
  then show ?case by (auto intro!: post_skip post_ret simp: write_result_def)
qed

subsection \<open>Nibbles\<close>

text \<open>
  A peripheral puts bits 0 to 2 of a nibble on nFault, Select and PError and bit 3 on Busy.
  The status byte it presents that way, whatever the other lines:
\<close>

definition nibble_status :: "u8 \<Rightarrow> nat \<Rightarrow> int \<Rightarrow> bool" where
  "nibble_status b k st \<longleftrightarrow> bit st 3 = bit b k \<and> bit st 4 = bit b (k + 1) \<and>
     bit st 5 = bit b (k + 2) \<and> bit st 7 = bit b (k + 3)"

lemma take_bit_bits:
  "take_bit 3 (x :: int) = of_bool (bit x 0) + 2 * of_bool (bit x 1) + 4 * of_bool (bit x 2)"
  "take_bit 8 (x :: int) = of_bool (bit x 0) + 2 * of_bool (bit x 1) + 4 * of_bool (bit x 2)
     + 8 * of_bool (bit x 3) + 16 * of_bool (bit x 4) + 32 * of_bool (bit x 5)
     + 64 * of_bool (bit x 6) + 128 * of_bool (bit x 7)"
  by (simp_all add: numeral_eq_Suc take_bit_Suc_from_most)

lemma and_bits: "(x :: int) AND 7 = take_bit 3 x" "(x :: int) AND 0x10 = 16 * of_bool (bit x 4)"
proof -
  show "x AND 7 = take_bit 3 x"
    by (simp add: take_bit_eq_mask mask_eq_exp_minus_1)
  have "x AND 2 ^ n = 2 ^ n * of_bool (bit x n)" for n
    by (cases "bit x n"; rule bit_eqI) (auto simp: bit_simps)
  from this [of 4] show "x AND 0x10 = 16 * of_bool (bit x 4)" by simp
qed

lemma nibble_low_val:
  "nibble_low st = of_bool (bit st 3) + 2 * of_bool (bit st 4) + 4 * of_bool (bit st 5)
     + 8 * of_bool (bit st 7)"
  by (simp add: nibble_low_def Let_def and_bits take_bit_bits bit_drop_bit_eq)

lemma nibble_high_low: "nibble_high st = nibble_low st"
proof -
  have "take_bit 3 y AND 8 = 0" for y :: int
    using and_exp_eq_0_iff_not_bit [of "take_bit 3 y" 3] by (simp add: bit_take_bit_iff)
  then have "take_bit 3 y AND 8 * of_bool c = 0" for y :: int and c
    by (cases c) simp_all
  then have "take_bit 3 y OR 8 * of_bool c = take_bit 3 y + 8 * of_bool c" for y :: int and c
    by (simp add: disjunctive_add_eq_or)
  from this [of "drop_bit 3 st" "bit st 7"] show ?thesis
    by (cases "bit st 7") (simp_all add: nibble_high_def nibble_low_def Let_def and_bits bit_drop_bit_eq)
qed

lemma nibble_roundtrip:
  assumes "nibble_status b 0 st1" and "nibble_status b 4 st2"
  shows "nibble_byte (nibble_low st1) (nibble_high st2) = b"
proof -
  have "take_bit 8 (uint b) = uint b"
    using bintr_uint [of 8 b] by simp
  moreover have "push_bit 4 (nibble_low st2) + nibble_low st1 = take_bit 8 (uint b)"
    using assms
    by (simp add: nibble_status_def nibble_low_val take_bit_bits push_bit_eq_mult bit_uint_iff
        numeral_2_eq_2)
  moreover have "uint b AND 255 = take_bit 8 (uint b)"
    by (simp add: take_bit_eq_mask mask_eq_exp_minus_1)
  ultimately show ?thesis
    by (simp add: nibble_byte_def nibble_high_low)
qed

subsection \<open>Frames, modes and phases\<close>

context pin_laws
begin

lemma byte_read_core: "keeps core (default_byte_read E P len)"
proof -
  have "keeps core (byte_loop E P left count buf)" for left count buf
    by (induction left arbitrary: count buf) (auto intro!: keeps_intro pin_core)
  then show ?thesis by (simp add: default_byte_read_def)
qed

lemma epp_read_core: "keeps core (default_epp_read_data P len)"
proof -
  have "keeps core (epp_read_loop P left count buf)" for left count buf
    by (induction left arbitrary: count buf) (auto intro!: keeps_intro pin_core)
  then show ?thesis
    unfolding default_epp_read_data_def by (intro keeps_intro pin_core)
qed

lemma poll_port_core: "keeps core (poll_port E P m v usec)"
proof -
  have "keeps core (poll_port_loop E P m v i left)" for i left
    by (induction left arbitrary: i) (auto intro!: keeps_intro pin_core)
  then show ?thesis by (simp add: poll_port_def)
qed

lemma epp_write_core: "keeps core (default_epp_write_data E P buffer)"
proof -
  have "keeps core (epp_write_loop E P n buffer)" for n buffer
    by (induction buffer arbitrary: n) (auto intro!: keeps_intro pin_core poll_port_core)
  then show ?thesis
    unfolding default_epp_write_data_def by (intro keeps_intro pin_core)
qed

lemma nibble_half_core: "keeps core (nibble_half P)"
  unfolding nibble_half_def by (intro keeps_intro pin_core)

lemma ecp_read_loop_core: "keeps core (ecp_read_loop P left rle buf)"
proof (induction "2 * left + (if rle = None then 1 else 0 :: nat)" arbitrary: left rle buf
    rule: less_induct)
  case less
  have wait: "keeps core (wait_event_43 P)"
    unfolding wait_event_43_def by (intro keeps_intro pin_core)
  have command: "rle = None \<Longrightarrow> keeps core (ecp_read_loop P left (Some c) buf)" for c
    by (rule less.hyps) simp
  have data: "keeps core (ecp_read_loop P (left - Suc n) None bs)" if "left \<noteq> 0" for n bs
  proof (rule less.hyps)
    have "2 * (left - Suc n) + 1 < 2 * left" using that by linarith
    then show "2 * (left - Suc n) + (if None = None then 1 else 0) <
        2 * left + (if rle = None then 1 else 0)"
      by simp
  qed
  show ?case
    unfolding ecp_read_loop.simps [of P left rle buf] Let_def
    using data [of 0]
    by (cases rle) (auto intro!: keeps_intro pin_core wait command data)
qed

lemma ecp_offer_byte_core: "keeps core (ecp_offer_byte E P byte)"
proof -
  have "keeps core (event_36_loop P retries)" for retries
    by (induction retries) (auto intro!: keeps_intro pin_core)
  then show ?thesis
    unfolding ecp_offer_byte_def host_transfer_recovery_def
    by (intro keeps_intro pin_core) simp
qed

lemma ecp_write_loop_core: "keeps core (ecp_write_loop E P n buffer)"
  by (induction buffer arbitrary: n) (auto intro!: keeps_intro pin_core ecp_offer_byte_core)

end

context dir_laws
begin

lemma ecp_read_core: "keeps core_phase (default_ecp_read_data P len)"
  unfolding default_ecp_read_data_def
  by (intro keeps_intro pin_core_phase fwd_to_rev_core ecp_read_loop_core [THEN keeps_core_phase]) simp_all

lemma ecp_write_core: "keeps core_phase (ecp_write E P level buffer)"
  unfolding ecp_write_def
  by (intro keeps_intro pin_core_phase rev_to_fwd_core ecp_write_loop_core [THEN keeps_core_phase]) simp_all

text \<open>
  A read ends in the reverse idle phase; only when the bus could not be turned round nothing
  is read and the direction is unknown.
\<close>

lemma ecp_read_post:
  "post (default_ecp_read_data P len) s (\<lambda>(r, buf) s'.
     r = int (length buf) \<and> length buf \<le> len \<and>
     (current_phase (prt s') = PH1284_REV_IDLE \<or>
      current_phase (prt s') = PH1284_ECP_DIR_UNKNOWN \<and> buf = []))"
proof -
  have rest: "post (ecp_read_loop P len None []) s1 (\<lambda>buf s'. post
      (bindp (upd (\<lambda>p. p\<lparr>current_phase := PH1284_REV_IDLE\<rparr>)) (\<lambda>_. ret (int (length buf), buf))) s'
      (\<lambda>(r, buf) s'. r = int (length buf) \<and> length buf \<le> len \<and>
        (current_phase (prt s') = PH1284_REV_IDLE \<or>
         current_phase (prt s') = PH1284_ECP_DIR_UNKNOWN \<and> buf = [])))" for s1
    by (rule post_weaken [OF ecp_read_loop_bounds]) (auto intro!: wp_intro)
  show ?thesis
    unfolding default_ecp_read_data_def
    by (intro wp_intro post_weaken [OF fwd_to_rev_phase] postI [of "p_frob_control _ _ _"] rest)
       (auto simp: truth_def)
qed

lemma ecp_write_post:
  "post (ecp_write E P level buffer) s (\<lambda>r s'.
     0 \<le> r \<and> r \<le> int (length buffer) \<and>
     (current_phase (prt s') = PH1284_FWD_IDLE \<or>
      current_phase (prt s') = PH1284_ECP_DIR_UNKNOWN \<and> r = 0))"
proof -
  have rest: "post (ecp_write_loop E P 0 buffer) s1 (\<lambda>written s'. post
      (bindp (upd (\<lambda>p. p\<lparr>current_phase := PH1284_FWD_IDLE\<rparr>)) (\<lambda>_. ret written)) s'
      (\<lambda>r s'. 0 \<le> r \<and> r \<le> int (length buffer) \<and>
        (current_phase (prt s') = PH1284_FWD_IDLE \<or>
         current_phase (prt s') = PH1284_ECP_DIR_UNKNOWN \<and> r = 0)))" for s1
    by (rule post_weaken [OF ecp_write_loop_bounds [of 0 _ "length buffer"]])
       (auto intro!: wp_intro simp: write_result_def)
  show ?thesis
    unfolding ecp_write_def
    by (intro wp_intro post_weaken [OF rev_to_fwd_phase] postI [of "p_frob_control _ _ _"] rest)
       (auto simp: truth_def)
qed

end

text \<open>
  A transfer that fails in the middle terminates: then the port is back in compatibility
  mode and the result counts the bytes that went through.
\<close>

context mode_laws
begin

lemma nibble_read_core: "keeps core_mode (default_nibble_read P len)"
proof -
  have "keeps core_mode (nibble_loop P len left buffer)" for left buffer
  proof (induction left arbitrary: buffer)
    case 0
    show ?case by (simp add: keeps_ret)
  next
    case (Suc left)
    have error: "keeps core_mode (nibble_error P buffer)"
      unfolding nibble_error_def by (intro keeps_intro terminate_core)
    show ?case
      by (auto intro!: keeps_intro pin_core_mode error Suc.IH
          nibble_half_core [THEN keeps_core_phase, THEN keeps_core_mode] split: option.split)
  qed
  then show ?thesis by (simp add: default_nibble_read_def)
qed

lemma compat_write_core: "keeps core_mode (default_compat_write E P buffer)"
proof -
  have "keeps core_mode (compat_loop E P len count buffer)" for len count
    by (induction buffer arbitrary: count) (auto intro!: keeps_intro pin_core_mode terminate_core)
  then show ?thesis by (simp add: default_compat_write_def)
qed

lemma soft_step:
  "keeps core m \<Longrightarrow> soft s \<Longrightarrow> (\<And>a s'. soft s' \<Longrightarrow> post (k a) s' Q) \<Longrightarrow> post (bindp m k) s Q"
  by (rule post_step [of core]) (auto dest: pinD)

lemma terminate_step:
  "soft s \<Longrightarrow> (\<And>s'. current_mode (prt s') = M1284_COMPAT \<Longrightarrow> Q r s') \<Longrightarrow>
     post (bindp (p_terminate P) (\<lambda>_. ret r)) s Q"
  by (rule post_bindp, rule post_weaken [OF terminate_mode]) (auto intro: post_ret)

lemma compat_write_mode:
  assumes "soft s"
  shows "post (default_compat_write E P buffer) s (\<lambda>r s'.
     0 \<le> r \<and> r \<le> int (length buffer) \<and>
     (r < int (length buffer) \<longrightarrow> current_mode (prt s') = M1284_COMPAT))"
proof -
  have "post (compat_loop E P len count buffer) s (\<lambda>r s'.
     r < int len \<longrightarrow> current_mode (prt s') = M1284_COMPAT)" for len count
    using assms
  proof (induction buffer arbitrary: count s)
    case Nil
    show ?case by (simp add: post_ret)
  next
    case (Cons b buffer)
    have delay_core: "keeps core (delay E d)" for d by (intro keeps_intro)
    show ?case
      unfolding compat_loop.simps
      by (intro post_if soft_step [OF wait_status_core] soft_step [OF delay_core]
          soft_step [OF write_data_core] soft_step [OF write_control_core] terminate_step
          Cons.IH Cons.prems) simp_all
  qed
  from post_conj [OF compat_loop_bounds [of 0 buffer "length buffer"] this]
  show ?thesis
    by (auto simp: default_compat_write_def write_result_def elim: post_weaken)
qed

lemma nibble_read_mode:
  assumes "soft s"
  shows "post (default_nibble_read P len) s (\<lambda>(r, buf) s'.
     length buf \<le> len \<and>
     (r = int len \<or> r = int (length buf) \<and> current_mode (prt s') = M1284_COMPAT))"
proof -
  have "post (nibble_loop P len left buffer) s (\<lambda>(r, buf) s'.
     r = int len \<or> r = int (length buf) \<and> current_mode (prt s') = M1284_COMPAT)" for left buffer
    using assms
  proof (induction left arbitrary: buffer s)
    case 0
    show ?case by (simp add: post_ret)
  next
    case (Suc left)
    have error: "post (nibble_error P buffer) s1 (\<lambda>(r, buf) s'.
       r = int len \<or> r = int (length buf) \<and> current_mode (prt s') = M1284_COMPAT)"
      if "soft s1" for s1
      unfolding nibble_error_def using that by (intro terminate_step) simp_all
    have first: "keeps core (if b then p_read_status P else ret 0)" for b
      by (intro keeps_intro pin_core)
    show ?case
      unfolding nibble_loop.simps
      using Suc.prems
      by (intro post_if soft_step [OF first] soft_step [OF frob_control_core]
          soft_step [OF nibble_half_core])
         (auto intro!: post_ret error Suc.IH soft_step [OF nibble_half_core] split: option.split)
  qed
  from post_conj [OF nibble_loop_bounds [of "[]" len len] this]
  show ?thesis
    by (fastforce simp: default_nibble_read_def nibble_result_def elim: post_weaken)
qed

end

text \<open>
  What a peripheral without data gets: the result is \<^verbatim>\<open>len\<close> although nothing is stored.
\<close>

lemma nibble_no_data:
  assumes "p_read_status P s = Some (Ret st s1)" and "truth (st AND S1284_NFAULT)"
    and "p_frob_control P C1284_NAUTOFD 0 s1 = Some (Ret () s2)"
  shows "default_nibble_read P (Suc n) s = Some (Ret (int (Suc n), []) s2)"
  using assms by (simp add: default_nibble_read_def bindp_def ret_def)

text \<open>A peripheral that never lowers nAck keeps an ECP read waiting for ever.\<close>

lemma wait_event_43_diverges:
  assumes "\<And>s. I s \<Longrightarrow> total (p_wait_status P S1284_NACK 0 signal_timeout) s
             (\<lambda>r s'. r = E1284_TIMEDOUT \<and> I s')"
    and "I s"
  shows "wait_event_43 P s = None"
  unfolding wait_event_43_def
proof (rule loop_diverges [where I = I, OF _ assms(2)])
  fix s assume "I s"
  then show "total (bindp (p_wait_status P S1284_NACK 0 signal_timeout)
      (\<lambda>r. ret (if truth r then None else Some ()))) s (\<lambda>r s'. r = None \<and> I s')"
    by (intro total_bindp total_weaken [OF assms(1)]) (auto intro!: total_ret simp: truth_def)
qed

subsection \<open>The bounded transfers return\<close>

context pin_total
begin

lemma byte_read_works: "works clk ok (default_byte_read E P len)"
proof -
  have "works clk ok (byte_loop E P left count buf)" for left count buf
    by (induction left arbitrary: count buf)
       (auto intro!: works_bindp works_if works_ret pin_works simp: signal_timeout_def)
  then show ?thesis by (simp add: default_byte_read_def)
qed

lemma epp_read_works: "works clk ok (default_epp_read_data P len)"
proof -
  have "works clk ok (epp_read_loop P left count buf)" for left count buf
    by (induction left arbitrary: count buf)
       (auto intro!: works_bindp works_if works_ret pin_works simp: signal_timeout_def)
  then show ?thesis
    unfolding default_epp_read_data_def by (intro works_bindp works_ret pin_works)
qed

lemma poll_port_works: "works clk ok (poll_port E P m v usec)"
proof -
  have "works clk ok (poll_port_loop E P m v i left)" for i left
    by (induction left arbitrary: i) (auto intro!: works_bindp works_if works_ret pin_works)
  then show ?thesis by (simp add: poll_port_def)
qed

lemma epp_write_works: "works clk ok (default_epp_write_data E P buffer)"
proof -
  have "works clk ok (epp_write_loop E P n buffer)" for n buffer
    by (induction buffer arbitrary: n)
       (auto intro!: works_bindp works_if works_ret pin_works poll_port_works)
  then show ?thesis
    unfolding default_epp_write_data_def by (intro works_bindp works_ret pin_works)
qed

lemma nibble_half_works: "works clk ok (nibble_half P)"
  unfolding nibble_half_def signal_timeout_def
  by (intro works_bindp works_if works_ret pin_works)

end

context mode_total
begin

lemma nibble_read_works: "works clk ok (default_nibble_read P len)"
proof -
  have "works clk ok (nibble_loop P len left buffer)" for left buffer
  proof (induction left arbitrary: buffer)
    case 0
    show ?case by (simp add: works_ret)
  next
    case (Suc left)
    have error: "works clk ok (nibble_error P buffer)"
      unfolding nibble_error_def by (intro works_bindp works_ret terminate_works)
    show ?case
      by (auto intro!: works_bindp works_if works_ret pin_works error Suc.IH nibble_half_works
          split: option.split)
  qed
  then show ?thesis by (simp add: default_nibble_read_def)
qed

lemma compat_write_works: "works clk ok (default_compat_write E P buffer)"
proof -
  have "works clk ok (compat_loop E P len count buffer)" for len count
    by (induction buffer arbitrary: count)
       (auto intro!: works_bindp works_if works_ret pin_works terminate_works
         simp: signal_timeout_def)
  then show ?thesis by (simp add: default_compat_write_def)
qed

lemma nibble_read_total:
  "ok s \<Longrightarrow> total (default_nibble_read P len) s (\<lambda>(r, buf) s'. ok s' \<and> length buf \<le> len \<and>
     (r = int len \<or> r = int (length buf) \<and> current_mode (prt s') = M1284_COMPAT))"
  by (rule total_weaken [OF works_total [OF nibble_read_works _ nibble_read_mode]]) auto

lemma compat_write_total:
  "ok s \<Longrightarrow> total (default_compat_write E P buffer) s (\<lambda>r s'. ok s' \<and>
     0 \<le> r \<and> r \<le> int (length buffer) \<and>
     (r < int (length buffer) \<longrightarrow> current_mode (prt s') = M1284_COMPAT))"
  by (rule works_total [OF compat_write_works _ compat_write_mode])

end

subsection \<open>What is put on the data lines\<close>

text \<open>
  \<open>wire s\<close> is the sequence of bytes put on the data lines so far, read off the trace.  Only
  \<^verbatim>\<open>write_data\<close> extends it.
\<close>

locale wire_laws = mode_laws P soft
  for P :: "('w, 'z) mode_pins_scheme" and soft :: "'w sys \<Rightarrow> bool" +
  fixes E :: "'w env" and wire :: "'w sys \<Rightarrow> u8 list"
  assumes write_data_wire: "soft s \<Longrightarrow> post (p_write_data P b) s (\<lambda>_ s'. wire s' = wire s @ [b])"
    and data_dir_wire: "keeps wire (p_data_dir P r)"
    and read_status_wire: "keeps wire (p_read_status P)"
    and wait_status_wire: "keeps wire (p_wait_status P m v t)"
    and write_control_wire: "keeps wire (p_write_control P c)"
    and frob_control_wire: "keeps wire (p_frob_control P m v)"
    and terminate_wire: "keeps wire (p_terminate P)"
    and delay_wire: "keeps wire (delay E d)"
    and udelay_wire: "keeps wire (udelay E n)"
begin

text \<open>One step of a transfer: the law of a pin on the wire, and that the port stays soft.\<close>

lemma wire_step:
  assumes "keeps core m" and "keeps wire m" and "soft s"
    and "\<And>a s'. soft s' \<Longrightarrow> wire s' = wire s \<Longrightarrow> post (k a) s' Q"
  shows "post (bindp m k) s Q"
  using assms
  by (intro post_bindp post_weaken [OF post_conj [OF keepsD [OF assms(1)] keepsD [OF assms(2)]]])
     (auto dest: pinD)

lemma wire_data_step:
  assumes "soft s" and "\<And>a s'. soft s' \<Longrightarrow> wire s' = wire s @ [b] \<Longrightarrow> post (k a) s' Q"
  shows "post (bindp (p_write_data P b) k) s Q"
  using assms
  by (intro post_bindp post_weaken
      [OF post_conj [OF keepsD [OF write_data_core] write_data_wire [OF assms(1)]]])
     (auto dest: pinD)

lemma delays_core: "keeps core (delay E d)" "keeps core (udelay E n)"
  by (intro keeps_intro)+

lemmas wire_steps = wire_data_step wire_step [OF data_dir_core data_dir_wire]
  wire_step [OF read_status_core read_status_wire] wire_step [OF wait_status_core wait_status_wire]
  wire_step [OF write_control_core write_control_wire]
  wire_step [OF frob_control_core frob_control_wire]
  wire_step [OF delays_core(1) delay_wire] wire_step [OF delays_core(2) udelay_wire]

text \<open>A compatibility mode write puts exactly the bytes it counts on the data lines, in order.\<close>

lemma compat_write_wire:
  assumes "soft s"
  shows "post (default_compat_write E P buffer) s (\<lambda>r s'.
     \<exists>n \<le> length buffer. r = int n \<and> wire s' = wire s @ take n buffer)"
proof -
  have "post (compat_loop E P (count + length bs) count bs) s (\<lambda>r s'.
      \<exists>n \<le> length bs. r = int (count + n) \<and> wire s' = wire s @ take n bs)" for count bs
    using assms
  proof (induction bs arbitrary: count s)
    case Nil
    show ?case by (simp add: post_ret)
  next
    case (Cons b bs)
    have rest: "post (compat_loop E P (count + length (b # bs)) (count + 1) bs) s1 (\<lambda>r s'.
        \<exists>n \<le> length (b # bs). r = int (count + n) \<and> wire s' = wire s @ take n (b # bs))"
      if "soft s1" "wire s1 = wire s @ [b]" for s1
    proof -
      from Cons.IH [OF that(1), of "count + 1"]
      have "post (compat_loop E P (count + length (b # bs)) (count + 1) bs) s1 (\<lambda>r s'.
        \<exists>n \<le> length bs. r = int (count + 1 + n) \<and> wire s' = wire s1 @ take n bs)" by simp
      then show ?thesis
        using that(2) by (elim post_weaken) (fastforce intro: exI [where x = "Suc n" for n])
    qed
    have stop: "post (bindp (p_terminate P) (\<lambda>_. ret (int count))) s1 (\<lambda>r s'.
        \<exists>n \<le> length (b # bs). r = int (count + n) \<and> wire s' = wire s @ take n (b # bs))"
      if "wire s1 = wire s" for s1
      by (rule post_step [OF terminate_wire]) (auto intro!: post_ret exI [where x = 0] simp: that)
    show ?case
      unfolding compat_loop.simps
      by (intro post_if wire_steps stop rest Cons.prems) simp_all
  qed
  from this [of 0] show ?thesis by (simp add: default_compat_write_def)
qed

text \<open>
  An EPP write puts the bytes it counts on the data lines, and at most one more that the
  peripheral did not take.
\<close>

lemma epp_write_wire:
  assumes "soft s"
  shows "post (default_epp_write_data E P buffer) s (\<lambda>r s'.
     \<exists>n \<le> length buffer. (r = int n \<or> r = int n - 1) \<and> wire s' = wire s @ take n buffer)"
proof -
  have poll_wire: "keeps wire (poll_port E P m v usec)" for m v usec
  proof -
    have "keeps wire (poll_port_loop E P m v i left)" for i left
      by (induction left arbitrary: i) (auto intro!: keeps_intro read_status_wire udelay_wire)
    then show ?thesis by (simp add: poll_port_def)
  qed
  have loop: "post (epp_write_loop E P count bs) s (\<lambda>r s'. \<exists>n \<le> length bs.
      (r = int (count + n) \<or> r = int (count + n) - 1) \<and> wire s' = wire s @ take n bs)"
    if "soft s" for count bs s
    using that
  proof (induction bs arbitrary: count s)
    case Nil
    show ?case by (simp add: post_ret)
  next
    case (Cons b bs)
    have rest: "post (epp_write_loop E P (count + 1) bs) s1 (\<lambda>r s'. \<exists>n \<le> length (b # bs).
        (r = int (count + n) \<or> r = int (count + n) - 1) \<and> wire s' = wire s @ take n (b # bs))"
      if "soft s1" "wire s1 = wire s @ [b]" for s1
      using Cons.IH [OF that(1), of "count + 1"] that(2)
      by (elim post_weaken) (fastforce intro: exI [where x = "Suc n" for n])
    have stop: "post (ret (int count)) s1 (\<lambda>r s'. \<exists>n \<le> length (b # bs).
        (r = int (count + n) \<or> r = int (count + n) - 1) \<and> wire s' = wire s @ take n (b # bs))"
      if "wire s1 = wire s @ [b]" for s1
      by (rule post_ret, rule exI [where x = 1]) (simp add: that)
    show ?case
      unfolding epp_write_loop.simps
      by (intro post_if wire_steps wire_step [OF poll_port_core poll_wire] stop rest Cons.prems)
         simp_all
  qed
  have "post (epp_write_loop E P 0 buffer) s1 (\<lambda>r s'. \<exists>n \<le> length buffer.
      (r = int n \<or> r = int n - 1) \<and> wire s' = wire s @ take n buffer)"
    if "soft s1" "wire s1 = wire s" for s1
    using loop [OF that(1), of 0 buffer] that(2) by simp
  then show ?thesis
    unfolding default_epp_write_data_def by (intro wire_steps assms) simp_all
qed

end

end
