(* ===== verification/Access_Ppdev.thy ===== *)
theory Access_Ppdev
  imports Transfers
begin

section \<open>The ppdev kernel driver: \<^verbatim>\<open>src/access_ppdev.c\<close>\<close>

text \<open>
  The access methods that drive a port through Linux' ppdev driver: every pin operation is
  an \<^verbatim>\<open>ioctl\<close>, negotiation and the transfers are left to the kernel.  The private data of
  the port (\<^verbatim>\<open>struct ppdev_priv\<close>) is \<open>Some\<close> record while it is allocated; its timer is
  \<open>None\<close> as long as nothing has been stored there.  Transfers return their C result and the
  bytes that the kernel has stored in the caller's buffer.
\<close>

abbreviation (input) PARPORT_MODE_PCSPP :: int where "PARPORT_MODE_PCSPP \<equiv> 1"
abbreviation (input) PARPORT_MODE_TRISTATE :: int where "PARPORT_MODE_TRISTATE \<equiv> 2"
abbreviation (input) PARPORT_MODE_EPP :: int where "PARPORT_MODE_EPP \<equiv> 4"
abbreviation (input) PARPORT_MODE_ECP :: int where "PARPORT_MODE_ECP \<equiv> 8"
abbreviation (input) PARPORT_MODE_DMA :: int where "PARPORT_MODE_DMA \<equiv> 32"
abbreviation (input) PP_FASTWRITE :: int where "PP_FASTWRITE \<equiv> 4"
abbreviation (input) PP_FASTREAD :: int where "PP_FASTREAD \<equiv> 8"
abbreviation (input) O_NONBLOCK :: int where "O_NONBLOCK \<equiv> 2048"
abbreviation (input) EIO :: int where "EIO \<equiv> 5"
abbreviation (input) ENXIO :: int where "ENXIO \<equiv> 6"
abbreviation (input) EAGAIN :: int where "EAGAIN \<equiv> 11"

subsection \<open>System calls on the port's descriptor\<close>

definition dev_ioctl :: "'w env \<Rightarrow> ioctl \<Rightarrow> (ioctl_reply, 'w sys) prog" where
  "dev_ioctl E req =
     bindp (gets (\<lambda>s. fd (prt s))) (\<lambda>d.
     env_call (env_ioctl E d req) (\<lambda>r. [Ioctl d req (reply_ret r)]))"

definition the_priv :: "(ppdev_priv, 'w sys) prog" where
  "the_priv = bindp (gets (\<lambda>s. access_priv (prt s))) (\<lambda>p.
     case p of None \<Rightarrow> fail Null_deref | Some q \<Rightarrow> ret q)"

definition upd_priv :: "(ppdev_priv \<Rightarrow> ppdev_priv) \<Rightarrow> (unit, 'w sys) prog" where
  "upd_priv f = upd (\<lambda>p. p\<lparr>access_priv := map_option f (access_priv p)\<rparr>)"

text \<open>\<^verbatim>\<open>open\<close> of a path that may be null, which the kernel rejects (EFAULT).\<close>

definition open_path :: "'w env \<Rightarrow> string option \<Rightarrow> (int, 'w sys) prog" where
  "open_path E path = (case path of None \<Rightarrow> ret (-1) | Some f \<Rightarrow> io_open E f O_RDWR_NOCTTY)"

definition dev_close :: "'w env \<Rightarrow> (unit, 'w sys) prog" where
  "dev_close E = bindp (gets (\<lambda>s. fd (prt s))) (\<lambda>d. env_do (env_close E d) [Close d])"

subsection \<open>Opening and closing\<close>

definition ppdev_find_capabilities :: "'w env \<Rightarrow> int \<Rightarrow> (int, 'w sys) prog" where
  "ppdev_find_capabilities E c =
     bindp (dev_ioctl E PPCLAIM) (\<lambda>r1.
     if truth (reply_ret r1) then ret (c OR (CAP1284_ECP OR CAP1284_ECPRLE OR CAP1284_EPP))
     else
     bindp (dev_ioctl E PPGETMODES) (\<lambda>r2.
     if truth (reply_ret r2)
     then bindp (dev_ioctl E PPRELEASE) (\<lambda>_.
          ret (c OR (CAP1284_ECP OR CAP1284_ECPRLE OR CAP1284_EPP)))
     else
     bindp (dev_ioctl E PPRELEASE) (\<lambda>_.
     let m = reply_int r2;
         c1 = (if truth (m AND PARPORT_MODE_PCSPP) then c OR CAP1284_RAW else c);
         c2 = (if truth (m AND PARPORT_MODE_EPP) then c1 OR CAP1284_EPP else c1);
         c3 = (if truth (m AND PARPORT_MODE_ECP) then c2 OR (CAP1284_ECP OR CAP1284_ECPRLE) else c2);
         c4 = (if truth (m AND PARPORT_MODE_DMA) then c3 OR CAP1284_DMA else c3)
     in ret (if \<not> truth (m AND PARPORT_MODE_TRISTATE)
             then c4 AND NOT (CAP1284_BYTE OR CAP1284_ECPSWE) else c4))))"

definition ppdev_init :: "'w env \<Rightarrow> int \<Rightarrow> int option \<Rightarrow> (int \<times> int option, 'w sys) prog" where
  "ppdev_init E flags caps =
     (if truth (flags AND NOT F1284_EXCL) then ret (E1284_NOTAVAIL, caps)
      else
      bindp (env_call (env_malloc E 24) (\<lambda>_. [])) (\<lambda>got.
      if \<not> got then bindp (upd (\<lambda>p. p\<lparr>access_priv := None\<rparr>)) (\<lambda>_. ret (E1284_NOMEM, caps))
      else
      bindp (upd (\<lambda>p. p\<lparr>access_priv := Some \<lparr> inactivity_timer = None, nonblock = 0,
                                             current_flags = 0 \<rparr>\<rparr>)) (\<lambda>_.
      bindp (gets prt) (\<lambda>p.
      bindp (open_path E (device p)) (\<lambda>d1.
      bindp (upd (\<lambda>p. p\<lparr>fd := d1\<rparr>)) (\<lambda>_.
      bindp (if d1 < 0
             then bindp (if udevice p \<noteq> None
                         then bindp (open_path E (udevice p)) (\<lambda>d2. upd (\<lambda>p. p\<lparr>fd := d2\<rparr>))
                         else ret ()) (\<lambda>_.
                  bindp (gets (\<lambda>s. fd (prt s))) (\<lambda>d.
                  if d < 0
                  then bindp (upd (\<lambda>p. p\<lparr>access_priv := None\<rparr>)) (\<lambda>_. ret False)
                  else bindp (modify (\<lambda>s. s\<lparr>pub := (pub s)\<lparr>filename := udevice p\<rparr>\<rparr>)) (\<lambda>_.
                       ret True)))
             else bindp (modify (\<lambda>s. s\<lparr>pub := (pub s)\<lparr>filename := device p\<rparr>\<rparr>)) (\<lambda>_.
                  ret True)) (\<lambda>is_open.
      if \<not> is_open then ret (E1284_INIT, caps)
      else
      bindp (upd (\<lambda>p. p\<lparr>current_mode := M1284_COMPAT\<rparr>)) (\<lambda>_.
      bindp (if truth (flags AND F1284_EXCL) then dev_ioctl E PPEXCL
             else ret \<lparr> reply_ret = 0, reply_int = 0, reply_time = \<lparr> tv_sec = 0, tv_usec = 0 \<rparr> \<rparr>) (\<lambda>r.
      if truth (reply_ret r)
      then bindp (dev_close E) (\<lambda>_.
           bindp (upd (\<lambda>p. p\<lparr>access_priv := None\<rparr>)) (\<lambda>_. ret (E1284_INIT, caps)))
      else
      bindp (if interrupt p = -1
             then bindp (upd (\<lambda>p. p\<lparr>fn := (fn p)\<lparr>m_do_nack_handshake := Some Default_do_nack_handshake\<rparr>\<rparr>)) (\<lambda>_.
                  ret caps)
             else ret (or_caps caps CAP1284_IRQ)) (\<lambda>caps1.
      case caps1 of
        None \<Rightarrow> ret (E1284_OK, None)
      | Some c \<Rightarrow> bindp (ppdev_find_capabilities E c) (\<lambda>c'. ret (E1284_OK, Some c'))))))))))))"

definition ppdev_cleanup :: "'w env \<Rightarrow> (unit, 'w sys) prog" where
  "ppdev_cleanup E =
     bindp (upd (\<lambda>p. p\<lparr>access_priv := None\<rparr>)) (\<lambda>_.
     bindp (gets (\<lambda>s. fd (prt s))) (\<lambda>d.
     if 0 \<le> d then dev_close E else ret ()))"

definition ppdev_claim :: "'w env \<Rightarrow> (int, 'w sys) prog" where
  "ppdev_claim E = bindp (dev_ioctl E PPCLAIM) (\<lambda>r.
     ret (if truth (reply_ret r) then E1284_SYS else E1284_OK))"

definition ppdev_release :: "'w env \<Rightarrow> (unit, 'w sys) prog" where
  "ppdev_release E = bindp (dev_ioctl E PPRELEASE) (\<lambda>_. ret ())"

definition ppdev_get_irq_fd :: "(int, 'w sys) prog" where
  "ppdev_get_irq_fd = gets (\<lambda>s. fd (prt s))"

text \<open>The second result is what \<^verbatim>\<open>*count\<close> holds afterwards, when the pointer is not null.\<close>

definition ppdev_clear_irq :: "'w env \<Rightarrow> int option \<Rightarrow> (int \<times> int option, 'w sys) prog" where
  "ppdev_clear_irq E count =
     bindp (dev_ioctl E PPCLRIRQ) (\<lambda>r.
     if truth (reply_ret r) then ret (E1284_SYS, count)
     else ret (E1284_OK, map_option (\<lambda>_. reply_int r) count))"

subsection \<open>Pins\<close>

definition ppdev_read_data :: "'w env \<Rightarrow> (int, 'w sys) prog" where
  "ppdev_read_data E = bindp (dev_ioctl E PPRDATA) (\<lambda>r.
     if truth (reply_ret r) then ret E1284_NOTAVAIL else ret (uint (uchar (reply_int r))))"

definition ppdev_write_data :: "'w env \<Rightarrow> u8 \<Rightarrow> (unit, 'w sys) prog" where
  "ppdev_write_data E reg = bindp (dev_ioctl E (PPWDATA reg)) (\<lambda>_. ret ())"

definition ppdev_read_status :: "'w env \<Rightarrow> (int, 'w sys) prog" where
  "ppdev_read_status E = bindp (dev_ioctl E PPRSTATUS) (\<lambda>r.
     if truth (reply_ret r) then ret E1284_NOTAVAIL
     else ret (uint (uchar (reply_int r) XOR S1284_INVERTED)))"

definition ppdev_read_control :: "'w env \<Rightarrow> (int, 'w sys) prog" where
  "ppdev_read_control E = bindp (dev_ioctl E PPRCONTROL) (\<lambda>r.
     if truth (reply_ret r) then ret E1284_NOTAVAIL
     else ret (uint ((uchar (reply_int r) XOR C1284_INVERTED) AND control_lines)))"

definition ppdev_data_dir :: "'w env \<Rightarrow> int \<Rightarrow> (int, 'w sys) prog" where
  "ppdev_data_dir E reverse = bindp (dev_ioctl E (PPDATADIR reverse)) (\<lambda>r.
     ret (if truth (reply_ret r) then E1284_SYS else E1284_OK))"

definition ppdev_write_control :: "'w env \<Rightarrow> u8 \<Rightarrow> (unit, 'w sys) prog" where
  "ppdev_write_control E reg =
     bindp (if reg AND 0x20 \<noteq> 0 then ppdev_data_dir E 1 else ret E1284_OK) (\<lambda>_.
     bindp (dev_ioctl E (PPWCONTROL ((reg AND control_lines) XOR C1284_INVERTED))) (\<lambda>_. ret ()))"

definition ppdev_frob_control :: "'w env \<Rightarrow> u8 \<Rightarrow> u8 \<Rightarrow> (unit, 'w sys) prog" where
  "ppdev_frob_control E msk val =
     bindp (if msk AND 0x20 \<noteq> 0 then ppdev_data_dir E (uint (val AND 0x20)) else ret E1284_OK) (\<lambda>_.
     bindp (dev_ioctl E (PPFCONTROL msk (val XOR (msk AND C1284_INVERTED)))) (\<lambda>_. ret ()))"

text \<open>A failing read of the status gives the negative error code, whose low byte is compared.\<close>

definition ppdev_wait_status :: "'w env \<Rightarrow> u8 \<Rightarrow> u8 \<Rightarrow> timeval \<Rightarrow> (int, 'w sys) prog" where
  "ppdev_wait_status E msk val timeout =
     poll_until E (bindp (ppdev_read_status E) (\<lambda>st. ret (uchar st AND msk = val))) timeout"

definition ppdev_do_nack_handshake ::
  "'w env \<Rightarrow> u8 \<Rightarrow> u8 \<Rightarrow> timeval \<Rightarrow> (int, 'w sys) prog" where
  "ppdev_do_nack_handshake E ct_before ct_after timeout =
     bindp (dev_ioctl E PPCLRIRQ) (\<lambda>r1.
     if truth (reply_ret r1) then ret E1284_NOTAVAIL
     else
     bindp (dev_ioctl E (PPWCTLONIRQ ct_after)) (\<lambda>r2.
     if truth (reply_ret r2) then ret E1284_NOTAVAIL
     else
     bindp (ppdev_write_control E ct_before) (\<lambda>_.
     bindp (gets (\<lambda>s. fd (prt s))) (\<lambda>d.
     bindp (env_call (env_select_read E d timeout) (\<lambda>_. [])) (\<lambda>n.
     if n = 0 then ret E1284_TIMEDOUT
     else if n = -1 then ret E1284_NOTAVAIL
     else bindp (dev_ioctl E PPCLRIRQ) (\<lambda>_. ret E1284_OK))))))"

subsection \<open>Modes\<close>

definition which_mode :: "int \<Rightarrow> int \<Rightarrow> int" where
  "which_mode mode flags =
     (if truth (mode AND (M1284_FLAG_DEVICEID OR M1284_FLAG_EXT_LINK)) then mode
      else if mode = M1284_NIBBLE \<or> mode = M1284_BYTE \<or> mode = M1284_COMPAT
           \<or> mode = M1284_ECPRLE \<or> mode = M1284_ECPSWE \<or> mode = M1284_EPPSWE then mode
      else if mode = M1284_ECP then
        (if truth (flags AND F1284_RLE) then M1284_ECPRLE
         else if truth (flags AND F1284_SWE) then M1284_ECPSWE
         else if truth (flags AND NOT F1284_NONBLOCK) then E1284_NOTIMPL
         else M1284_ECP)
      else if mode = M1284_EPP then
        (if truth (flags AND F1284_SWE) then M1284_EPPSWE
         else if truth (flags AND NOT (F1284_FASTEPP OR F1284_NONBLOCK)) then E1284_NOTIMPL
         else M1284_EPP)
      else E1284_NOTIMPL)"

definition translate_error_code :: "int \<Rightarrow> int" where
  "translate_error_code e =
     (if e = - EAGAIN then E1284_TIMEDOUT else if e < 0 then E1284_SYS else e)"

definition ppdev_set_mode :: "'w env \<Rightarrow> int \<Rightarrow> int \<Rightarrow> bool \<Rightarrow> (int, 'w sys) prog" where
  "ppdev_set_mode E mode flags addr =
     (let m0 = which_mode mode flags in
      if m0 < 0 then ret m0
      else
      let m = m0 OR (if addr then IEEE1284_ADDR else IEEE1284_DATA);
          f = (if mode = M1284_EPP \<and> truth (flags AND F1284_FASTEPP)
               then PP_FASTREAD OR PP_FASTWRITE else 0)
      in
      bindp (gets (\<lambda>s. current_mode (prt s))) (\<lambda>cm.
      bindp (if cm \<noteq> m
             then bindp (dev_ioctl E (PPSETMODE m)) (\<lambda>r.
                  let e = translate_error_code (reply_ret r) in
                  bindp (if e = 0 then upd (\<lambda>p. p\<lparr>current_mode := m\<rparr>) else ret ()) (\<lambda>_. ret e))
             else ret E1284_OK) (\<lambda>ret1.
      bindp the_priv (\<lambda>priv.
      if current_flags priv \<noteq> f \<and> mode = M1284_EPP
      then bindp (dev_ioctl E (PPSETFLAGS f)) (\<lambda>r.
           let e = translate_error_code (reply_ret r) in
           bindp (if e = 0 then upd_priv (\<lambda>q. q\<lparr>current_flags := f\<rparr>) else ret ()) (\<lambda>_. ret e))
      else ret ret1))))"

definition ppdev_do_nonblock :: "'w env \<Rightarrow> int \<Rightarrow> (int, 'w sys) prog" where
  "ppdev_do_nonblock E flags =
     bindp the_priv (\<lambda>priv.
     bindp (gets (\<lambda>s. fd (prt s))) (\<lambda>d.
     if truth (flags AND F1284_NONBLOCK) \<and> nonblock priv = 0
     then bindp (env_call (env_getfl E d) (\<lambda>_. [])) (\<lambda>f.
          if f = -1 then ret (-1)
          else bindp (env_call (env_setfl E d (f OR O_NONBLOCK)) (\<lambda>_. [Setfl d (f OR O_NONBLOCK)])) (\<lambda>r.
               ret (if truth r then -1 else 0)))
     else if \<not> truth (flags AND F1284_NONBLOCK) \<and> nonblock priv \<noteq> 0
     then bindp (env_call (env_getfl E d) (\<lambda>_. [])) (\<lambda>f.
          if f = -1 then ret (-1)
          else bindp (env_call (env_setfl E d (f AND O_NONBLOCK)) (\<lambda>_. [Setfl d (f AND O_NONBLOCK)])) (\<lambda>r.
               ret (if truth r then -1 else 0)))
     else ret 0))"

definition ppdev_negotiate :: "'w env \<Rightarrow> int \<Rightarrow> (int, 'w sys) prog" where
  "ppdev_negotiate E mode =
     bindp (dev_ioctl E (PPNEGOT (which_mode mode 0))) (\<lambda>r.
     if \<not> truth (reply_ret r)
     then bindp (upd (\<lambda>p. p\<lparr>current_mode := mode\<rparr>)) (\<lambda>_. ret (translate_error_code (reply_ret r)))
     else
     bindp (gets (\<lambda>s. env_errno E (world s))) (\<lambda>errno.
     if errno = EIO then ret E1284_NEGFAILED
     else if errno = ENXIO then ret E1284_REJECTED
     else ret (translate_error_code (reply_ret r))))"

definition ppdev_terminate :: "'w env \<Rightarrow> (unit, 'w sys) prog" where
  "ppdev_terminate E =
     bindp (dev_ioctl E (PPNEGOT M1284_COMPAT)) (\<lambda>r.
     bindp (if \<not> truth (reply_ret r) then upd (\<lambda>p. p\<lparr>current_mode := M1284_COMPAT\<rparr>) else ret ()) (\<lambda>_.
     delay E IO_POLL_DELAY))"

subsection \<open>Transfers\<close>

text \<open>
  All transfers have one shape: adjust the blocking mode of the descriptor, set the mode,
  read or write.
\<close>

definition dev_read :: "'w env \<Rightarrow> nat \<Rightarrow> (int \<times> u8 list, 'w sys) prog" where
  "dev_read E len =
     bindp (gets (\<lambda>s. fd (prt s))) (\<lambda>d.
     bindp (env_call (env_read E d (int len)) (\<lambda>(n, _). [Read d (int len) n])) (\<lambda>(n, bytes).
     ret (translate_error_code n, bytes)))"

definition dev_write :: "'w env \<Rightarrow> u8 list \<Rightarrow> (int, 'w sys) prog" where
  "dev_write E buffer =
     bindp (gets (\<lambda>s. fd (prt s))) (\<lambda>d.
     bindp (env_call (env_write E d buffer) (\<lambda>n. [Write d buffer n])) (\<lambda>n.
     ret (translate_error_code n)))"

definition ppdev_read ::
  "'w env \<Rightarrow> int \<Rightarrow> int \<Rightarrow> int \<Rightarrow> bool \<Rightarrow> nat \<Rightarrow> (int \<times> u8 list, 'w sys) prog" where
  "ppdev_read E flags mode mflags addr len =
     bindp (ppdev_do_nonblock E flags) (\<lambda>r1.
     if truth r1 then ret (r1, [])
     else bindp (ppdev_set_mode E mode mflags addr) (\<lambda>r2.
     if truth r2 then ret (r2, [])
     else dev_read E len))"

definition ppdev_write ::
  "'w env \<Rightarrow> int \<Rightarrow> int \<Rightarrow> int \<Rightarrow> bool \<Rightarrow> u8 list \<Rightarrow> (int, 'w sys) prog" where
  "ppdev_write E flags mode mflags addr buffer =
     bindp (ppdev_do_nonblock E flags) (\<lambda>r1.
     if truth r1 then ret r1
     else bindp (ppdev_set_mode E mode mflags addr) (\<lambda>r2.
     if truth r2 then ret r2
     else dev_write E buffer))"

definition ppdev_nibble_read :: "'w env \<Rightarrow> int \<Rightarrow> nat \<Rightarrow> (int \<times> u8 list, 'w sys) prog" where
  "ppdev_nibble_read E flags len = ppdev_read E flags M1284_NIBBLE 0 False len"

definition ppdev_compat_write :: "'w env \<Rightarrow> int \<Rightarrow> u8 list \<Rightarrow> (int, 'w sys) prog" where
  "ppdev_compat_write E flags buffer = ppdev_write E flags M1284_COMPAT 0 False buffer"

definition ppdev_byte_read :: "'w env \<Rightarrow> int \<Rightarrow> nat \<Rightarrow> (int \<times> u8 list, 'w sys) prog" where
  "ppdev_byte_read E flags len = ppdev_read E flags M1284_BYTE 0 False len"

definition ppdev_epp_read_data :: "'w env \<Rightarrow> int \<Rightarrow> nat \<Rightarrow> (int \<times> u8 list, 'w sys) prog" where
  "ppdev_epp_read_data E flags len = ppdev_read E flags M1284_EPP flags False len"

definition ppdev_epp_write_data :: "'w env \<Rightarrow> int \<Rightarrow> u8 list \<Rightarrow> (int, 'w sys) prog" where
  "ppdev_epp_write_data E flags buffer = ppdev_write E flags M1284_EPP flags False buffer"

definition ppdev_epp_read_addr :: "'w env \<Rightarrow> int \<Rightarrow> nat \<Rightarrow> (int \<times> u8 list, 'w sys) prog" where
  "ppdev_epp_read_addr E flags len = ppdev_read E flags M1284_EPP flags True len"

definition ppdev_epp_write_addr :: "'w env \<Rightarrow> int \<Rightarrow> u8 list \<Rightarrow> (int, 'w sys) prog" where
  "ppdev_epp_write_addr E flags buffer = ppdev_write E flags M1284_EPP flags True buffer"

definition ppdev_ecp_read_data :: "'w env \<Rightarrow> int \<Rightarrow> nat \<Rightarrow> (int \<times> u8 list, 'w sys) prog" where
  "ppdev_ecp_read_data E flags len = ppdev_read E flags M1284_ECP flags False len"

definition ppdev_ecp_write_data :: "'w env \<Rightarrow> int \<Rightarrow> u8 list \<Rightarrow> (int, 'w sys) prog" where
  "ppdev_ecp_write_data E flags buffer = ppdev_write E flags M1284_ECP flags False buffer"

definition ppdev_ecp_write_addr :: "'w env \<Rightarrow> int \<Rightarrow> u8 list \<Rightarrow> (int, 'w sys) prog" where
  "ppdev_ecp_write_addr E flags buffer = ppdev_write E flags M1284_ECP flags True buffer"

text \<open>The result is the old timeout; \<open>None\<close> when the kernel has stored none.\<close>

definition ppdev_set_timeout :: "'w env \<Rightarrow> timeval \<Rightarrow> (timeval option, 'w sys) prog" where
  "ppdev_set_timeout E timeout =
     bindp the_priv (\<lambda>_.
     bindp (dev_ioctl E PPGETTIME) (\<lambda>r.
     bindp (if truth (reply_ret r) then ret ()
            else upd_priv (\<lambda>q. q\<lparr>inactivity_timer := Some (reply_time r)\<rparr>)) (\<lambda>_.
     bindp (dev_ioctl E (PPSETTIME timeout)) (\<lambda>_.
     bindp the_priv (\<lambda>q. ret (inactivity_timer q))))))"

definition ppdev_access_methods :: parport_access_methods where
  "ppdev_access_methods = \<lparr>
     m_init = Some Ppdev_init, m_cleanup = Some Ppdev_cleanup,
     m_claim = Some Ppdev_claim, m_release = Some Ppdev_release,
     m_do_inb = None, m_do_outb = None,
     m_get_irq_fd = Some Ppdev_get_irq_fd, m_clear_irq = Some Ppdev_clear_irq,
     m_read_data = Some Ppdev_read_data, m_write_data = Some Ppdev_write_data,
     m_wait_data = Some Default_wait_data, m_data_dir = Some Ppdev_data_dir,
     m_read_status = Some Ppdev_read_status, m_wait_status = Some Ppdev_wait_status,
     m_read_control = Some Ppdev_read_control, m_write_control = Some Ppdev_write_control,
     m_frob_control = Some Ppdev_frob_control,
     m_do_nack_handshake = Some Ppdev_do_nack_handshake,
     m_negotiate = Some Ppdev_negotiate, m_terminate = Some Ppdev_terminate,
     m_ecp_fwd_to_rev = Some Default_ecp_fwd_to_rev,
     m_ecp_rev_to_fwd = Some Default_ecp_rev_to_fwd,
     m_nibble_read = Some Ppdev_nibble_read, m_compat_write = Some Ppdev_compat_write,
     m_byte_read = Some Ppdev_byte_read,
     m_epp_read_data = Some Ppdev_epp_read_data,
     m_epp_write_data = Some Ppdev_epp_write_data,
     m_epp_read_addr = Some Ppdev_epp_read_addr,
     m_epp_write_addr = Some Ppdev_epp_write_addr,
     m_ecp_read_data = Some Ppdev_ecp_read_data,
     m_ecp_write_data = Some Ppdev_ecp_write_data,
     m_ecp_read_addr = Some Default_ecp_read_addr,
     m_ecp_write_addr = Some Ppdev_ecp_write_addr,
     m_set_timeout = Some Ppdev_set_timeout \<rparr>"

text \<open>Without Linux there is no ppdev: the table has the same name, and only null pointers.\<close>

definition no_ppdev_access_methods :: parport_access_methods where
  "no_ppdev_access_methods = null_methods"

definition ppdev_methods :: "build \<Rightarrow> parport_access_methods" where
  "ppdev_methods b = (if have_linux b then ppdev_access_methods else no_ppdev_access_methods)"

subsection \<open>Frames\<close>

lemma keeps_dev_ioctl [keeps_intro]: "stable v \<Longrightarrow> keeps v (dev_ioctl E req)"
  by (auto simp: dev_ioctl_def intro!: keeps_intro)

lemma keeps_the_priv [keeps_intro]: "keeps v the_priv"
  unfolding the_priv_def by (rule keeps_bindp) (auto intro: keeps_intro split: option.split)

lemma keeps_ppdev_pins [keeps_intro]:
  assumes "stable v"
  shows "keeps v (ppdev_read_data E)" "keeps v (ppdev_write_data E b)"
    "keeps v (ppdev_read_status E)" "keeps v (ppdev_read_control E)"
    "keeps v (ppdev_data_dir E r)" "keeps v (ppdev_write_control E c)"
    "keeps v (ppdev_frob_control E m b)" "keeps v (ppdev_wait_status E m b t)"
    "keeps v (ppdev_do_nack_handshake E b c t)" "keeps v (ppdev_claim E)"
    "keeps v (ppdev_release E)" "keeps v (ppdev_clear_irq E n)"
  unfolding ppdev_read_data_def ppdev_write_data_def ppdev_read_status_def
    ppdev_read_control_def ppdev_data_dir_def ppdev_write_control_def ppdev_frob_control_def
    ppdev_wait_status_def ppdev_do_nack_handshake_def ppdev_claim_def ppdev_release_def
    ppdev_clear_irq_def
  by (intro keeps_intro assms)+

lemma keeps_ppdev_terminate [keeps_intro]: "keeps core_mode (ppdev_terminate E)"
  unfolding ppdev_terminate_def by (intro keeps_intro) simp_all

lemma keeps_ppdev_negotiate [keeps_intro]: "keeps core_mode (ppdev_negotiate E mode)"
  unfolding ppdev_negotiate_def by (intro keeps_intro) simp_all

lemma ppdev_wait_status_post:
  "post (ppdev_wait_status E m v t) s (\<lambda>r s'. prt s' = prt s \<and>
     (r = E1284_OK \<and> (\<exists>s1 st. ppdev_read_status E s1 = Some (Ret st s') \<and> uchar st AND m = v) \<or>
      r = E1284_TIMEDOUT))"
  unfolding ppdev_wait_status_def
proof (rule post_weaken [OF poll_until_post])
  show "stable prt" by simp
  show "keeps prt (bindp (ppdev_read_status E) (\<lambda>st. ret (uchar st AND m = v)))"
    by (auto intro!: keeps_intro)
qed (auto simp: bindp_eq_Ret ret_eq_Ret)

lemma keeps_ppdev_do_nonblock [keeps_intro]: "stable v \<Longrightarrow> keeps v (ppdev_do_nonblock E flags)"
  unfolding ppdev_do_nonblock_def by (intro keeps_intro)

subsection \<open>Negotiation by the kernel\<close>

text \<open>The recorded mode follows the kernel: it changes exactly when the request succeeds.\<close>

text \<open>
  The modes the kernel is asked for: the eight modes of the standard, and any mode with one of the
  two flags, which goes to the kernel as it is.  The error code of \<open>which_mode\<close> is not looked at: a
  mode that it does not know goes to the kernel as mode \<open>-1\<close>.
\<close>

definition asked_mode :: "int \<Rightarrow> int" where
  "asked_mode mode =
     (if mode \<in> {M1284_NIBBLE, M1284_BYTE, M1284_COMPAT, M1284_ECP, M1284_ECPRLE, M1284_ECPSWE,
        M1284_EPP, M1284_EPPSWE} \<or> mode AND (M1284_FLAG_DEVICEID OR M1284_FLAG_EXT_LINK) \<noteq> 0
      then mode else -1)"

lemma which_mode_asked: "which_mode mode 0 = asked_mode mode"
  by (auto simp: which_mode_def asked_mode_def truth_def)

text \<open>The result of a request that the kernel has refused, by its answer and \<^verbatim>\<open>errno\<close>.\<close>

definition refusal :: "int \<Rightarrow> int \<Rightarrow> int" where
  "refusal n errno =
     (if errno = EIO then E1284_NEGFAILED else if errno = ENXIO then E1284_REJECTED
      else if n = - EAGAIN then E1284_TIMEDOUT else if n < 0 then E1284_SYS else n)"

lemma ppdev_negotiate_total:
  assumes "env_ioctl E (fd (prt s)) (PPNEGOT (asked_mode mode)) (world s) = (p, w)"
  shows "total (ppdev_negotiate E mode) s (\<lambda>r s'. world s' = w \<and>
     trace s' = trace s @ [Ioctl (fd (prt s)) (PPNEGOT (asked_mode mode)) (reply_ret p)] \<and>
     (if reply_ret p = 0 then r = E1284_OK \<and> prt s' = (prt s)\<lparr>current_mode := mode\<rparr>
      else r = refusal (reply_ret p) (env_errno E w) \<and> prt s' = prt s))"
  using assms unfolding ppdev_negotiate_def dev_ioctl_def which_mode_asked
  by (simp add: total_def bindp_def gets_def env_call_def upd_def modify_def ret_def truth_def refusal_def
      translate_error_code_def)

text \<open>
  Setting a mode for a transfer.  A port that is already in the mode asks nothing of the
  kernel, and the recorded mode changes only to the requested one.
\<close>

lemma the_priv_post: "post the_priv s (\<lambda>q s'. s' = s \<and> access_priv (prt s) = Some q)"
  unfolding the_priv_def
  by (intro wp_intro) (auto intro: wp_intro split: option.split)

lemma ppdev_set_mode_post:
  "post (ppdev_set_mode E mode flags addr) s (\<lambda>r s'.
     (which_mode mode flags < 0 \<longrightarrow> r = which_mode mode flags \<and> s' = s) \<and>
     (0 \<le> which_mode mode flags \<longrightarrow>
       (let m = which_mode mode flags OR (if addr then IEEE1284_ADDR else IEEE1284_DATA) in
        (current_mode (prt s') = current_mode (prt s) \<or> current_mode (prt s') = m) \<and>
        (r = E1284_OK \<and> mode \<noteq> M1284_EPP \<longrightarrow> current_mode (prt s') = m))))"
  unfolding ppdev_set_mode_def dev_ioctl_def upd_priv_def Let_def
  by (intro wp_intro post_weaken [OF the_priv_post])
     (auto simp: translate_error_code_def split: if_splits)

subsection \<open>Blocking mode\<close>

text \<open>
  Nothing ever sets \<^verbatim>\<open>nonblock\<close>, so it stays 0 after \<^verbatim>\<open>init\<close>; and with it at 0 a request
  without \<^verbatim>\<open>F1284_NONBLOCK\<close> does nothing at all, whatever the state of the descriptor.
\<close>

definition priv_nonblock :: "'w sys \<Rightarrow> int option" where
  "priv_nonblock s = map_option nonblock (access_priv (prt s))"

lemma priv_nonblock_upd [simp]:
  "access_priv (f (prt s)) = access_priv (prt s) \<Longrightarrow>
     priv_nonblock (s\<lparr>prt := f (prt s)\<rparr>) = priv_nonblock s"
  by (simp add: priv_nonblock_def)

lemma stable_priv_nonblock [simp, keeps_intro]: "stable priv_nonblock"
  by (simp add: stable_def priv_nonblock_def)

lemma keeps_upd_priv:
  "(\<And>q. nonblock (f q) = nonblock q) \<Longrightarrow> keeps priv_nonblock (upd_priv f)"
  unfolding upd_priv_def
  by (intro keeps_intro) (simp add: priv_nonblock_def option.map_comp o_def)

lemma ppdev_set_mode_nonblock: "keeps priv_nonblock (ppdev_set_mode E mode flags addr)"
  unfolding ppdev_set_mode_def Let_def
  by (intro keeps_intro keeps_upd_priv) simp_all

lemma ppdev_transfer_nonblock:
  "keeps priv_nonblock (ppdev_read E flags mode mflags addr len)"
  "keeps priv_nonblock (ppdev_write E flags mode mflags addr buffer)"
  unfolding ppdev_read_def ppdev_write_def dev_read_def dev_write_def
  by (auto intro!: keeps_intro ppdev_set_mode_nonblock split: prod.split)

lemma ppdev_do_nonblock_idle:
  assumes "priv_nonblock s = Some 0" and "\<not> truth (flags AND F1284_NONBLOCK)"
  shows "ppdev_do_nonblock E flags s = Some (Ret 0 s)"
  using assms
  by (auto simp: ppdev_do_nonblock_def the_priv_def priv_nonblock_def bindp_def gets_def ret_def)

subsection \<open>Transfers\<close>

lemma translate_error_code_ok: "0 \<le> e \<Longrightarrow> translate_error_code e = e"
  by (simp add: translate_error_code_def)

lemma translate_error_code_sys: "translate_error_code (-1) = E1284_SYS"
  by (simp add: translate_error_code_def)

text \<open>
  A C system call fails with \<open>-1\<close> and leaves the reason in \<^verbatim>\<open>errno\<close>; so on a kernel whose
  calls never return less than \<open>-1\<close> a transfer never reports a timeout.
\<close>

definition fails_with_minus_one :: "'w env \<Rightarrow> bool" where
  "fails_with_minus_one E \<longleftrightarrow>
     (\<forall>d n w. -1 \<le> fst (fst (env_read E d n w))) \<and>
     (\<forall>d b w. -1 \<le> fst (env_write E d b w)) \<and>
     (\<forall>d r w. -1 \<le> reply_ret (fst (env_ioctl E d r w)))"

lemma fails_with_minus_oneD:
  assumes "fails_with_minus_one E"
  shows "env_read E d n w = ((r, bs), w') \<Longrightarrow> translate_error_code r \<noteq> E1284_TIMEDOUT"
    and "env_write E d b w = (r, w') \<Longrightarrow> translate_error_code r \<noteq> E1284_TIMEDOUT"
    and "env_ioctl E d q w = (p, w') \<Longrightarrow> translate_error_code (reply_ret p) \<noteq> E1284_TIMEDOUT"
proof -
  have *: "-1 \<le> e \<Longrightarrow> translate_error_code e \<noteq> E1284_TIMEDOUT" for e
    by (simp add: translate_error_code_def)
  show "env_read E d n w = ((r, bs), w') \<Longrightarrow> translate_error_code r \<noteq> E1284_TIMEDOUT"
    using assms * unfolding fails_with_minus_one_def by (metis fst_conv)
  show "env_write E d b w = (r, w') \<Longrightarrow> translate_error_code r \<noteq> E1284_TIMEDOUT"
    using assms * unfolding fails_with_minus_one_def by (metis fst_conv)
  show "env_ioctl E d q w = (p, w') \<Longrightarrow> translate_error_code (reply_ret p) \<noteq> E1284_TIMEDOUT"
    using assms * unfolding fails_with_minus_one_def by (metis fst_conv)
qed

lemma which_mode_not_timedout: "which_mode mode flags < 0 \<Longrightarrow> mode \<noteq> E1284_TIMEDOUT \<Longrightarrow>
    which_mode mode flags \<noteq> E1284_TIMEDOUT"
  by (auto simp: which_mode_def split: if_splits)

lemma ppdev_set_mode_result:
  assumes "fails_with_minus_one E" and "0 \<le> mode"
  shows "post (ppdev_set_mode E mode flags addr) s (\<lambda>r s'. r \<noteq> E1284_TIMEDOUT)"
  unfolding ppdev_set_mode_def dev_ioctl_def upd_priv_def Let_def
  using assms(2)
  by (intro wp_intro post_weaken [OF the_priv_post])
     (auto dest: fails_with_minus_oneD [OF assms(1)] which_mode_not_timedout
        split: if_splits)

lemma ppdev_read_result:
  assumes "fails_with_minus_one E" and "0 \<le> mode"
  shows "post (ppdev_read E flags mode mflags addr len) s (\<lambda>(r, _) _. r \<noteq> E1284_TIMEDOUT)"
proof -
  have read: "post (dev_read E len) s1 (\<lambda>(r, _) _. r \<noteq> E1284_TIMEDOUT)" for s1
    unfolding dev_read_def
    by (intro wp_intro) (auto intro!: post_ret dest: fails_with_minus_oneD [OF assms(1)])
  have nonblock: "post (ppdev_do_nonblock E flags) s (\<lambda>r _. r = 0 \<or> r = -1)"
    unfolding ppdev_do_nonblock_def
    by (intro wp_intro post_weaken [OF the_priv_post]) auto
  show ?thesis
    unfolding ppdev_read_def
    by (intro wp_intro post_weaken [OF nonblock] post_weaken [OF ppdev_set_mode_result [OF assms]] read)
       auto
qed

lemma ppdev_write_result:
  assumes "fails_with_minus_one E" and "0 \<le> mode"
  shows "post (ppdev_write E flags mode mflags addr buffer) s (\<lambda>r _. r \<noteq> E1284_TIMEDOUT)"
proof -
  have written: "post (dev_write E buffer) s1 (\<lambda>r _. r \<noteq> E1284_TIMEDOUT)" for s1
    unfolding dev_write_def
    by (intro wp_intro) (auto dest: fails_with_minus_oneD [OF assms(1)])
  have nonblock: "post (ppdev_do_nonblock E flags) s (\<lambda>r _. r = 0 \<or> r = -1)"
    unfolding ppdev_do_nonblock_def
    by (intro wp_intro post_weaken [OF the_priv_post]) auto
  show ?thesis
    unfolding ppdev_write_def
    by (intro wp_intro post_weaken [OF nonblock] post_weaken [OF ppdev_set_mode_result [OF assms]] written)
       auto
qed

end
