(* ===== verification/Access_Lpt.thy ===== *)
theory Access_Lpt
  imports Access_Ppdev
begin

section \<open>The LPT driver of Windows NT: \<^verbatim>\<open>src/access_lpt.c\<close>\<close>

text \<open>
  The access methods for the ParallelVdm device, in the Cygwin build.  \<^verbatim>\<open>CreateFile\<close> and
  \<^verbatim>\<open>CloseHandle\<close> are the environment's \<open>open\<close> and \<open>close\<close>, \<^verbatim>\<open>DeviceIoControl\<close> is its
  \<open>ioctl\<close>.  The device can neither read the data lines nor turn them round: these two slots
  of the table are null, although all defaults are installed.  The byte that a failing
  \<^verbatim>\<open>NT_IOCTL_STATUS\<close> leaves uninitialised is the environment's choice.
\<close>

definition lpt_init :: "'w env \<Rightarrow> int \<Rightarrow> int option \<Rightarrow> (int \<times> int option, 'w sys) prog" where
  "lpt_init E flags caps =
     (if truth (flags AND NOT F1284_EXCL) then ret (E1284_NOTAVAIL, caps)
      else
      bindp (gets (\<lambda>s. device (prt s))) (\<lambda>dev.
      bindp (open_path E dev) (\<lambda>d.
      bindp (upd (\<lambda>p. p\<lparr>fd := d\<rparr>)) (\<lambda>_.
      if d = -1 then ret (E1284_SYS, caps)
      else ret (E1284_OK, map_option
             (\<lambda>c. (c OR CAP1284_RAW) AND NOT (CAP1284_ECPSWE OR CAP1284_BYTE)) caps)))))"

definition lpt_cleanup :: "'w env \<Rightarrow> (unit, 'w sys) prog" where
  "lpt_cleanup E = dev_close E"

definition lpt_write_data :: "'w env \<Rightarrow> u8 \<Rightarrow> (unit, 'w sys) prog" where
  "lpt_write_data E reg = bindp (dev_ioctl E (NT_IOCTL_DATA reg)) (\<lambda>_. ret ())"

definition lpt_read_status :: "'w env \<Rightarrow> (int, 'w sys) prog" where
  "lpt_read_status E =
     bindp (dev_ioctl E NT_IOCTL_STATUS) (\<lambda>r. ret (uint (uchar (reply_int r) XOR S1284_INVERTED)))"

definition lpt_raw_frob_control :: "'w env \<Rightarrow> u8 \<Rightarrow> u8 \<Rightarrow> (unit, 'w sys) prog" where
  "lpt_raw_frob_control E msk val =
     bindp (gets prt) (\<lambda>p.
     let val' = val XOR (msk AND C1284_INVERTED);
         c = frob (ctr p) msk val'
     in bindp (dev_ioctl E (NT_IOCTL_CONTROL c)) (\<lambda>_. upd (\<lambda>p. p\<lparr>ctr := c\<rparr>)))"

definition lpt_read_control :: "(int, 'w sys) prog" where
  "lpt_read_control = gets (\<lambda>s. uint ((ctr (prt s) XOR C1284_INVERTED) AND control_lines))"

definition lpt_write_control :: "'w env \<Rightarrow> u8 \<Rightarrow> (unit, 'w sys) prog" where
  "lpt_write_control E reg = lpt_raw_frob_control E control_lines (reg AND control_lines)"

definition lpt_frob_control :: "'w env \<Rightarrow> u8 \<Rightarrow> u8 \<Rightarrow> (unit, 'w sys) prog" where
  "lpt_frob_control E msk val =
     lpt_raw_frob_control E (msk AND control_lines) (val AND control_lines)"

definition lpt_wait_status :: "'w env \<Rightarrow> u8 \<Rightarrow> u8 \<Rightarrow> timeval \<Rightarrow> (int, 'w sys) prog" where
  "lpt_wait_status E msk val timeout =
     poll_until E (bindp (lpt_read_status E) (\<lambda>st. ret (uchar st AND msk = val))) timeout"

definition lpt_access_methods :: parport_access_methods where
  "lpt_access_methods = \<lparr>
     m_init = Some Lpt_init, m_cleanup = Some Lpt_cleanup, m_claim = None, m_release = None,
     m_do_inb = None, m_do_outb = None, m_get_irq_fd = None, m_clear_irq = None,
     m_read_data = None, m_write_data = Some Lpt_write_data,
     m_wait_data = Some Default_wait_data, m_data_dir = None,
     m_read_status = Some Lpt_read_status, m_wait_status = Some Lpt_wait_status,
     m_read_control = Some Lpt_read_control, m_write_control = Some Lpt_write_control,
     m_frob_control = Some Lpt_frob_control,
     m_do_nack_handshake = Some Default_do_nack_handshake,
     m_negotiate = Some Default_negotiate, m_terminate = Some Default_terminate,
     m_ecp_fwd_to_rev = Some Default_ecp_fwd_to_rev,
     m_ecp_rev_to_fwd = Some Default_ecp_rev_to_fwd,
     m_nibble_read = Some Default_nibble_read, m_compat_write = Some Default_compat_write,
     m_byte_read = Some Default_byte_read,
     m_epp_read_data = Some Default_epp_read_data,
     m_epp_write_data = Some Default_epp_write_data,
     m_epp_read_addr = Some Default_epp_read_addr,
     m_epp_write_addr = Some Default_epp_write_addr,
     m_ecp_read_data = Some Default_ecp_read_data,
     m_ecp_write_data = Some Default_ecp_write_data,
     m_ecp_read_addr = Some Default_ecp_read_addr,
     m_ecp_write_addr = Some Default_ecp_write_addr,
     m_set_timeout = Some Default_set_timeout \<rparr>"

text \<open>The table of the builds for other systems.\<close>

definition no_lpt_access_methods :: parport_access_methods where
  "no_lpt_access_methods = null_methods"

definition lpt_methods :: "build \<Rightarrow> parport_access_methods" where
  "lpt_methods b = (if have_cygwin b then lpt_access_methods else no_lpt_access_methods)"

subsection \<open>Frames\<close>

lemma keeps_lpt_data_status [keeps_intro]:
  assumes "stable v"
  shows "keeps v (lpt_write_data E b)" "keeps v (lpt_read_status E)"
    "keeps v (lpt_wait_status E m b t)"
  unfolding lpt_write_data_def lpt_read_status_def lpt_wait_status_def
  by (intro keeps_intro assms)+

lemma keeps_lpt_control [keeps_intro]:
  "keeps core (lpt_raw_frob_control E m b)" "keeps core (lpt_write_control E c)"
  "keeps core (lpt_frob_control E m b)"
  unfolding lpt_write_control_def lpt_frob_control_def lpt_raw_frob_control_def Let_def
  by (intro keeps_intro, simp_all)+

lemma keeps_lpt_read_control [keeps_intro]: "keeps v lpt_read_control"
  unfolding lpt_read_control_def by (intro keeps_intro)

subsection \<open>The soft copy implements the control lines\<close>

lemma lpt_raw_frob_ctr:
  "post (lpt_raw_frob_control E m v) s
     (\<lambda>_ s'. ctr (prt s') = frob (ctr (prt s)) m (v XOR (m AND C1284_INVERTED)))"
  unfolding lpt_raw_frob_control_def Let_def dev_ioctl_def
  by (intro wp_intro) simp

lemma lpt_write_control_lines:
  "post (lpt_write_control E c) s (\<lambda>_ s'. lines s' = c AND control_lines)"
  unfolding lpt_write_control_def
  by (rule post_weaken [OF lpt_raw_frob_ctr]) (simp add: lines_def lines_set)

lemma lpt_frob_control_lines:
  "post (lpt_frob_control E m v) s (\<lambda>_ s'.
     lines s' = frob (lines s) (m AND control_lines) (v AND control_lines))"
  unfolding lpt_frob_control_def
  by (rule post_weaken [OF lpt_raw_frob_ctr]) (simp add: lines_def lines_frob)

lemma lpt_wait_status_result:
  "post (lpt_wait_status E m v t) s (\<lambda>r _. r = E1284_OK \<or> r = E1284_TIMEDOUT)"
  unfolding lpt_wait_status_def
  by (rule post_weaken [OF poll_until_post [of prt]]) (auto intro!: keeps_intro)

end
