(* ===== verification/Dispatch.thy ===== *)
theory Dispatch
  imports Access_Lpt
begin

section \<open>Calls through the table of access methods\<close>

text \<open>
  What each name in a slot of \<^verbatim>\<open>struct parport_access_methods\<close> stands for, the calls
  \<^verbatim>\<open>port->fn->method (port, ...)\<close> through the slots (a null slot is a fault), and the
  records of operations that the defaults use as their \<^verbatim>\<open>fn\<close>.  The locales of the interface
  are interpreted on these records: their laws hold for the dispatched calls because every
  access method and every default that a slot can name satisfies them.
\<close>

subsection \<open>Pins\<close>

fun run_read_data :: "'w env \<Rightarrow> read_data_fn \<Rightarrow> (int, 'w sys) prog" where
  "run_read_data E Io_read_data = io_read_data E"
| "run_read_data E Ppdev_read_data = ppdev_read_data E"

fun run_write_data :: "'w env \<Rightarrow> u8 \<Rightarrow> write_data_fn \<Rightarrow> (unit, 'w sys) prog" where
  "run_write_data E b Io_write_data = io_write_data E b"
| "run_write_data E b Ppdev_write_data = ppdev_write_data E b"
| "run_write_data E b Lpt_write_data = lpt_write_data E b"

fun run_data_dir :: "'w env \<Rightarrow> int \<Rightarrow> data_dir_fn \<Rightarrow> (int, 'w sys) prog" where
  "run_data_dir E r Io_data_dir = io_data_dir E r"
| "run_data_dir E r Ppdev_data_dir = ppdev_data_dir E r"

fun run_read_status :: "'w env \<Rightarrow> read_status_fn \<Rightarrow> (int, 'w sys) prog" where
  "run_read_status E Io_read_status = io_read_status E"
| "run_read_status E Ppdev_read_status = ppdev_read_status E"
| "run_read_status E Lpt_read_status = lpt_read_status E"

fun run_wait_status :: "'w env \<Rightarrow> u8 \<Rightarrow> u8 \<Rightarrow> timeval \<Rightarrow> wait_status_fn \<Rightarrow> (int, 'w sys) prog" where
  "run_wait_status E m v t Io_wait_status = io_wait_status E m v t"
| "run_wait_status E m v t Ppdev_wait_status = ppdev_wait_status E m v t"
| "run_wait_status E m v t Lpt_wait_status = lpt_wait_status E m v t"

fun run_read_control :: "'w env \<Rightarrow> read_control_fn \<Rightarrow> (int, 'w sys) prog" where
  "run_read_control E Io_read_control = io_read_control"
| "run_read_control E Ppdev_read_control = ppdev_read_control E"
| "run_read_control E Lpt_read_control = lpt_read_control"

fun run_write_control :: "'w env \<Rightarrow> u8 \<Rightarrow> write_control_fn \<Rightarrow> (unit, 'w sys) prog" where
  "run_write_control E c Io_write_control = io_write_control E c"
| "run_write_control E c Ppdev_write_control = ppdev_write_control E c"
| "run_write_control E c Lpt_write_control = lpt_write_control E c"

fun run_frob_control :: "'w env \<Rightarrow> u8 \<Rightarrow> u8 \<Rightarrow> frob_control_fn \<Rightarrow> (unit, 'w sys) prog" where
  "run_frob_control E m v Io_frob_control = io_frob_control E m v"
| "run_frob_control E m v Ppdev_frob_control = ppdev_frob_control E m v"
| "run_frob_control E m v Lpt_frob_control = lpt_frob_control E m v"

text \<open>A call through a slot.\<close>

definition via ::
  "(parport_access_methods \<Rightarrow> 'f option) \<Rightarrow> ('f \<Rightarrow> ('a, 'w sys) prog) \<Rightarrow> ('a, 'w sys) prog" where
  "via sel run = bindp (slot sel) (\<lambda>f. call f run)"

definition port_pins :: "'w env \<Rightarrow> 'w pins" where
  "port_pins E = \<lparr>
     p_read_data = via m_read_data (run_read_data E),
     p_write_data = (\<lambda>b. via m_write_data (run_write_data E b)),
     p_data_dir = (\<lambda>r. via m_data_dir (run_data_dir E r)),
     p_read_status = via m_read_status (run_read_status E),
     p_wait_status = (\<lambda>m v t. via m_wait_status (run_wait_status E m v t)),
     p_write_control = (\<lambda>c. via m_write_control (run_write_control E c)),
     p_frob_control = (\<lambda>m v. via m_frob_control (run_frob_control E m v)) \<rparr>"

subsection \<open>Waiting, direction, termination, negotiation\<close>

fun run_wait_data :: "'w env \<Rightarrow> u8 \<Rightarrow> u8 \<Rightarrow> timeval \<Rightarrow> wait_data_fn \<Rightarrow> (int, 'w sys) prog" where
  "run_wait_data E m v t Default_wait_data = default_wait_data E (port_pins E) m v t"

fun run_do_nack_handshake ::
  "'w env \<Rightarrow> u8 \<Rightarrow> u8 \<Rightarrow> timeval \<Rightarrow> do_nack_handshake_fn \<Rightarrow> (int, 'w sys) prog" where
  "run_do_nack_handshake E b a t Default_do_nack_handshake = default_do_nack_handshake b a t"
| "run_do_nack_handshake E b a t Ppdev_do_nack_handshake = ppdev_do_nack_handshake E b a t"

fun run_ecp_fwd_to_rev :: "'w env \<Rightarrow> ecp_fwd_to_rev_fn \<Rightarrow> (int, 'w sys) prog" where
  "run_ecp_fwd_to_rev E Default_ecp_fwd_to_rev = default_ecp_fwd_to_rev E (port_pins E)"

fun run_ecp_rev_to_fwd :: "'w env \<Rightarrow> ecp_rev_to_fwd_fn \<Rightarrow> (int, 'w sys) prog" where
  "run_ecp_rev_to_fwd E Default_ecp_rev_to_fwd = default_ecp_rev_to_fwd (port_pins E)"

definition port_dir_pins :: "'w env \<Rightarrow> 'w dir_pins" where
  "port_dir_pins E = pins.extend (port_pins E) (dir_pins.fields
     (via m_ecp_fwd_to_rev (run_ecp_fwd_to_rev E))
     (via m_ecp_rev_to_fwd (run_ecp_rev_to_fwd E)))"

fun run_terminate :: "'w env \<Rightarrow> terminate_fn \<Rightarrow> (unit, 'w sys) prog" where
  "run_terminate E Default_terminate = default_terminate (port_dir_pins E)"
| "run_terminate E Ppdev_terminate = ppdev_terminate E"

definition port_mode_pins :: "'w env \<Rightarrow> 'w mode_pins" where
  "port_mode_pins E = dir_pins.extend (port_dir_pins E) (mode_pins.fields
     (via m_terminate (run_terminate E)))"

fun run_negotiate :: "'w env \<Rightarrow> int \<Rightarrow> negotiate_fn \<Rightarrow> (int, 'w sys) prog" where
  "run_negotiate E mode Default_negotiate = default_negotiate E (port_mode_pins E) mode"
| "run_negotiate E mode Ppdev_negotiate = ppdev_negotiate E mode"

subsection \<open>Transfers\<close>

fun run_nibble_read ::
  "'w env \<Rightarrow> int \<Rightarrow> nat \<Rightarrow> nibble_read_fn \<Rightarrow> (int \<times> u8 list, 'w sys) prog" where
  "run_nibble_read E flags len Default_nibble_read = default_nibble_read (port_mode_pins E) len"
| "run_nibble_read E flags len Ppdev_nibble_read = ppdev_nibble_read E flags len"

fun run_compat_write ::
  "'w env \<Rightarrow> int \<Rightarrow> u8 list \<Rightarrow> compat_write_fn \<Rightarrow> (int, 'w sys) prog" where
  "run_compat_write E flags buffer Default_compat_write =
     default_compat_write E (port_mode_pins E) buffer"
| "run_compat_write E flags buffer Ppdev_compat_write = ppdev_compat_write E flags buffer"

fun run_byte_read ::
  "'w env \<Rightarrow> int \<Rightarrow> nat \<Rightarrow> byte_read_fn \<Rightarrow> (int \<times> u8 list, 'w sys) prog" where
  "run_byte_read E flags len Default_byte_read = default_byte_read E (port_pins E) len"
| "run_byte_read E flags len Ppdev_byte_read = ppdev_byte_read E flags len"

fun run_epp_read_data ::
  "'w env \<Rightarrow> int \<Rightarrow> nat \<Rightarrow> epp_read_data_fn \<Rightarrow> (int \<times> u8 list, 'w sys) prog" where
  "run_epp_read_data E flags len Default_epp_read_data = default_epp_read_data (port_pins E) len"
| "run_epp_read_data E flags len Ppdev_epp_read_data = ppdev_epp_read_data E flags len"

fun run_epp_write_data ::
  "'w env \<Rightarrow> int \<Rightarrow> u8 list \<Rightarrow> epp_write_data_fn \<Rightarrow> (int, 'w sys) prog" where
  "run_epp_write_data E flags buffer Default_epp_write_data =
     default_epp_write_data E (port_pins E) buffer"
| "run_epp_write_data E flags buffer Ppdev_epp_write_data = ppdev_epp_write_data E flags buffer"

fun run_epp_read_addr ::
  "'w env \<Rightarrow> int \<Rightarrow> nat \<Rightarrow> epp_read_addr_fn \<Rightarrow> (int \<times> u8 list, 'w sys) prog" where
  "run_epp_read_addr E flags len Default_epp_read_addr = default_epp_read_addr len"
| "run_epp_read_addr E flags len Ppdev_epp_read_addr = ppdev_epp_read_addr E flags len"

fun run_epp_write_addr ::
  "'w env \<Rightarrow> int \<Rightarrow> u8 list \<Rightarrow> epp_write_addr_fn \<Rightarrow> (int, 'w sys) prog" where
  "run_epp_write_addr E flags buffer Default_epp_write_addr = default_epp_write_addr buffer"
| "run_epp_write_addr E flags buffer Ppdev_epp_write_addr = ppdev_epp_write_addr E flags buffer"

fun run_ecp_read_data ::
  "'w env \<Rightarrow> int \<Rightarrow> nat \<Rightarrow> ecp_read_data_fn \<Rightarrow> (int \<times> u8 list, 'w sys) prog" where
  "run_ecp_read_data E flags len Default_ecp_read_data = default_ecp_read_data (port_dir_pins E) len"
| "run_ecp_read_data E flags len Ppdev_ecp_read_data = ppdev_ecp_read_data E flags len"

fun run_ecp_write_data ::
  "'w env \<Rightarrow> int \<Rightarrow> u8 list \<Rightarrow> ecp_write_data_fn \<Rightarrow> (int, 'w sys) prog" where
  "run_ecp_write_data E flags buffer Default_ecp_write_data =
     default_ecp_write_data E (port_dir_pins E) buffer"
| "run_ecp_write_data E flags buffer Ppdev_ecp_write_data = ppdev_ecp_write_data E flags buffer"

fun run_ecp_read_addr ::
  "'w env \<Rightarrow> int \<Rightarrow> nat \<Rightarrow> ecp_read_addr_fn \<Rightarrow> (int \<times> u8 list, 'w sys) prog" where
  "run_ecp_read_addr E flags len Default_ecp_read_addr = default_ecp_read_addr len"

fun run_ecp_write_addr ::
  "'w env \<Rightarrow> int \<Rightarrow> u8 list \<Rightarrow> ecp_write_addr_fn \<Rightarrow> (int, 'w sys) prog" where
  "run_ecp_write_addr E flags buffer Default_ecp_write_addr =
     default_ecp_write_addr E (port_dir_pins E) buffer"
| "run_ecp_write_addr E flags buffer Ppdev_ecp_write_addr = ppdev_ecp_write_addr E flags buffer"

fun run_set_timeout ::
  "'w env \<Rightarrow> timeval \<Rightarrow> set_timeout_fn \<Rightarrow> (timeval option, 'w sys) prog" where
  "run_set_timeout E t Default_set_timeout = bindp (default_set_timeout t) (\<lambda>r. ret (Some r))"
| "run_set_timeout E t Ppdev_set_timeout = ppdev_set_timeout E t"

subsection \<open>Opening, claiming\<close>

fun run_init ::
  "'w env \<Rightarrow> int \<Rightarrow> int option \<Rightarrow> init_fn \<Rightarrow> (int \<times> int option, 'w sys) prog" where
  "run_init E flags caps Io_init = io_init E flags caps"
| "run_init E flags caps Ppdev_init = ppdev_init E flags caps"
| "run_init E flags caps Lpt_init = lpt_init E flags caps"

fun run_cleanup :: "'w env \<Rightarrow> cleanup_fn \<Rightarrow> (unit, 'w sys) prog" where
  "run_cleanup E Io_cleanup = io_cleanup E"
| "run_cleanup E Ppdev_cleanup = ppdev_cleanup E"
| "run_cleanup E Lpt_cleanup = lpt_cleanup E"

fun run_claim :: "'w env \<Rightarrow> claim_fn \<Rightarrow> (int, 'w sys) prog" where
  "run_claim E Ppdev_claim = ppdev_claim E"

fun run_release :: "'w env \<Rightarrow> release_fn \<Rightarrow> (unit, 'w sys) prog" where
  "run_release E Ppdev_release = ppdev_release E"

fun run_get_irq_fd :: "'w env \<Rightarrow> get_irq_fd_fn \<Rightarrow> (int, 'w sys) prog" where
  "run_get_irq_fd E Ppdev_get_irq_fd = ppdev_get_irq_fd"

fun run_clear_irq ::
  "'w env \<Rightarrow> int option \<Rightarrow> clear_irq_fn \<Rightarrow> (int \<times> int option, 'w sys) prog" where
  "run_clear_irq E count Ppdev_clear_irq = ppdev_clear_irq E count"

subsection \<open>The interface, interpreted\<close>

lemma keeps_via [keeps_intro]: "(\<And>f. keeps v (run f)) \<Longrightarrow> keeps v (via sel run)"
  unfolding via_def by (intro keeps_intro)

lemma post_via: "(\<And>f. sel (fn (prt s)) = Some f \<Longrightarrow> post (run f) s Q) \<Longrightarrow> post (via sel run) s Q"
  unfolding via_def slot_def by (intro post_bindp post_gets post_call)

lemma keeps_run_read_data [keeps_intro]: "keeps core (run_read_data E f)"
  by (cases f) (auto intro!: keeps_intro)

lemma keeps_run_write_data [keeps_intro]: "keeps core (run_write_data E b f)"
  by (cases f) (auto intro!: keeps_intro)

lemma keeps_run_data_dir [keeps_intro]: "keeps core (run_data_dir E r f)"
  by (cases f) (auto intro!: keeps_intro)

lemma keeps_run_read_status [keeps_intro]: "keeps core (run_read_status E f)"
  by (cases f) (auto intro!: keeps_intro)

lemma keeps_run_wait_status [keeps_intro]: "keeps core (run_wait_status E m v t f)"
  by (cases f) (auto intro!: keeps_intro)

lemma keeps_run_write_control [keeps_intro]: "keeps core (run_write_control E c f)"
  by (cases f) (auto intro!: keeps_intro)

lemma keeps_run_frob_control [keeps_intro]: "keeps core (run_frob_control E m v f)"
  by (cases f) (auto intro!: keeps_intro)

lemma keeps_run_read_control [keeps_intro]: "keeps core (run_read_control E f)"
  by (cases f) (auto intro!: keeps_intro)

lemma run_wait_status_result:
  "post (run_wait_status E m v t f) s (\<lambda>r _. r = E1284_OK \<or> r = E1284_TIMEDOUT)"
proof (cases f)
  case Io_wait_status
  then show ?thesis by (simp, intro post_weaken [OF io_wait_status_post]) auto
next
  case Ppdev_wait_status
  then show ?thesis by (simp, intro post_weaken [OF ppdev_wait_status_post]) auto
next
  case Lpt_wait_status
  then show ?thesis by (simp add: lpt_wait_status_result)
qed

interpretation port: pin_laws "port_pins E" for E :: "'w env"
  by unfold_locales (auto simp: port_pins_def intro!: keeps_intro post_via run_wait_status_result)

lemma port_dir_pins_simps [simp]:
  "p_read_data (port_dir_pins E) = p_read_data (port_pins E)"
  "p_write_data (port_dir_pins E) = p_write_data (port_pins E)"
  "p_data_dir (port_dir_pins E) = p_data_dir (port_pins E)"
  "p_read_status (port_dir_pins E) = p_read_status (port_pins E)"
  "p_wait_status (port_dir_pins E) = p_wait_status (port_pins E)"
  "p_write_control (port_dir_pins E) = p_write_control (port_pins E)"
  "p_frob_control (port_dir_pins E) = p_frob_control (port_pins E)"
  "p_ecp_fwd_to_rev (port_dir_pins E) = via m_ecp_fwd_to_rev (run_ecp_fwd_to_rev E)"
  "p_ecp_rev_to_fwd (port_dir_pins E) = via m_ecp_rev_to_fwd (run_ecp_rev_to_fwd E)"
  by (simp_all add: port_dir_pins_def pins.defs dir_pins.defs)

lemma port_mode_pins_simps [simp]:
  "p_read_data (port_mode_pins E) = p_read_data (port_pins E)"
  "p_write_data (port_mode_pins E) = p_write_data (port_pins E)"
  "p_data_dir (port_mode_pins E) = p_data_dir (port_pins E)"
  "p_read_status (port_mode_pins E) = p_read_status (port_pins E)"
  "p_wait_status (port_mode_pins E) = p_wait_status (port_pins E)"
  "p_write_control (port_mode_pins E) = p_write_control (port_pins E)"
  "p_frob_control (port_mode_pins E) = p_frob_control (port_pins E)"
  "p_ecp_fwd_to_rev (port_mode_pins E) = via m_ecp_fwd_to_rev (run_ecp_fwd_to_rev E)"
  "p_ecp_rev_to_fwd (port_mode_pins E) = via m_ecp_rev_to_fwd (run_ecp_rev_to_fwd E)"
  "p_terminate (port_mode_pins E) = via m_terminate (run_terminate E)"
  by (simp_all add: port_mode_pins_def dir_pins.defs mode_pins.defs
      port_dir_pins_simps [unfolded port_dir_pins_def] port_dir_pins_def pins.defs)

lemma keeps_run_dir [keeps_intro]:
  "keeps core_phase (run_ecp_fwd_to_rev E f)" "keeps core_phase (run_ecp_rev_to_fwd E g)"
  by (cases f, simp, rule port.default_fwd_to_rev_core)
     (cases g, simp, rule port.default_rev_to_fwd_core)

lemma run_dir_phase:
  "post (run_ecp_fwd_to_rev E f) s (\<lambda>r s'. current_phase (prt s') =
     (if r = E1284_OK then PH1284_REV_IDLE else PH1284_ECP_DIR_UNKNOWN))"
  "post (run_ecp_rev_to_fwd E g) s (\<lambda>r s'. current_phase (prt s') =
     (if r = E1284_OK then PH1284_FWD_IDLE else PH1284_ECP_DIR_UNKNOWN))"
  by (cases f, simp only: run_ecp_fwd_to_rev.simps, rule port.default_fwd_to_rev_phase)
     (cases g, simp only: run_ecp_rev_to_fwd.simps, rule port.default_rev_to_fwd_phase)

interpretation port_dir: dir_laws "port_dir_pins E" for E :: "'w env"
  by unfold_locales
     (simp_all add: port.pin_core port.wait_status_result keeps_intro post_via run_dir_phase)

text \<open>Ports whose protocol runs in the library: those with the default termination.\<close>

definition soft_port :: "'w sys \<Rightarrow> bool" where
  "soft_port s \<longleftrightarrow> m_terminate (fn (prt s)) = Some Default_terminate"

lemma soft_port_core_mode: "core_mode s' = core_mode s \<Longrightarrow> soft_port s' = soft_port s"
  using core_modeD(10) [of s' s] by (simp add: soft_port_def)

lemma keeps_run_terminate [keeps_intro]: "keeps core_mode (run_terminate E f)"
  by (cases f) (auto intro: keeps_intro port_dir.default_terminate_core)

lemma soft_terminate_mode:
  "soft_port s \<Longrightarrow>
     post (via m_terminate (run_terminate E)) s (\<lambda>_ s'. current_mode (prt s') = M1284_COMPAT)"
  by (rule post_via) (simp add: soft_port_def port_dir.default_terminate_mode)

lemmas port_dir_facts = port.pin_core port.wait_status_result
  port_dir.fwd_to_rev_core [unfolded port_dir_pins_simps]
  port_dir.rev_to_fwd_core [unfolded port_dir_pins_simps]
  port_dir.fwd_to_rev_phase [unfolded port_dir_pins_simps]
  port_dir.rev_to_fwd_phase [unfolded port_dir_pins_simps]

interpretation port_mode: mode_laws "port_mode_pins E" soft_port for E :: "'w env"
  by (unfold_locales, unfold port_mode_pins_simps)
     (assumption | rule port_dir_facts soft_port_core_mode soft_terminate_mode
        keeps_via [OF keeps_run_terminate])+

subsection \<open>Direct I/O: every operation returns\<close>

text \<open>\<open>io_ok E clk\<close>: the port uses direct I/O and the clock makes progress.\<close>

definition io_ok :: "'w env \<Rightarrow> ('w \<Rightarrow> int) \<Rightarrow> 'w sys \<Rightarrow> bool" where
  "io_ok E clk s \<longleftrightarrow> clock_ok E clk \<and> io_ready s"

lemma works_io_ok: "(clock_ok E clk \<Longrightarrow> works clk io_ready m) \<Longrightarrow> works clk (io_ok E clk) m"
  by (auto simp: works_def io_ok_def total_def)

lemma io_ok_stable: "stable (io_ok E clk)"
  by (simp add: stable_def io_ok_def stableD [OF stable_io_ready])

lemma io_ok_core_mode: "core_mode s' = core_mode s \<Longrightarrow> io_ok E clk s' = io_ok E clk s"
  using core_modeD(10) [of s' s] by (simp add: io_ok_def io_ready_def)

lemma io_ok_clock: "io_ok E clk s \<Longrightarrow> clock_ok E clk"
  by (simp add: io_ok_def)

lemma io_ok_soft: "io_ok E clk s \<Longrightarrow> soft_port s"
  by (auto simp: io_ok_def io_ready_def soft_port_def io_access_methods_def dev_port_methods_def)

text \<open>A slot that holds \<open>f\<close> on every direct I/O port runs \<open>f\<close>.\<close>

lemma works_via_io:
  assumes "sel io_access_methods = Some f" and "sel dev_port_methods = Some f"
    and "works clk (io_ok E clk) (run f)"
  shows "works clk (io_ok E clk) (via sel run)"
  unfolding works_def
proof (intro allI impI)
  fix s assume I: "io_ok E clk s"
  then have "sel (fn (prt s)) = Some f"
    using assms(1,2) by (auto simp: io_ok_def io_ready_def)
  with worksD [OF assms(3) I]
  show "total (via sel run) s (\<lambda>_ s'. io_ok E clk s' \<and> clk (world s) \<le> clk (world s'))"
    by (simp add: via_def slot_def bindp_def gets_def call_def total_def)
qed

lemma io_slots:
  "m_read_data io_access_methods = Some Io_read_data" "m_read_data dev_port_methods = Some Io_read_data"
  "m_write_data io_access_methods = Some Io_write_data" "m_write_data dev_port_methods = Some Io_write_data"
  "m_data_dir io_access_methods = Some Io_data_dir" "m_data_dir dev_port_methods = Some Io_data_dir"
  "m_read_status io_access_methods = Some Io_read_status" "m_read_status dev_port_methods = Some Io_read_status"
  "m_wait_status io_access_methods = Some Io_wait_status" "m_wait_status dev_port_methods = Some Io_wait_status"
  "m_write_control io_access_methods = Some Io_write_control" "m_write_control dev_port_methods = Some Io_write_control"
  "m_frob_control io_access_methods = Some Io_frob_control" "m_frob_control dev_port_methods = Some Io_frob_control"
  "m_ecp_fwd_to_rev io_access_methods = Some Default_ecp_fwd_to_rev" "m_ecp_fwd_to_rev dev_port_methods = Some Default_ecp_fwd_to_rev"
  "m_ecp_rev_to_fwd io_access_methods = Some Default_ecp_rev_to_fwd" "m_ecp_rev_to_fwd dev_port_methods = Some Default_ecp_rev_to_fwd"
  "m_terminate io_access_methods = Some Default_terminate" "m_terminate dev_port_methods = Some Default_terminate"
  "m_negotiate io_access_methods = Some Default_negotiate" "m_negotiate dev_port_methods = Some Default_negotiate"
  "m_nibble_read io_access_methods = Some Default_nibble_read" "m_nibble_read dev_port_methods = Some Default_nibble_read"
  "m_compat_write io_access_methods = Some Default_compat_write" "m_compat_write dev_port_methods = Some Default_compat_write"
  "m_byte_read io_access_methods = Some Default_byte_read" "m_byte_read dev_port_methods = Some Default_byte_read"
  "m_epp_read_data io_access_methods = Some Default_epp_read_data" "m_epp_read_data dev_port_methods = Some Default_epp_read_data"
  "m_epp_write_data io_access_methods = Some Default_epp_write_data" "m_epp_write_data dev_port_methods = Some Default_epp_write_data"
  "m_ecp_read_data io_access_methods = Some Default_ecp_read_data" "m_ecp_read_data dev_port_methods = Some Default_ecp_read_data"
  "m_ecp_write_data io_access_methods = Some Default_ecp_write_data" "m_ecp_write_data dev_port_methods = Some Default_ecp_write_data"
  by (simp_all add: io_access_methods_def dev_port_methods_def)

lemmas works_io_slot = works_via_io [OF io_slots(1,2)]
  works_via_io [OF io_slots(3,4)]
  works_via_io [OF io_slots(5,6)]
  works_via_io [OF io_slots(7,8)]
  works_via_io [OF io_slots(9,10)]
  works_via_io [OF io_slots(11,12)]
  works_via_io [OF io_slots(13,14)]
  works_via_io [OF io_slots(15,16)]
  works_via_io [OF io_slots(17,18)]
  works_via_io [OF io_slots(19,20)]
  works_via_io [OF io_slots(21,22)]
  works_via_io [OF io_slots(23,24)]
  works_via_io [OF io_slots(25,26)]
  works_via_io [OF io_slots(27,28)]
  works_via_io [OF io_slots(29,30)]
  works_via_io [OF io_slots(31,32)]
  works_via_io [OF io_slots(33,34)]
  works_via_io [OF io_slots(35,36)]

lemma works_via_io_pins:
  "works clk (io_ok E clk) (via m_read_data (run_read_data E))"
  "works clk (io_ok E clk) (via m_write_data (run_write_data E b))"
  "works clk (io_ok E clk) (via m_data_dir (run_data_dir E r))"
  "works clk (io_ok E clk) (via m_read_status (run_read_status E))"
  "0 \<le> tv_usec t \<Longrightarrow> works clk (io_ok E clk) (via m_wait_status (run_wait_status E m v t))"
  "works clk (io_ok E clk) (via m_write_control (run_write_control E c))"
  "works clk (io_ok E clk) (via m_frob_control (run_frob_control E m v))"
  by (rule works_io_slot, simp, rule works_io_ok, erule works_io_pins works_io_wait_status,
      assumption?)+

interpretation io: pin_total "port_pins E" E clk "io_ok E clk"
  for E :: "'w env" and clk :: "'w \<Rightarrow> int"
  by (unfold_locales, unfold port_pins_def pins.simps)
     (assumption | rule io_ok_clock io_ok_stable io_ok_core_mode works_via_io_pins)+

lemma works_via_io_dir:
  "works clk (io_ok E clk) (via m_ecp_fwd_to_rev (run_ecp_fwd_to_rev E))"
  "works clk (io_ok E clk) (via m_ecp_rev_to_fwd (run_ecp_rev_to_fwd E))"
  by (rule works_io_slot, simp, rule io.default_fwd_to_rev_works io.default_rev_to_fwd_works)+

lemmas io_facts = io.ok_clock io_ok_stable io_ok_core_mode io.read_data_works
  io.write_data_works io.data_dir_works io.read_status_works io.wait_status_works
  io.write_control_works io.frob_control_works works_via_io_dir

interpretation io_dir: dir_total "port_dir_pins E" E clk "io_ok E clk"
  for E :: "'w env" and clk :: "'w \<Rightarrow> int"
  by (unfold_locales, unfold port_dir_pins_simps) (assumption | rule io_facts)+

lemma works_via_io_terminate: "works clk (io_ok E clk) (via m_terminate (run_terminate E))"
  by (rule works_io_slot, simp, rule io_dir.default_terminate_works)

interpretation io_mode: mode_total "port_mode_pins E" E clk "io_ok E clk"
  for E :: "'w env" and clk :: "'w \<Rightarrow> int"
  by (unfold_locales, unfold port_mode_pins_simps)
     (assumption | rule io_facts works_via_io_terminate port_dir_facts soft_terminate_mode io_ok_soft
        keeps_via [OF keeps_run_terminate])+

end
