(* ===== verification/Wire.thy ===== *)
theory Wire
  imports Dispatch
begin

section \<open>The data lines, on the hardware\<close>

text \<open>
  The bytes put on the data lines, read off the trace of instructions and system calls: the
  values written to the data register at \<open>base\<close> with direct I/O, by an instruction or by a
  request to the Solaris driver, and the \<^verbatim>\<open>NT_IOCTL_DATA\<close>
  requests with the LPT driver.  The laws of \<open>wire_laws\<close> hold for both.
\<close>

fun io_put :: "u16 \<Rightarrow> event \<Rightarrow> u8 list" where
  "io_put a (Outb v b) = (if b = a then [v] else [])"
| "io_put a (Ioctl d (IOPWRITE p v) r) = (if ucast p = a then [v] else [])"
| "io_put a _ = []"

fun lpt_put :: "event \<Rightarrow> u8 list" where
  "lpt_put (Ioctl d (NT_IOCTL_DATA v) r) = [v]"
| "lpt_put _ = []"

definition io_wire :: "'w sys \<Rightarrow> u8 list" where
  "io_wire s = concat (map (io_put (ucast (base (prt s)))) (trace s))"

definition lpt_wire :: "'w sys \<Rightarrow> u8 list" where
  "lpt_wire s = concat (map lpt_put (trace s))"

text \<open>\<open>quiet\<close> events put nothing on the data lines.\<close>

definition quiet :: "event \<Rightarrow> bool" where
  "quiet e \<longleftrightarrow> (\<forall>a. io_put a e = []) \<and> lpt_put e = []"

lemma quiet_simps [simp]:
  "quiet (Inb a b)" "quiet (Pause b)" "quiet (Ioctl d (IOPREAD q) n)" "quiet (Ioperm i j k l)" "quiet (Open p n)" "quiet (Close n)"
  "quiet (Lseek i j k)" "quiet (Read i l j)" "quiet (Write i bs j)" "quiet (Setfl i j)"
  "quiet (Sleep t)" "quiet (Ioctl d PPRDATA n)" "quiet (Ioctl d (PPWDATA v) n)"
  "quiet (Ioctl d PPRSTATUS n)" "quiet (Ioctl d PPRCONTROL n)" "quiet (Ioctl d (PPWCONTROL v) n)"
  "quiet (Ioctl d (PPFCONTROL v w) n)" "quiet (Ioctl d (PPDATADIR i) n)"
  "quiet (Ioctl d (PPNEGOT i) n)" "quiet (Ioctl d NT_IOCTL_STATUS n)"
  "quiet (Ioctl d (NT_IOCTL_CONTROL v) n)"
  by (simp_all add: quiet_def)

text \<open>A program that leaves \<open>base\<close> alone and causes only quiet events keeps both wires.\<close>

definition wires :: "'w sys \<Rightarrow> 64 word \<times> u8 list \<times> u8 list" where
  "wires s = (base (prt s), io_wire s, lpt_wire s)"

lemma keeps_wires: "keeps wires m \<Longrightarrow> keeps io_wire m" "keeps wires m \<Longrightarrow> keeps lpt_wire m"
  by (auto simp: keeps_def post_def wires_def)

lemma wires_quiet: "(\<And>e. e \<in> set es \<Longrightarrow> quiet e) \<Longrightarrow>
    wires (s\<lparr>world := w, trace := trace s @ es\<rparr>) = wires s"
  by (simp add: wires_def io_wire_def lpt_wire_def quiet_def)

lemma wires_env_call: "(\<And>a e. e \<in> set (ev a) \<Longrightarrow> quiet e) \<Longrightarrow> keeps wires (env_call f ev)"
  by (intro keepsI post_env_call wires_quiet) auto

lemma wires_env_do: "(\<And>e. e \<in> set ev \<Longrightarrow> quiet e) \<Longrightarrow> keeps wires (env_do f ev)"
  by (intro keepsI post_env_do wires_quiet) auto

lemma wires_upd: "(\<And>p. base (f p) = base p) \<Longrightarrow> keeps wires (upd f)"
  by (intro keepsI post_upd) (simp add: wires_def io_wire_def lpt_wire_def)

lemma wires_clock: "keeps_clock wires E"
  unfolding keeps_clock_def gettimeofday_def ftime_def
  by (intro conjI allI wires_env_call wires_env_do) auto

lemma wires_time: "keeps wires (gettimeofday E)" "keeps wires (delay E d)" "keeps wires (udelay E n)"
  by (intro keeps_clockD keeps_delay_quiet keeps_udelay_quiet wires_clock)+

lemma wires_dev_ioctl: "(\<And>d n. quiet (Ioctl d req n)) \<Longrightarrow> keeps wires (dev_ioctl E req)"
  unfolding dev_ioctl_def by (intro keeps_bindp keeps_gets wires_env_call) simp

lemma wires_poll_until: "keeps wires hit \<Longrightarrow> keeps wires (poll_until E hit t)"
  by (intro keeps_poll_until_quiet wires_clock)

subsection \<open>Direct I/O\<close>

lemma wires_do_inb: "keeps wires (do_inb E a)"
proof -
  have "keeps wires (run_do_inb E a f)" for f
    by (cases f) (auto simp: raw_inb_def io_h_inb_def iop_ioctl_def port_inb_def lseek_def
        intro!: keeps_bindp keeps_gets keeps_if keeps_ret wires_env_call split: prod.split)
  then show ?thesis unfolding do_inb_def by (intro keeps_bindp keeps_slot keeps_call)
qed

lemma take_bit_wrap: "take_bit 16 (take_bit 64 b + take_bit 64 n) = take_bit 16 (b + n :: int)"
  using take_bit_add [of 16 "take_bit 64 b" "take_bit 64 n"] by (simp add: take_bit_add)

lemma ucast_offset: "(ucast (b + n) :: u16) = ucast (b :: 64 word) + ucast n"
  by transfer (simp add: take_bit_wrap)

lemma ucast_narrow: "(ucast (ucast (a :: 64 word) :: u32) :: u16) = ucast a"
  by (rule bit_word_eqI) (simp add: bit_ucast_iff)

text \<open>Of the three registers only the data register feeds the wire.\<close>

lemma do_outb_wires:
  assumes "ucast a \<noteq> (ucast (base (prt s)) :: u16)"
  shows "post (do_outb E c a) s (\<lambda>_ s'. wires s' = wires s)"
proof -
  have "post (run_do_outb E c a f) s (\<lambda>_ s'. wires s' = wires s)" for f
  proof (cases f)
    case Io_raw_outb
    with assms show ?thesis
      by (auto simp: raw_outb_def io_h_outb_p_def iop_ioctl_def wires_def io_wire_def lpt_wire_def
          ucast_narrow intro!: post_env_do post_bindp post_gets post_env_call post_ret)
  next
    case Io_port_outb
    have "keeps wires (port_outb E c a)"
      unfolding port_outb_def lseek_def
      by (intro keeps_bindp keeps_gets keeps_if keeps_ret wires_env_call) auto
    with Io_port_outb show ?thesis by (simp add: keepsD)
  qed
  then show ?thesis
    unfolding do_outb_def slot_def by (intro post_bindp post_gets post_call)
qed

lemma base_plus_2: "(ucast (b + 2 :: 64 word) :: u16) \<noteq> ucast b"
  by (simp add: ucast_offset)

lemma wires_io_raw_frob: "keeps wires (io_raw_frob_control E m v)"
  unfolding io_raw_frob_control_def Let_def
  by (intro keepsI post_bindp [of "gets _"] post_gets post_bindp [of "do_outb _ _ _"]
      post_weaken [OF do_outb_wires] post_weaken [OF keepsD [OF wires_upd]] base_plus_2) simp_all

lemma wires_io:
  "keeps wires (io_read_data E)" "keeps wires (io_read_status E)" "keeps wires (io_data_dir E r)"
  "keeps wires (io_write_control E c)" "keeps wires (io_frob_control E m v)"
  "keeps wires (io_wait_status E m v t)"
  unfolding io_read_data_def io_read_status_def io_data_dir_def io_write_control_def
    io_frob_control_def io_wait_status_def
  by (intro keeps_bindp keeps_gets keeps_if keeps_ret wires_do_inb wires_io_raw_frob
      wires_poll_until)+

subsection \<open>The kernel drivers\<close>

lemma wires_ppdev:
  "keeps wires (ppdev_read_data E)" "keeps wires (ppdev_read_status E)"
  "keeps wires (ppdev_data_dir E r)" "keeps wires (ppdev_write_control E c)"
  "keeps wires (ppdev_frob_control E m v)" "keeps wires (ppdev_wait_status E m v t)"
  "keeps wires (ppdev_terminate E)"
  unfolding ppdev_read_data_def ppdev_read_status_def ppdev_data_dir_def ppdev_write_control_def
    ppdev_frob_control_def ppdev_wait_status_def ppdev_terminate_def
  by (intro keeps_bindp keeps_if keeps_ret wires_dev_ioctl wires_poll_until wires_time wires_upd;
      simp)+

lemma wires_lpt:
  "keeps wires (lpt_read_status E)" "keeps wires (lpt_raw_frob_control E m v)"
  "keeps wires (lpt_wait_status E m v t)"
  unfolding lpt_read_status_def lpt_raw_frob_control_def lpt_wait_status_def Let_def
  by (intro keeps_bindp keeps_gets keeps_ret wires_dev_ioctl wires_poll_until wires_upd; simp)+

subsection \<open>The laws of the wire\<close>

lemma wires_lpt_control: "keeps wires (lpt_write_control E c)" "keeps wires (lpt_frob_control E m v)"
  unfolding lpt_write_control_def lpt_frob_control_def by (rule wires_lpt)+

lemma wires_run_data_dir: "keeps wires (run_data_dir E r f)"
  by (cases f) (simp_all add: wires_io wires_ppdev)

lemma wires_run_read_status: "keeps wires (run_read_status E f)"
  by (cases f) (simp_all add: wires_io wires_ppdev wires_lpt)

lemma wires_run_wait_status: "keeps wires (run_wait_status E m v t f)"
  by (cases f) (simp_all add: wires_io wires_ppdev wires_lpt)

lemma wires_run_write_control: "keeps wires (run_write_control E c f)"
  by (cases f) (simp_all add: wires_io wires_ppdev wires_lpt_control)

lemma wires_run_frob_control: "keeps wires (run_frob_control E m v f)"
  by (cases f) (simp_all add: wires_io wires_ppdev wires_lpt_control)

lemma wires_pins:
  "keeps wires (p_data_dir (port_pins E) r)" "keeps wires (p_read_status (port_pins E))"
  "keeps wires (p_wait_status (port_pins E) m v t)" "keeps wires (p_write_control (port_pins E) c)"
  "keeps wires (p_frob_control (port_pins E) m v)"
  by (simp_all add: port_pins_def keeps_via wires_run_data_dir wires_run_read_status
      wires_run_wait_status wires_run_write_control wires_run_frob_control)

lemma wires_terminate: "keeps wires (via m_terminate (run_terminate E))"
proof -
  have fwd: "keeps wires (via m_ecp_rev_to_fwd (run_ecp_rev_to_fwd E))"
  proof (rule keeps_via)
    fix f show "keeps wires (run_ecp_rev_to_fwd E f)"
      by (cases f) (simp, unfold default_ecp_rev_to_fwd_def,
          intro keeps_bindp keeps_if keeps_ret wires_pins wires_upd, simp_all)
  qed
  show ?thesis
  proof (rule keeps_via)
    fix f show "keeps wires (run_terminate E f)"
    proof (cases f)
      case Default_terminate
      then show ?thesis
        unfolding run_terminate.simps Default_terminate default_terminate_def
          terminate_handshake_def port_dir_pins_simps
        by (intro keeps_bindp keeps_if keeps_ret keeps_gets wires_pins wires_upd fwd) simp_all
    next
      case Ppdev_terminate
      then show ?thesis by (simp add: wires_ppdev)
    qed
  qed
qed

text \<open>Ports with the tables that keep their data register on the wire.\<close>

definition raw_io_port :: "'w sys \<Rightarrow> bool" where
  "raw_io_port s \<longleftrightarrow> fn (prt s) = io_access_methods"

text \<open>The builds in which direct I/O reaches the hardware.\<close>

definition reaches_ports :: "build \<Rightarrow> bool" where
  "reaches_ports b \<longleftrightarrow> in_out_build b \<or> b = Solaris"

definition lpt_port :: "'w sys \<Rightarrow> bool" where
  "lpt_port s \<longleftrightarrow> fn (prt s) = lpt_access_methods"

lemma raw_io_port_soft: "raw_io_port s \<Longrightarrow> soft_port s"
  by (simp add: raw_io_port_def soft_port_def io_access_methods_def)

lemma lpt_port_soft: "lpt_port s \<Longrightarrow> soft_port s"
  by (simp add: lpt_port_def soft_port_def lpt_access_methods_def)

lemma table_core_mode:
  assumes "core_mode s' = core_mode s"
  shows "raw_io_port s' = raw_io_port s" "lpt_port s' = lpt_port s"
  using core_modeD(10) [OF assms] by (simp_all add: raw_io_port_def lpt_port_def)

lemma raw_io_port_reaches: "raw_io_port s \<and> reaches_ports b \<Longrightarrow> soft_port s"
  by (simp add: raw_io_port_soft)

lemma table_core_mode_reaches:
  "core_mode s' = core_mode s \<Longrightarrow>
     (raw_io_port s' \<and> reaches_ports b) = (raw_io_port s \<and> reaches_ports b)"
  using table_core_mode(1) by blast

lemma raw_outb_wire:
  assumes "reaches_ports (env_build E)"
  shows "post (raw_outb E b (base (prt s))) s (\<lambda>_ s'. io_wire s' = io_wire s @ [b])"
proof (cases "in_out_build (env_build E)")
  case True
  then show ?thesis
    unfolding raw_outb_def io_h_outb_p_def
    by (auto simp: io_wire_def intro!: post_if post_env_do post_bindp)
next
  case False
  with assms have "env_build E = Solaris" by (simp add: reaches_ports_def)
  then show ?thesis
    unfolding raw_outb_def iop_ioctl_def
    by (simp add: False) (intro post_bindp post_gets post_env_call post_ret,
        simp add: io_wire_def ucast_narrow)
qed

lemma raw_io_write_data:
  assumes "raw_io_port s \<and> reaches_ports (env_build E)"
  shows "post (p_write_data (port_pins E) b) s (\<lambda>_ s'. io_wire s' = io_wire s @ [b])"
proof -
  have "m_write_data (fn (prt s)) = Some Io_write_data" "m_do_outb (fn (prt s)) = Some Io_raw_outb"
    using assms by (simp_all add: raw_io_port_def io_access_methods_def)
  then have "p_write_data (port_pins E) b s = raw_outb E b (base (prt s)) s"
    by (simp add: port_pins_def via_def slot_def io_write_data_def do_outb_def bindp_def gets_def call_def)
  with raw_outb_wire assms show ?thesis by (auto simp: post_def)
qed

lemma lpt_write_data_wire:
  assumes "lpt_port s"
  shows "post (p_write_data (port_pins E) b) s (\<lambda>_ s'. lpt_wire s' = lpt_wire s @ [b])"
  using assms
  by (auto simp: port_pins_def lpt_port_def lpt_access_methods_def lpt_write_data_def dev_ioctl_def
      lpt_wire_def intro!: post_via post_bindp post_gets post_env_call post_ret)

lemmas mode_facts = port_dir_facts soft_terminate_mode keeps_via [OF keeps_run_terminate]

interpretation io_wire: wire_laws "port_mode_pins E"
    "\<lambda>s. raw_io_port s \<and> reaches_ports (env_build E)" E io_wire for E :: "'w env"
  by (unfold_locales, unfold port_mode_pins_simps)
     (assumption | rule mode_facts raw_io_port_reaches table_core_mode_reaches raw_io_write_data
        keeps_wires(1) wires_pins wires_terminate wires_time)+

interpretation lpt_wire: wire_laws "port_mode_pins E" lpt_port E lpt_wire for E :: "'w env"
  by (unfold_locales, unfold port_mode_pins_simps)
     (assumption | rule mode_facts lpt_port_soft table_core_mode lpt_write_data_wire
        keeps_wires(2) wires_pins wires_terminate wires_time)+

text \<open>The EPP functions use none of the slots that the larger tables add.\<close>

lemma poll_port_pins:
  "poll_port_loop E (port_mode_pins E') m r i n = poll_port_loop E (port_pins E') m r i n"
  by (induction n arbitrary: i) (simp_all cong: if_cong)

lemma epp_write_loop_pins:
  "epp_write_loop E (port_mode_pins E') n buffer = epp_write_loop E (port_pins E') n buffer"
  by (induction buffer arbitrary: n) (simp_all add: poll_port_def poll_port_pins cong: if_cong)

lemma epp_write_port_pins:
  "default_epp_write_data E (port_mode_pins E') buffer = default_epp_write_data E (port_pins E') buffer"
  by (simp add: default_epp_write_data_def epp_write_loop_pins)

end
