(* ===== verification/Interface.thy ===== *)
theory Interface
  imports Wire
begin

section \<open>The public operations on a port: \<^verbatim>\<open>src/interface.c\<close>, \<^verbatim>\<open>src/state.c\<close>\<close>

text \<open>
  The functions a client calls on one port: opening it (which chooses the access methods),
  claiming and releasing it, and the guarded calls through its table.  Closing and the
  reference counts are in the theory \<open>Ports\<close>, since they may free the port.  A function
  that reads into the caller's buffer returns its C result and the bytes stored.  The
  theorems say what the guards do, and which slots of the table a claimed port may rely on.
\<close>

subsection \<open>Opening\<close>

text \<open>Install a table and call its \<^verbatim>\<open>init\<close>.\<close>

definition try_method ::
  "'w env \<Rightarrow> int \<Rightarrow> parport_access_methods \<Rightarrow> int \<Rightarrow> int option \<Rightarrow> (int \<times> int option, 'w sys) prog" where
  "try_method E typ methods flags caps =
     bindp (upd (\<lambda>p. p\<lparr>ptype := typ, fn := methods\<rparr>)) (\<lambda>_.
     via m_init (run_init E flags caps))"

definition init_port :: "'w env \<Rightarrow> int \<Rightarrow> int option \<Rightarrow> (int \<times> int option, 'w sys) prog" where
  "init_port E flags caps =
     bindp (gets (\<lambda>s. (g_capabilities (glob s), disallow_ppdev (glob s), device (prt s)))) (\<lambda>(can, disallowed, dev).
     bindp (if truth (can AND PPDEV_CAPABLE) \<and> dev \<noteq> None \<and> \<not> truth disallowed
            then try_method E PPDEV_CAPABLE (ppdev_methods (env_build E)) flags caps
            else ret (E1284_INIT, caps)) (\<lambda>(r1, caps1).
     bindp (if truth r1 \<and> truth (can AND IO_CAPABLE)
            then try_method E IO_CAPABLE io_access_methods flags caps1
            else ret (r1, caps1)) (\<lambda>(r2, caps2).
     bindp (if truth r2 \<and> truth (can AND DEV_PORT_CAPABLE)
            then try_method E DEV_PORT_CAPABLE io_access_methods flags caps2
            else ret (r2, caps2)) (\<lambda>(r3, caps3).
     if truth r3 \<and> truth (can AND LPT_CAPABLE)
     then bindp (try_method E LPT_CAPABLE (lpt_methods (env_build E)) flags caps3) (\<lambda>(r4, caps4).
          ret (r4, map_option (\<lambda>_. CAP1284_COMPAT OR CAP1284_NIBBLE) caps4))
     else ret (r3, caps3)))))"

definition ieee1284_open :: "'w env \<Rightarrow> int \<Rightarrow> int option \<Rightarrow> (int \<times> int option, 'w sys) prog" where
  "ieee1284_open E flags caps =
     bindp (gets (\<lambda>s. opened (prt s))) (\<lambda>op.
     if truth op then ret (E1284_INVALIDPORT, caps)
     else
     bindp (init_port E flags (map_option
        (\<lambda>_. CAP1284_NIBBLE OR CAP1284_BYTE OR CAP1284_COMPAT OR CAP1284_ECPSWE) caps)) (\<lambda>(r, caps').
     if truth r then ret (r, caps')
     else bindp (upd (\<lambda>p. p\<lparr>opened := 1, refcount := refcount p + 1\<rparr>)) (\<lambda>_.
          ret (E1284_OK, caps'))))"

subsection \<open>Claiming\<close>

text \<open>A slot that may be null, with the result for that case.\<close>

definition via_or ::
  "'a \<Rightarrow> (parport_access_methods \<Rightarrow> 'f option) \<Rightarrow> ('f \<Rightarrow> ('a, 'w sys) prog) \<Rightarrow> ('a, 'w sys) prog" where
  "via_or r sel run = bindp (slot sel) (\<lambda>f. case f of None \<Rightarrow> ret r | Some g \<Rightarrow> run g)"

definition ieee1284_claim :: "'w env \<Rightarrow> (int, 'w sys) prog" where
  "ieee1284_claim E =
     bindp (gets prt) (\<lambda>p.
     if \<not> truth (opened p) then ret E1284_INVALIDPORT
     else if truth (claimed p) then ret E1284_INVALIDPORT
     else bindp (via_or E1284_OK m_claim (run_claim E)) (\<lambda>r.
          bindp (if r = E1284_OK then upd (\<lambda>p. p\<lparr>claimed := 1\<rparr>) else ret ()) (\<lambda>_. ret r)))"

definition ieee1284_release :: "'w env \<Rightarrow> (unit, 'w sys) prog" where
  "ieee1284_release E =
     bindp (gets (\<lambda>s. claimed (prt s))) (\<lambda>c.
     bindp (if truth c then via_or () m_release (run_release E) else ret ()) (\<lambda>_.
     upd (\<lambda>p. p\<lparr>claimed := 0\<rparr>)))"

definition ieee1284_get_irq_fd :: "'w env \<Rightarrow> (int, 'w sys) prog" where
  "ieee1284_get_irq_fd E =
     bindp (gets (\<lambda>s. opened (prt s))) (\<lambda>op.
     if \<not> truth op then ret E1284_INVALIDPORT
     else via_or E1284_NOTAVAIL m_get_irq_fd (run_get_irq_fd E))"

definition ieee1284_clear_irq :: "'w env \<Rightarrow> int option \<Rightarrow> (int \<times> int option, 'w sys) prog" where
  "ieee1284_clear_irq E count =
     bindp (slot m_clear_irq) (\<lambda>f. case f of
       None \<Rightarrow> ret (E1284_NOTAVAIL, count)
     | Some g \<Rightarrow> bindp (gets (\<lambda>s. claimed (prt s))) (\<lambda>c.
         if \<not> truth c then ret (E1284_INVALIDPORT, count) else run_clear_irq E count g))"

subsection \<open>Guarded calls\<close>

text \<open>The guard of the other functions: \<^verbatim>\<open>if (!priv->claimed)\<close>.\<close>

definition if_claimed :: "'a \<Rightarrow> ('a, 'w sys) prog \<Rightarrow> ('a, 'w sys) prog" where
  "if_claimed r m =
     bindp (gets (\<lambda>s. claimed (prt s))) (\<lambda>c. if \<not> truth c then ret r else m)"

definition ieee1284_read_data :: "'w env \<Rightarrow> (int, 'w sys) prog" where
  "ieee1284_read_data E = if_claimed E1284_INVALIDPORT
     (via_or (- E1284_NOTAVAIL) m_read_data (run_read_data E))"

definition ieee1284_write_data :: "'w env \<Rightarrow> u8 \<Rightarrow> (unit, 'w sys) prog" where
  "ieee1284_write_data E st = if_claimed () (via m_write_data (run_write_data E st))"

definition ieee1284_wait_data :: "'w env \<Rightarrow> u8 \<Rightarrow> u8 \<Rightarrow> timeval \<Rightarrow> (int, 'w sys) prog" where
  "ieee1284_wait_data E msk val timeout = if_claimed E1284_INVALIDPORT
     (via m_wait_data (run_wait_data E msk val timeout))"

definition ieee1284_data_dir :: "'w env \<Rightarrow> int \<Rightarrow> (int, 'w sys) prog" where
  "ieee1284_data_dir E reverse = if_claimed E1284_INVALIDPORT
     (via_or E1284_NOTAVAIL m_data_dir (run_data_dir E reverse))"

definition ieee1284_read_status :: "'w env \<Rightarrow> (int, 'w sys) prog" where
  "ieee1284_read_status E = if_claimed E1284_INVALIDPORT (via m_read_status (run_read_status E))"

definition ieee1284_wait_status :: "'w env \<Rightarrow> u8 \<Rightarrow> u8 \<Rightarrow> timeval \<Rightarrow> (int, 'w sys) prog" where
  "ieee1284_wait_status E msk val timeout = if_claimed E1284_INVALIDPORT
     (via m_wait_status (run_wait_status E msk val timeout))"

definition ieee1284_read_control :: "'w env \<Rightarrow> (int, 'w sys) prog" where
  "ieee1284_read_control E = if_claimed E1284_INVALIDPORT (via m_read_control (run_read_control E))"

definition ieee1284_write_control :: "'w env \<Rightarrow> u8 \<Rightarrow> (unit, 'w sys) prog" where
  "ieee1284_write_control E ct = if_claimed () (via m_write_control (run_write_control E ct))"

definition ieee1284_frob_control :: "'w env \<Rightarrow> u8 \<Rightarrow> u8 \<Rightarrow> (unit, 'w sys) prog" where
  "ieee1284_frob_control E msk val = if_claimed () (via m_frob_control (run_frob_control E msk val))"

definition ieee1284_do_nack_handshake ::
  "'w env \<Rightarrow> u8 \<Rightarrow> u8 \<Rightarrow> timeval \<Rightarrow> (int, 'w sys) prog" where
  "ieee1284_do_nack_handshake E ct_before ct_after timeout = if_claimed E1284_INVALIDPORT
     (via m_do_nack_handshake (run_do_nack_handshake E ct_before ct_after timeout))"

definition ieee1284_negotiate :: "'w env \<Rightarrow> int \<Rightarrow> (int, 'w sys) prog" where
  "ieee1284_negotiate E mode = if_claimed E1284_INVALIDPORT (via m_negotiate (run_negotiate E mode))"

definition ieee1284_terminate :: "'w env \<Rightarrow> (unit, 'w sys) prog" where
  "ieee1284_terminate E = if_claimed () (via m_terminate (run_terminate E))"

definition ieee1284_ecp_fwd_to_rev :: "'w env \<Rightarrow> (int, 'w sys) prog" where
  "ieee1284_ecp_fwd_to_rev E = if_claimed E1284_INVALIDPORT
     (via m_ecp_fwd_to_rev (run_ecp_fwd_to_rev E))"

definition ieee1284_ecp_rev_to_fwd :: "'w env \<Rightarrow> (int, 'w sys) prog" where
  "ieee1284_ecp_rev_to_fwd E = if_claimed E1284_INVALIDPORT
     (via m_ecp_rev_to_fwd (run_ecp_rev_to_fwd E))"

definition ieee1284_nibble_read :: "'w env \<Rightarrow> int \<Rightarrow> nat \<Rightarrow> (int \<times> u8 list, 'w sys) prog" where
  "ieee1284_nibble_read E flags len = if_claimed (E1284_INVALIDPORT, [])
     (via m_nibble_read (run_nibble_read E flags len))"

definition ieee1284_compat_write :: "'w env \<Rightarrow> int \<Rightarrow> u8 list \<Rightarrow> (int, 'w sys) prog" where
  "ieee1284_compat_write E flags buffer = if_claimed E1284_INVALIDPORT
     (via m_compat_write (run_compat_write E flags buffer))"

definition ieee1284_byte_read :: "'w env \<Rightarrow> int \<Rightarrow> nat \<Rightarrow> (int \<times> u8 list, 'w sys) prog" where
  "ieee1284_byte_read E flags len = if_claimed (E1284_INVALIDPORT, [])
     (via m_byte_read (run_byte_read E flags len))"

definition ieee1284_epp_read_data :: "'w env \<Rightarrow> int \<Rightarrow> nat \<Rightarrow> (int \<times> u8 list, 'w sys) prog" where
  "ieee1284_epp_read_data E flags len = if_claimed (E1284_INVALIDPORT, [])
     (via m_epp_read_data (run_epp_read_data E flags len))"

definition ieee1284_epp_write_data :: "'w env \<Rightarrow> int \<Rightarrow> u8 list \<Rightarrow> (int, 'w sys) prog" where
  "ieee1284_epp_write_data E flags buffer = if_claimed E1284_INVALIDPORT
     (via m_epp_write_data (run_epp_write_data E flags buffer))"

definition ieee1284_epp_read_addr :: "'w env \<Rightarrow> int \<Rightarrow> nat \<Rightarrow> (int \<times> u8 list, 'w sys) prog" where
  "ieee1284_epp_read_addr E flags len = if_claimed (E1284_INVALIDPORT, [])
     (via m_epp_read_addr (run_epp_read_addr E flags len))"

definition ieee1284_epp_write_addr :: "'w env \<Rightarrow> int \<Rightarrow> u8 list \<Rightarrow> (int, 'w sys) prog" where
  "ieee1284_epp_write_addr E flags buffer = if_claimed E1284_INVALIDPORT
     (via m_epp_write_addr (run_epp_write_addr E flags buffer))"

definition ieee1284_ecp_read_data :: "'w env \<Rightarrow> int \<Rightarrow> nat \<Rightarrow> (int \<times> u8 list, 'w sys) prog" where
  "ieee1284_ecp_read_data E flags len = if_claimed (E1284_INVALIDPORT, [])
     (via m_ecp_read_data (run_ecp_read_data E flags len))"

definition ieee1284_ecp_write_data :: "'w env \<Rightarrow> int \<Rightarrow> u8 list \<Rightarrow> (int, 'w sys) prog" where
  "ieee1284_ecp_write_data E flags buffer = if_claimed E1284_INVALIDPORT
     (via m_ecp_write_data (run_ecp_write_data E flags buffer))"

definition ieee1284_ecp_read_addr :: "'w env \<Rightarrow> int \<Rightarrow> nat \<Rightarrow> (int \<times> u8 list, 'w sys) prog" where
  "ieee1284_ecp_read_addr E flags len = if_claimed (E1284_INVALIDPORT, [])
     (via m_ecp_read_addr (run_ecp_read_addr E flags len))"

definition ieee1284_ecp_write_addr :: "'w env \<Rightarrow> int \<Rightarrow> u8 list \<Rightarrow> (int, 'w sys) prog" where
  "ieee1284_ecp_write_addr E flags buffer = if_claimed E1284_INVALIDPORT
     (via m_ecp_write_addr (run_ecp_write_addr E flags buffer))"

text \<open>This one has no guard.\<close>

definition ieee1284_set_timeout :: "'w env \<Rightarrow> timeval \<Rightarrow> (timeval option, 'w sys) prog" where
  "ieee1284_set_timeout E timeout = via m_set_timeout (run_set_timeout E timeout)"

subsection \<open>The calls of a client\<close>

text \<open>
  A client's call on one port, with its arguments, and its C result: \<open>None\<close> for a function
  that returns nothing (or a pointer).
\<close>

datatype api =
    Open int "int option"
  | Claim
  | Release
  | Get_irq_fd
  | Clear_irq "int option"
  | Read_data
  | Write_data u8
  | Wait_data u8 u8 timeval
  | Data_dir int
  | Read_status
  | Wait_status u8 u8 timeval
  | Read_control
  | Write_control u8
  | Frob_control u8 u8
  | Do_nack_handshake u8 u8 timeval
  | Negotiate int
  | Terminate
  | Ecp_fwd_to_rev
  | Ecp_rev_to_fwd
  | Nibble_read int nat
  | Compat_write int "u8 list"
  | Byte_read int nat
  | Epp_read_data int nat
  | Epp_write_data int "u8 list"
  | Epp_read_addr int nat
  | Epp_write_addr int "u8 list"
  | Ecp_read_data int nat
  | Ecp_write_data int "u8 list"
  | Ecp_read_addr int nat
  | Ecp_write_addr int "u8 list"
  | Set_timeout timeval

definition int_result :: "(int, 'w sys) prog \<Rightarrow> (int option, 'w sys) prog" where
  "int_result m = bindp m (\<lambda>r. ret (Some r))"

definition fst_result :: "(int \<times> 'b, 'w sys) prog \<Rightarrow> (int option, 'w sys) prog" where
  "fst_result m = bindp m (\<lambda>r. ret (Some (fst r)))"

definition no_result :: "('b, 'w sys) prog \<Rightarrow> (int option, 'w sys) prog" where
  "no_result m = bindp m (\<lambda>_. ret None)"

fun run_api :: "'w env \<Rightarrow> api \<Rightarrow> (int option, 'w sys) prog" where
  "run_api E (Open f c) = fst_result (ieee1284_open E f c)"
| "run_api E Claim = int_result (ieee1284_claim E)"
| "run_api E Release = no_result (ieee1284_release E)"
| "run_api E Get_irq_fd = int_result (ieee1284_get_irq_fd E)"
| "run_api E (Clear_irq n) = fst_result (ieee1284_clear_irq E n)"
| "run_api E Read_data = int_result (ieee1284_read_data E)"
| "run_api E (Write_data b) = no_result (ieee1284_write_data E b)"
| "run_api E (Wait_data m v t) = int_result (ieee1284_wait_data E m v t)"
| "run_api E (Data_dir r) = int_result (ieee1284_data_dir E r)"
| "run_api E Read_status = int_result (ieee1284_read_status E)"
| "run_api E (Wait_status m v t) = int_result (ieee1284_wait_status E m v t)"
| "run_api E Read_control = int_result (ieee1284_read_control E)"
| "run_api E (Write_control b) = no_result (ieee1284_write_control E b)"
| "run_api E (Frob_control m v) = no_result (ieee1284_frob_control E m v)"
| "run_api E (Do_nack_handshake b a t) = int_result (ieee1284_do_nack_handshake E b a t)"
| "run_api E (Negotiate m) = int_result (ieee1284_negotiate E m)"
| "run_api E Terminate = no_result (ieee1284_terminate E)"
| "run_api E Ecp_fwd_to_rev = int_result (ieee1284_ecp_fwd_to_rev E)"
| "run_api E Ecp_rev_to_fwd = int_result (ieee1284_ecp_rev_to_fwd E)"
| "run_api E (Nibble_read f n) = fst_result (ieee1284_nibble_read E f n)"
| "run_api E (Compat_write f bs) = int_result (ieee1284_compat_write E f bs)"
| "run_api E (Byte_read f n) = fst_result (ieee1284_byte_read E f n)"
| "run_api E (Epp_read_data f n) = fst_result (ieee1284_epp_read_data E f n)"
| "run_api E (Epp_write_data f bs) = int_result (ieee1284_epp_write_data E f bs)"
| "run_api E (Epp_read_addr f n) = fst_result (ieee1284_epp_read_addr E f n)"
| "run_api E (Epp_write_addr f bs) = int_result (ieee1284_epp_write_addr E f bs)"
| "run_api E (Ecp_read_data f n) = fst_result (ieee1284_ecp_read_data E f n)"
| "run_api E (Ecp_write_data f bs) = int_result (ieee1284_ecp_write_data E f bs)"
| "run_api E (Ecp_read_addr f n) = fst_result (ieee1284_ecp_read_addr E f n)"
| "run_api E (Ecp_write_addr f bs) = int_result (ieee1284_ecp_write_addr E f bs)"
| "run_api E (Set_timeout t) = no_result (ieee1284_set_timeout E t)"

text \<open>The calls that need a claimed port.\<close>

fun guarded :: "api \<Rightarrow> bool" where
  "guarded (Open f c) = False"
| "guarded Claim = False"
| "guarded Release = False"
| "guarded Get_irq_fd = False"
| "guarded (Clear_irq n) = False"
| "guarded (Set_timeout t) = False"
| "guarded _ = True"

lemmas api_defs = ieee1284_read_data_def
  ieee1284_write_data_def
  ieee1284_wait_data_def
  ieee1284_data_dir_def
  ieee1284_read_status_def
  ieee1284_wait_status_def
  ieee1284_read_control_def
  ieee1284_write_control_def
  ieee1284_frob_control_def
  ieee1284_do_nack_handshake_def
  ieee1284_negotiate_def
  ieee1284_terminate_def
  ieee1284_ecp_fwd_to_rev_def
  ieee1284_ecp_rev_to_fwd_def
  ieee1284_nibble_read_def
  ieee1284_compat_write_def
  ieee1284_byte_read_def
  ieee1284_epp_read_data_def
  ieee1284_epp_write_data_def
  ieee1284_epp_read_addr_def
  ieee1284_epp_write_addr_def
  ieee1284_ecp_read_data_def
  ieee1284_ecp_write_data_def
  ieee1284_ecp_read_addr_def
  ieee1284_ecp_write_addr_def

lemma post_result_iff:
  "post (int_result m) s (\<lambda>_. Q) \<longleftrightarrow> post m s (\<lambda>_. Q)"
  "post (fst_result n) s (\<lambda>_. Q) \<longleftrightarrow> post n s (\<lambda>_. Q)"
  "post (no_result k) s (\<lambda>_. Q) \<longleftrightarrow> post k s (\<lambda>_. Q)"
  by (auto simp: int_result_def fst_result_def no_result_def post_def bindp_eq_Ret ret_eq_Ret)

lemma if_claimed_not: "\<not> truth (claimed (prt s)) \<Longrightarrow> if_claimed r m s = Some (Ret r s)"
  by (simp add: if_claimed_def bindp_def gets_def ret_def)

lemma if_claimed_yes: "truth (claimed (prt s)) \<Longrightarrow> if_claimed r m s = m s"
  by (simp add: if_claimed_def bindp_def gets_def)

lemma result_run:
  "m s = Some (Ret r s') \<Longrightarrow> int_result m s = Some (Ret (Some r) s')"
  "n s = Some (Ret q s') \<Longrightarrow> fst_result n s = Some (Ret (Some (fst q)) s')"
  "k s = Some (Ret x s') \<Longrightarrow> no_result k s = Some (Ret None s')"
  by (simp_all add: int_result_def fst_result_def no_result_def bindp_def ret_def)

lemma unclaimed_run:
  assumes "guarded c" and "\<not> truth (claimed (prt s))"
  shows "\<exists>r. run_api E c s = Some (Ret r s) \<and> (r = None \<or> r = Some E1284_INVALIDPORT)"
  using assms
  by (cases c) (simp_all add: api_defs int_result_def fst_result_def no_result_def bindp_def
      ret_def if_claimed_not)

subsection \<open>What the calls leave alone\<close>

text \<open>
  The life of a port: its table, whether it is open and claimed, its reference count.  Only
  opening, claiming and releasing change it.
\<close>

definition life :: "'w sys \<Rightarrow> parport_access_methods \<times> int \<times> int \<times> int" where
  "life s = (fn (prt s), opened (prt s), claimed (prt s), refcount (prt s))"

lemma core_mode_life: "core_mode s' = core_mode s \<Longrightarrow> life s' = life s"
  using core_modeD(7,8,9,10) [of s' s] by (simp add: life_def)

lemma keeps_core_mode_life: "keeps core_mode m \<Longrightarrow> keeps life m"
  by (auto simp: keeps_def post_def intro: core_mode_life)

lemma keeps_core_life: "keeps core m \<Longrightarrow> keeps life m"
  by (intro keeps_core_mode_life keeps_core_mode keeps_core_phase)

lemma keeps_core_phase_life: "keeps core_phase m \<Longrightarrow> keeps life m"
  by (intro keeps_core_mode_life keeps_core_mode)

lemma stable_life [simp, keeps_intro]: "stable life"
  by (simp add: stable_def life_def)

lemma life_upd [simp]:
  "(fn (f (prt s)), opened (f (prt s)), claimed (f (prt s)), refcount (f (prt s))) = life s \<Longrightarrow>
     life (s\<lparr>prt := f (prt s)\<rparr>) = life s"
  by (simp add: life_def)

named_theorems life_intro \<open>frame rules for the life of a port\<close>

lemma life_ppdev_set_mode: "keeps life (ppdev_set_mode E mode flags addr)"
  unfolding ppdev_set_mode_def upd_priv_def Let_def
  by (intro keeps_intro) (simp_all add: life_def)

lemma life_ppdev_transfer:
  "keeps life (ppdev_read E flags mode mflags addr len)"
  "keeps life (ppdev_write E flags mode mflags addr buffer)"
  unfolding ppdev_read_def ppdev_write_def dev_read_def dev_write_def
  by (auto intro!: keeps_intro life_ppdev_set_mode split: prod.split)

lemma life_pins [life_intro]:
  "keeps life (run_read_data E f1)" "keeps life (run_write_data E b f2)"
  "keeps life (run_data_dir E r f3)" "keeps life (run_read_status E f4)"
  "keeps life (run_wait_status E m v t f5)" "keeps life (run_write_control E c f6)"
  "keeps life (run_frob_control E m v f7)" "keeps life (run_read_control E f8)"
  by (rule keeps_core_life, rule keeps_intro)+

lemma life_run_wait_data [life_intro]: "keeps life (run_wait_data E m v t f)"
  by (cases f) (simp add: keeps_core_life port.default_wait_data_core)

lemma life_run_do_nack_handshake [life_intro]: "keeps life (run_do_nack_handshake E b a t f)"
  by (cases f) (simp_all add: default_do_nack_handshake_def keeps_intro)

lemma life_run_dir [life_intro]:
  "keeps life (run_ecp_fwd_to_rev E f)" "keeps life (run_ecp_rev_to_fwd E g)"
  by (rule keeps_core_phase_life, rule keeps_intro)+

lemma life_run_terminate [life_intro]: "keeps life (run_terminate E f)"
  by (rule keeps_core_mode_life, rule keeps_intro)

lemma life_run_negotiate [life_intro]: "keeps life (run_negotiate E mode f)"
  by (cases f) (simp_all add: keeps_core_mode_life port_mode.default_negotiate_core
      keeps_ppdev_negotiate)

lemma life_run_nibble_read [life_intro]: "keeps life (run_nibble_read E flags len f)"
  by (cases f) (simp_all add: keeps_core_mode_life port_mode.nibble_read_core
      ppdev_nibble_read_def life_ppdev_transfer)

lemma life_run_compat_write [life_intro]: "keeps life (run_compat_write E flags buffer f)"
  by (cases f) (simp_all add: keeps_core_mode_life port_mode.compat_write_core
      ppdev_compat_write_def life_ppdev_transfer)

lemma life_run_byte_read [life_intro]: "keeps life (run_byte_read E flags len f)"
  by (cases f) (simp_all add: keeps_core_life port.byte_read_core
      ppdev_byte_read_def life_ppdev_transfer)

lemma life_run_epp_read_data [life_intro]: "keeps life (run_epp_read_data E flags len f)"
  by (cases f) (simp_all add: keeps_core_life port.epp_read_core
      ppdev_epp_read_data_def life_ppdev_transfer)

lemma life_run_epp_write_data [life_intro]: "keeps life (run_epp_write_data E flags buffer f)"
  by (cases f) (simp_all add: keeps_core_life port.epp_write_core
      ppdev_epp_write_data_def life_ppdev_transfer)

lemma life_run_epp_addr [life_intro]:
  "keeps life (run_epp_read_addr E flags len f)" "keeps life (run_epp_write_addr E flags buffer g)"
  by (cases f; simp add: default_epp_read_addr_def ppdev_epp_read_addr_def keeps_ret
      life_ppdev_transfer)
     (cases g; simp add: default_epp_write_addr_def ppdev_epp_write_addr_def keeps_ret
      life_ppdev_transfer)

lemma life_run_ecp_read_data [life_intro]: "keeps life (run_ecp_read_data E flags len f)"
  by (cases f) (simp_all add: keeps_core_phase_life port_dir.ecp_read_core
      ppdev_ecp_read_data_def life_ppdev_transfer)

lemma life_run_ecp_write_data [life_intro]: "keeps life (run_ecp_write_data E flags buffer f)"
  by (cases f) (simp_all add: keeps_core_phase_life port_dir.ecp_write_core
      default_ecp_write_data_def ppdev_ecp_write_data_def life_ppdev_transfer)

lemma life_run_ecp_addr [life_intro]:
  "keeps life (run_ecp_read_addr E flags len f)" "keeps life (run_ecp_write_addr E flags buffer g)"
  by (cases f; simp add: default_ecp_read_addr_def keeps_ret)
     (cases g; simp add: keeps_core_phase_life port_dir.ecp_write_core default_ecp_write_addr_def
      ppdev_ecp_write_addr_def life_ppdev_transfer)

lemma life_run_set_timeout [life_intro]: "keeps life (run_set_timeout E t f)"
proof (cases f)
  case Ppdev_set_timeout
  then show ?thesis
    unfolding run_set_timeout.simps Ppdev_set_timeout ppdev_set_timeout_def upd_priv_def
    by (intro keeps_intro) (simp_all add: life_def)
qed (simp add: default_set_timeout_def keeps_ret)

lemma life_run_irq [life_intro]:
  "keeps life (run_get_irq_fd E f)" "keeps life (run_clear_irq E n g)"
  by (cases f; simp add: ppdev_get_irq_fd_def keeps_gets) (cases g; simp add: keeps_intro)

lemma keeps_via_or: "(\<And>f. keeps v (run f)) \<Longrightarrow> keeps v (via_or r sel run)"
  unfolding via_or_def by (intro keeps_bindp keeps_slot) (auto intro: keeps_ret split: option.split)

lemma keeps_if_claimed: "keeps v m \<Longrightarrow> keeps v (if_claimed r m)"
  unfolding if_claimed_def by (intro keeps_intro)

lemma keeps_results:
  "keeps v m \<Longrightarrow> keeps v (int_result m)" "keeps v n \<Longrightarrow> keeps v (fst_result n)"
  "keeps v k \<Longrightarrow> keeps v (no_result k)"
  unfolding int_result_def fst_result_def no_result_def by (intro keeps_intro; assumption)+

lemma guarded_life: "guarded c \<Longrightarrow> keeps life (run_api E c)"
  by (cases c)
     (auto simp: api_defs intro!: keeps_results keeps_if_claimed keeps_via keeps_via_or life_intro)

subsection \<open>The table of an open port\<close>

text \<open>The tables that opening can leave in a port.\<close>

definition known_table :: "parport_access_methods \<Rightarrow> bool" where
  "known_table m \<longleftrightarrow> m = io_access_methods \<or> m = dev_port_methods \<or> m = ppdev_access_methods \<or>
     m = ppdev_access_methods\<lparr>m_do_nack_handshake := Some Default_do_nack_handshake\<rparr> \<or>
     m = lpt_access_methods"

text \<open>The slots that the guarded calls use without looking are never null in them.\<close>

lemma known_table_slots:
  assumes "known_table m"
  shows "m_write_data m \<noteq> None" "m_wait_data m \<noteq> None" "m_read_status m \<noteq> None"
    "m_wait_status m \<noteq> None" "m_read_control m \<noteq> None" "m_write_control m \<noteq> None"
    "m_frob_control m \<noteq> None" "m_do_nack_handshake m \<noteq> None" "m_negotiate m \<noteq> None"
    "m_terminate m \<noteq> None" "m_ecp_fwd_to_rev m \<noteq> None" "m_ecp_rev_to_fwd m \<noteq> None"
    "m_nibble_read m \<noteq> None" "m_compat_write m \<noteq> None" "m_byte_read m \<noteq> None"
    "m_epp_read_data m \<noteq> None" "m_epp_write_data m \<noteq> None" "m_epp_read_addr m \<noteq> None"
    "m_epp_write_addr m \<noteq> None" "m_ecp_read_data m \<noteq> None" "m_ecp_write_data m \<noteq> None"
    "m_ecp_read_addr m \<noteq> None" "m_ecp_write_addr m \<noteq> None" "m_set_timeout m \<noteq> None"
    "m_cleanup m \<noteq> None"
  using assms
  by (auto simp: known_table_def io_access_methods_def dev_port_methods_def
      ppdev_access_methods_def lpt_access_methods_def)

text \<open>
  The software transfers use \<^verbatim>\<open>read_data\<close> and \<^verbatim>\<open>data_dir\<close> without looking too, but one table does
  not have them.
\<close>

lemma known_table_data_dir:
  "known_table m \<Longrightarrow> m_read_data m \<noteq> None \<and> m_data_dir m \<noteq> None \<or> m = lpt_access_methods"
  by (auto simp: known_table_def io_access_methods_def dev_port_methods_def ppdev_access_methods_def)

text \<open>The rest of the life of a port, which opening only changes at its end.\<close>

definition life_rest :: "'w sys \<Rightarrow> int \<times> int \<times> int" where
  "life_rest s = (opened (prt s), claimed (prt s), refcount (prt s))"

lemma stable_life_rest [simp, keeps_intro]: "stable life_rest"
  by (simp add: stable_def life_rest_def)

lemma keeps_dev_calls [keeps_intro]:
  "stable v \<Longrightarrow> keeps v (open_path E path)" "stable v \<Longrightarrow> keeps v (dev_close E)"
  by (auto simp: open_path_def dev_close_def intro!: keeps_intro
      split: option.split)

lemma keeps_find_capabilities [keeps_intro]: "stable v \<Longrightarrow> keeps v (ppdev_find_capabilities E c)"
  unfolding ppdev_find_capabilities_def Let_def by (intro keeps_intro)

lemma init_life_rest:
  "keeps life_rest (io_init E flags caps)" "keeps life_rest (ppdev_init E flags caps)"
  "keeps life_rest (lpt_init E flags caps)"
  unfolding io_init_def ppdev_init_def lpt_init_def
  by (intro keeps_intro keeps_io_permission; simp add: life_rest_def)+

lemma run_init_life_rest [keeps_intro]: "keeps life_rest (run_init E flags caps f)"
  by (cases f) (simp_all add: init_life_rest)

lemma stays_upd [stays_intro]:
  "(\<And>s. I s \<Longrightarrow> I (s\<lparr>prt := f (prt s)\<rparr>)) \<Longrightarrow> stays I (upd f)"
  unfolding upd_def by (rule stays_modify)

definition ppdev_table :: "'w sys \<Rightarrow> bool" where
  "ppdev_table s \<longleftrightarrow> fn (prt s) = ppdev_access_methods \<or>
     fn (prt s) = ppdev_access_methods\<lparr>m_do_nack_handshake := Some Default_do_nack_handshake\<rparr>"

lemma stays_frame: "keeps I m \<Longrightarrow> stays I m"
  by (erule stays_keeps) simp

lemma stable_tables [simp]: "stable ppdev_table" "stable lpt_port"
  by (simp_all add: stable_def ppdev_table_def lpt_port_def)

lemma io_init_table: "stays io_ready (io_init E flags caps)"
  unfolding io_init_def
  by (intro stays_intro stays_frame [OF keeps_io_permission] stays_frame [OF keeps_io_open(1)])
     (auto simp: io_ready_def dev_port_methods_def)

lemma ppdev_init_table: "stays ppdev_table (ppdev_init E flags caps)"
  unfolding ppdev_init_def
  by (intro stays_intro stays_frame [OF keeps_dev_calls(1)] stays_frame [OF keeps_dev_calls(2)]
      stays_frame [OF keeps_env_call] stays_frame [OF keeps_dev_ioctl]
      stays_frame [OF keeps_find_capabilities])
     (auto simp: ppdev_table_def)

lemma lpt_init_table: "stays lpt_port (lpt_init E flags caps)"
  unfolding lpt_init_def
  by (intro stays_intro stays_frame [OF keeps_dev_calls(1)]) (simp_all add: lpt_port_def)

lemma try_method_table:
  assumes "methods = io_access_methods \<or> methods = ppdev_methods b \<or> methods = lpt_methods b"
  shows "post (try_method E typ methods flags caps) s
           (\<lambda>_ s'. known_table (fn (prt s')) \<and> life_rest s' = life_rest s)"
proof (rule post_conj)
  let ?s1 = "s\<lparr>prt := (prt s)\<lparr>ptype := typ, fn := methods\<rparr>\<rparr>"
  have "post (via m_init (run_init E flags caps)) ?s1 (\<lambda>_ s'. known_table (fn (prt s')))"
  proof (rule post_via)
    fix f assume f: "m_init (fn (prt ?s1)) = Some f"
    from assms show "post (run_init E flags caps f) ?s1 (\<lambda>_ s'. known_table (fn (prt s')))"
    proof (elim disjE)
      assume m: "methods = io_access_methods"
      with f have "f = Io_init" by (simp add: io_access_methods_def)
      with m show ?thesis
        using staysD [OF io_init_table, of ?s1 E flags caps]
        by (auto simp: io_ready_def known_table_def elim!: post_weaken)
    next
      assume "methods = ppdev_methods b"
      with f have "methods = ppdev_access_methods \<and> f = Ppdev_init"
        by (auto simp: ppdev_methods_def no_ppdev_access_methods_def ppdev_access_methods_def
            null_methods_def split: if_splits)
      then show ?thesis
        using staysD [OF ppdev_init_table, of ?s1 E flags caps]
        by (auto simp: ppdev_table_def known_table_def elim!: post_weaken)
    next
      assume "methods = lpt_methods b"
      with f have "methods = lpt_access_methods \<and> f = Lpt_init"
        by (auto simp: lpt_methods_def no_lpt_access_methods_def lpt_access_methods_def
            null_methods_def split: if_splits)
      then show ?thesis
        using staysD [OF lpt_init_table, of ?s1 E flags caps]
        by (auto simp: lpt_port_def known_table_def elim!: post_weaken)
    qed
  qed
  then show "post (try_method E typ methods flags caps) s (\<lambda>_ s'. known_table (fn (prt s')))"
    unfolding try_method_def by (intro post_bindp post_upd) simp
  have "keeps life_rest (try_method E typ methods flags caps)"
    unfolding try_method_def
    by (intro keeps_intro keeps_via) (simp add: life_rest_def)
  then show "post (try_method E typ methods flags caps) s (\<lambda>_ s'. life_rest s' = life_rest s)"
    by (rule keepsD)
qed

text \<open>Opening tries the access methods in turn and stops at the first that initialises.\<close>

lemma init_port_table:
  "post (init_port E flags caps) s (\<lambda>(r, _) s'.
     (known_table (fn (prt s')) \<or> fn (prt s') = fn (prt s) \<and> r = E1284_INIT) \<and>
     life_rest s' = life_rest s)"
  unfolding init_port_def
  by (intro wp_intro)
     (auto intro!: wp_intro post_weaken [OF try_method_table] split: prod.split)

lemma ieee1284_open_post:
  "post (ieee1284_open E flags caps) s (\<lambda>(r, _) s'.
     if r = E1284_OK
     then \<not> truth (opened (prt s)) \<and> opened (prt s') = 1 \<and> known_table (fn (prt s')) \<and>
          refcount (prt s') = refcount (prt s) + 1 \<and> claimed (prt s') = claimed (prt s)
     else life_rest s' = life_rest s \<and> (fn (prt s') = fn (prt s) \<or> known_table (fn (prt s'))))"
  unfolding ieee1284_open_def
  by (intro wp_intro post_weaken [OF init_port_table])
     (auto intro!: wp_intro simp: life_rest_def truth_def split: prod.split)

lemma ieee1284_open_twice:
  "truth (opened (prt s)) \<Longrightarrow> ieee1284_open E flags caps s = Some (Ret (E1284_INVALIDPORT, caps) s)"
  by (simp add: ieee1284_open_def bindp_def gets_def ret_def)

subsection \<open>The invariant of a port\<close>

text \<open>
  A port that is open or claimed has one of the known tables, so the guarded calls find a
  function in every slot that they call without a check.
\<close>

definition port_inv :: "'w sys \<Rightarrow> bool" where
  "port_inv s \<longleftrightarrow> (fn (prt s) = null_methods \<or> known_table (fn (prt s))) \<and>
     (truth (opened (prt s)) \<or> truth (claimed (prt s)) \<longrightarrow> known_table (fn (prt s)))"

lemma port_inv_life: "life s' = life s \<Longrightarrow> port_inv s' = port_inv s"
  by (simp add: life_def port_inv_def)

lemma port_inv_keeps_life: "keeps life m \<Longrightarrow> stays port_inv m"
  by (erule stays_keeps) (rule port_inv_life)

lemma stays_results:
  "stays I m \<Longrightarrow> stays I (int_result m)" "stays I n \<Longrightarrow> stays I (fst_result n)"
  "stays I k \<Longrightarrow> stays I (no_result k)"
  unfolding int_result_def fst_result_def no_result_def by (intro stays_intro; assumption)+

lemma open_inv: "stays port_inv (ieee1284_open E flags caps)"
proof (rule staysI)
  fix s :: "'a sys" assume "port_inv s"
  then show "post (ieee1284_open E flags caps) s (\<lambda>_. port_inv)"
    by (intro post_weaken [OF ieee1284_open_post])
       (auto simp: port_inv_def life_rest_def split: if_splits)
qed

lemma keeps_run_claim: "keeps life (run_claim E f)" "keeps life (run_release E g)"
  by (cases f; simp add: keeps_intro) (cases g; simp add: keeps_intro)

lemma claim_post:
  "post (ieee1284_claim E) s (\<lambda>r s'. fn (prt s') = fn (prt s) \<and> opened (prt s') = opened (prt s) \<and>
     refcount (prt s') = refcount (prt s) \<and>
     (if r = E1284_OK then truth (opened (prt s)) \<and> \<not> truth (claimed (prt s)) \<and> claimed (prt s') = 1
      else claimed (prt s') = claimed (prt s)))"
proof -
  have "keeps life (via_or E1284_OK m_claim (run_claim E))"
    by (intro keeps_via_or keeps_run_claim)
  then show ?thesis
    unfolding ieee1284_claim_def
    by (intro wp_intro post_keeps [of life]) (auto simp: life_def truth_def)
qed

lemma claim_inv: "stays port_inv (ieee1284_claim E)"
proof (rule staysI)
  fix s :: "'a sys" assume "port_inv s"
  then show "post (ieee1284_claim E) s (\<lambda>_. port_inv)"
    by (intro post_weaken [OF claim_post]) (auto simp: port_inv_def split: if_splits)
qed

lemma release_post:
  "post (ieee1284_release E) s (\<lambda>_ s'. claimed (prt s') = 0 \<and> fn (prt s') = fn (prt s) \<and>
     opened (prt s') = opened (prt s) \<and> refcount (prt s') = refcount (prt s))"
proof -
  have "keeps life (if truth c then via_or () m_release (run_release E) else ret ())" for c
    by (intro keeps_if keeps_ret keeps_via_or keeps_run_claim)
  then show ?thesis
    unfolding ieee1284_release_def
    by (intro post_bindp [of "gets _"] post_gets post_bindp [of "If _ _ _"] post_upd
        post_keeps [of life]) (auto simp: life_def)
qed

lemma release_inv: "stays port_inv (ieee1284_release E)"
proof (rule staysI)
  fix s :: "'a sys" assume "port_inv s"
  then show "post (ieee1284_release E) s (\<lambda>_. port_inv)"
    by (intro post_weaken [OF release_post]) (auto simp: port_inv_def truth_def)
qed

lemma unguarded_life:
  "keeps life (ieee1284_get_irq_fd E)" "keeps life (ieee1284_clear_irq E n)"
  "keeps life (ieee1284_set_timeout E t)"
  unfolding ieee1284_get_irq_fd_def ieee1284_clear_irq_def ieee1284_set_timeout_def
  by (intro keeps_bindp keeps_gets keeps_if keeps_ret keeps_slot keeps_case_option keeps_via_or
      keeps_via life_intro)+

lemma run_api_inv: "stays port_inv (run_api E c)"
proof (cases "guarded c")
  case True
  then show ?thesis by (intro port_inv_keeps_life guarded_life)
next
  case False
  then show ?thesis
    by (cases c) (simp_all add: stays_results open_inv claim_inv release_inv
        port_inv_keeps_life unguarded_life)
qed

subsection \<open>Null slots\<close>

text \<open>
  The LPT table has no \<^verbatim>\<open>data_dir\<close> and no \<^verbatim>\<open>read_data\<close>, but its other slots hold defaults
  that call them: those transfers fault on a claimed LPT port, and a read of the data lines
  returns the number 2.
\<close>

lemma lpt_slots:
  assumes "lpt_port s"
  shows "m_read_data (fn (prt s)) = None" "m_data_dir (fn (prt s)) = None"
    "m_frob_control (fn (prt s)) = Some Lpt_frob_control"
    "m_epp_read_data (fn (prt s)) = Some Default_epp_read_data"
    "m_epp_write_data (fn (prt s)) = Some Default_epp_write_data"
    "m_ecp_fwd_to_rev (fn (prt s)) = Some Default_ecp_fwd_to_rev"
  using assms by (simp_all add: lpt_port_def lpt_access_methods_def)

lemma via_run: "sel (fn (prt s)) = Some f \<Longrightarrow> via sel run s = run f s"
  by (simp add: via_def slot_def bindp_def gets_def call_def)

lemma via_null: "sel (fn (prt s)) = None \<Longrightarrow> via sel run s = Some (Fault Null_call)"
  by (simp add: via_def slot_def bindp_def gets_def call_def fail_def)

lemma lpt_frob_run:
  assumes "lpt_port s"
  shows "\<exists>s'. p_frob_control (port_pins E) m v s = Some (Ret () s') \<and> lpt_port s'"
  using assms lpt_slots(3) [OF assms]
  by (auto simp: port_pins_def via_run lpt_frob_control_def lpt_raw_frob_control_def Let_def
      dev_ioctl_def bindp_def gets_def env_call_def ret_def upd_def modify_def lpt_port_def
      split: prod.split)

lemma lpt_data_dir_faults: "lpt_port s \<Longrightarrow> p_data_dir (port_pins E) r s = Some (Fault Null_call)"
  by (simp add: port_pins_def via_null lpt_slots)

text \<open>So a program that frobs and then turns the data lines round always faults.\<close>

lemma lpt_frob_dir_faults:
  assumes "lpt_port s"
  shows "bindp (p_frob_control (port_pins E) m v) (\<lambda>_. bindp (p_data_dir (port_pins E) r) k) s =
           Some (Fault Null_call)"
  using lpt_frob_run [OF assms, of E m v]
  by (auto simp: bindp_def lpt_data_dir_faults)

lemma lpt_port_faults:
  assumes "lpt_port s" and "truth (claimed (prt s))"
  shows "ieee1284_epp_read_data E flags len s = Some (Fault Null_call)"
    and "ieee1284_epp_write_data E flags buffer s = Some (Fault Null_call)"
    and "ieee1284_ecp_fwd_to_rev E s = Some (Fault Null_call)"
  using assms
  by (simp_all add: ieee1284_epp_read_data_def ieee1284_epp_write_data_def
      ieee1284_ecp_fwd_to_rev_def if_claimed_yes via_run lpt_slots default_epp_read_data_def
      default_epp_write_data_def default_ecp_fwd_to_rev_def lpt_frob_dir_faults)

lemma lpt_read_data_value:
  assumes "lpt_port s" and "truth (claimed (prt s))"
  shows "ieee1284_read_data E s = Some (Ret 2 s)"
  using assms
  by (simp add: ieee1284_read_data_def if_claimed_yes via_or_def slot_def bindp_def gets_def
      ret_def lpt_slots)

text \<open>A port that has never been opened has no \<^verbatim>\<open>set_timeout\<close>, and the call is not guarded.\<close>

lemma set_timeout_null:
  "fn (prt s) = null_methods \<Longrightarrow> ieee1284_set_timeout E t s = Some (Fault Null_call)"
  by (simp add: ieee1284_set_timeout_def via_null null_methods_def)

subsection \<open>Runs of a client\<close>

text \<open>A client makes calls on the port, one after the other, in any order.\<close>

inductive port_run :: "'w env \<Rightarrow> 'w sys \<Rightarrow> 'w sys \<Rightarrow> bool" for E where
  port_start: "port_run E s s"
| port_call: "port_run E s s1 \<Longrightarrow> run_api E c s1 = Some (Ret r s2) \<Longrightarrow> port_run E s s2"

inductive_cases port_runE: "port_run E s s'"

lemma port_run_stays:
  assumes "port_run E s s'" and "\<And>c. stays I (run_api E c)" and "I s"
  shows "I s'"
  using assms(1,3)
proof (induction rule: port_run.induct)
  case (port_call s s1 c r s2)
  then show ?case using staysD [OF assms(2)] by (blast dest: postD)
qed

text \<open>A port as \<^verbatim>\<open>add_port\<close> leaves it.\<close>

definition fresh_port :: "parport_internal \<Rightarrow> bool" where
  "fresh_port p \<longleftrightarrow> fn p = null_methods \<and> opened p = 0 \<and> claimed p = 0"

lemma fresh_port_inv: "fresh_port (prt s) \<Longrightarrow> port_inv s"
  by (simp add: fresh_port_def port_inv_def truth_def)

subsection \<open>Direct I/O: the bounded calls return\<close>

lemma works_if_claimed: "works clk I m \<Longrightarrow> works clk I (if_claimed r m)"
  unfolding if_claimed_def by (intro works_intro)

lemma works_results:
  "works clk I m \<Longrightarrow> works clk I (int_result m)" "works clk I n \<Longrightarrow> works clk I (fst_result n)"
  "works clk I k \<Longrightarrow> works clk I (no_result k)"
  unfolding int_result_def fst_result_def no_result_def by (intro works_intro; assumption)+

lemma works_via_or_io:
  assumes "sel io_access_methods = Some f" and "sel dev_port_methods = Some f"
    and "works clk (io_ok E clk) (run f)"
  shows "works clk (io_ok E clk) (via_or r sel run)"
  unfolding works_def
proof (intro allI impI)
  fix s assume I: "io_ok E clk s"
  then have "sel (fn (prt s)) = Some f"
    using assms(1,2) by (auto simp: io_ok_def io_ready_def)
  with worksD [OF assms(3) I]
  show "total (via_or r sel run) s (\<lambda>_ s'. io_ok E clk s' \<and> clk (world s) \<le> clk (world s'))"
    by (simp add: via_or_def slot_def bindp_def gets_def total_def)
qed

lemma io_slots2:
  "m_wait_data io_access_methods = Some Default_wait_data"
  "m_wait_data dev_port_methods = Some Default_wait_data"
  "m_read_control io_access_methods = Some Io_read_control"
  "m_read_control dev_port_methods = Some Io_read_control"
  "m_do_nack_handshake io_access_methods = Some Default_do_nack_handshake"
  "m_do_nack_handshake dev_port_methods = Some Default_do_nack_handshake"
  "m_epp_read_addr io_access_methods = Some Default_epp_read_addr"
  "m_epp_read_addr dev_port_methods = Some Default_epp_read_addr"
  "m_epp_write_addr io_access_methods = Some Default_epp_write_addr"
  "m_epp_write_addr dev_port_methods = Some Default_epp_write_addr"
  "m_ecp_read_addr io_access_methods = Some Default_ecp_read_addr"
  "m_ecp_read_addr dev_port_methods = Some Default_ecp_read_addr"
  by (simp_all add: io_access_methods_def dev_port_methods_def)

lemmas works_io_slot2 = works_via_io [OF io_slots2(1,2)] works_via_io [OF io_slots2(3,4)]
  works_via_io [OF io_slots2(5,6)] works_via_io [OF io_slots2(7,8)]
  works_via_io [OF io_slots2(9,10)] works_via_io [OF io_slots2(11,12)]

text \<open>The calls whose loops are bounded: not the ECP transfers, which can wait for ever.\<close>

fun bounded_call :: "api \<Rightarrow> bool" where
  "bounded_call (Ecp_read_data _ _) = False"
| "bounded_call (Ecp_write_data _ _) = False"
| "bounded_call (Ecp_write_addr _ _) = False"
| "bounded_call (Wait_data _ _ t) = (0 \<le> tv_usec t)"
| "bounded_call (Wait_status _ _ t) = (0 \<le> tv_usec t)"
| "bounded_call c = guarded c"

lemma io_call_works: "works clk (io_ok E clk) (ieee1284_negotiate E mode)"
  "works clk (io_ok E clk) (ieee1284_nibble_read E flags len)"
  "works clk (io_ok E clk) (ieee1284_compat_write E flags buffer)"
  "works clk (io_ok E clk) (ieee1284_byte_read E flags len)"
  "works clk (io_ok E clk) (ieee1284_epp_read_data E flags len)"
  "works clk (io_ok E clk) (ieee1284_epp_write_data E flags buffer)"
  unfolding ieee1284_negotiate_def ieee1284_nibble_read_def ieee1284_compat_write_def
    ieee1284_byte_read_def ieee1284_epp_read_data_def ieee1284_epp_write_data_def
  by (rule works_if_claimed, rule works_io_slot, simp,
      rule io_mode.default_negotiate_works io_mode.nibble_read_works io_mode.compat_write_works
        io.byte_read_works io.epp_read_works io.epp_write_works)+

lemma io_pin_works:
  "works clk (io_ok E clk) (ieee1284_read_data E)"
  "works clk (io_ok E clk) (ieee1284_write_data E b)"
  "works clk (io_ok E clk) (ieee1284_data_dir E r)"
  "works clk (io_ok E clk) (ieee1284_read_status E)"
  "0 \<le> tv_usec t \<Longrightarrow> works clk (io_ok E clk) (ieee1284_wait_status E m v t)"
  "0 \<le> tv_usec t \<Longrightarrow> works clk (io_ok E clk) (ieee1284_wait_data E m v t)"
  "works clk (io_ok E clk) (ieee1284_read_control E)"
  "works clk (io_ok E clk) (ieee1284_write_control E c)"
  "works clk (io_ok E clk) (ieee1284_frob_control E m v)"
  "works clk (io_ok E clk) (ieee1284_terminate E)"
  "works clk (io_ok E clk) (ieee1284_ecp_fwd_to_rev E)"
  "works clk (io_ok E clk) (ieee1284_ecp_rev_to_fwd E)"
proof -
  show "works clk (io_ok E clk) (ieee1284_read_data E)"
    unfolding ieee1284_read_data_def
    by (intro works_if_claimed works_via_or_io [OF io_slots(1,2)])
       (simp add: works_io_ok works_io_pins)
  show "works clk (io_ok E clk) (ieee1284_data_dir E r)"
    unfolding ieee1284_data_dir_def
    by (intro works_if_claimed works_via_or_io [OF io_slots(5,6)])
       (simp add: works_io_ok works_io_pins)
  show "0 \<le> tv_usec t \<Longrightarrow> works clk (io_ok E clk) (ieee1284_wait_data E m v t)"
    unfolding ieee1284_wait_data_def
    by (intro works_if_claimed works_io_slot2(1)) (simp add: io.default_wait_data_works)
  show "works clk (io_ok E clk) (ieee1284_read_control E)"
    unfolding ieee1284_read_control_def
    by (intro works_if_claimed works_io_slot2(2)) (simp add: works_io_ok works_io_pins)
qed (unfold ieee1284_write_data_def ieee1284_read_status_def ieee1284_wait_status_def
      ieee1284_write_control_def ieee1284_frob_control_def ieee1284_terminate_def
      ieee1284_ecp_fwd_to_rev_def ieee1284_ecp_rev_to_fwd_def,
     (rule works_if_claimed, rule works_via_io_pins works_via_io_terminate works_via_io_dir,
      assumption?)+)

lemma io_trivial_works:
  "works clk (io_ok E clk) (ieee1284_do_nack_handshake E b a t)"
  "works clk (io_ok E clk) (ieee1284_epp_read_addr E flags len)"
  "works clk (io_ok E clk) (ieee1284_epp_write_addr E flags buffer)"
  "works clk (io_ok E clk) (ieee1284_ecp_read_addr E flags len)"
  unfolding ieee1284_do_nack_handshake_def ieee1284_epp_read_addr_def
    ieee1284_epp_write_addr_def ieee1284_ecp_read_addr_def
  by (rule works_if_claimed, rule works_io_slot2,
      simp add: default_do_nack_handshake_def default_epp_read_addr_def
        default_epp_write_addr_def default_ecp_read_addr_def works_ret)+

lemma io_bounded_works: "bounded_call c \<Longrightarrow> works clk (io_ok E clk) (run_api E c)"
  by (cases c) (simp_all add: works_results io_call_works io_pin_works io_trivial_works)

text \<open>On a claimed direct I/O port the public calls are the defaults.\<close>

lemma io_ready_slot:
  "io_ready s \<Longrightarrow> sel io_access_methods = Some f \<Longrightarrow> sel dev_port_methods = Some f \<Longrightarrow>
     sel (fn (prt s)) = Some f"
  by (auto simp: io_ready_def)

lemma io_calls:
  assumes "io_ready s" and "truth (claimed (prt s))"
  shows "ieee1284_negotiate E mode s = default_negotiate E (port_mode_pins E) mode s"
    "ieee1284_nibble_read E flags len s = default_nibble_read (port_mode_pins E) len s"
    "ieee1284_compat_write E flags buffer s = default_compat_write E (port_mode_pins E) buffer s"
    "ieee1284_byte_read E flags len s = default_byte_read E (port_pins E) len s"
    "ieee1284_epp_read_data E flags len s = default_epp_read_data (port_pins E) len s"
    "ieee1284_epp_write_data E flags buffer s = default_epp_write_data E (port_pins E) buffer s"
    "ieee1284_ecp_read_data E flags len s = default_ecp_read_data (port_dir_pins E) len s"
    "ieee1284_ecp_write_data E flags buffer s = default_ecp_write_data E (port_dir_pins E) buffer s"
    "ieee1284_terminate E s = default_terminate (port_dir_pins E) s"
    "ieee1284_frob_control E m v s = io_frob_control E m v s"
    "ieee1284_wait_status E m v t s = io_wait_status E m v t s"
  using assms(2)
  by (simp_all add: ieee1284_negotiate_def ieee1284_nibble_read_def ieee1284_compat_write_def
      ieee1284_byte_read_def ieee1284_epp_read_data_def ieee1284_epp_write_data_def
      ieee1284_ecp_read_data_def ieee1284_ecp_write_data_def ieee1284_terminate_def
      ieee1284_frob_control_def ieee1284_wait_status_def if_claimed_yes via_run
      io_ready_slot [OF assms(1) io_slots(1,2)] io_ready_slot [OF assms(1) io_slots(9,10)]
      io_ready_slot [OF assms(1) io_slots(13,14)] io_ready_slot [OF assms(1) io_slots(19,20)]
      io_ready_slot [OF assms(1) io_slots(21,22)] io_ready_slot [OF assms(1) io_slots(23,24)]
      io_ready_slot [OF assms(1) io_slots(25,26)] io_ready_slot [OF assms(1) io_slots(27,28)]
      io_ready_slot [OF assms(1) io_slots(29,30)] io_ready_slot [OF assms(1) io_slots(31,32)]
      io_ready_slot [OF assms(1) io_slots(33,34)] io_ready_slot [OF assms(1) io_slots(35,36)])

lemma io_ok_ready: "io_ok E clk s \<Longrightarrow> io_ready s"
  by (simp add: io_ok_def)

lemma raw_io_ready: "raw_io_port s \<Longrightarrow> io_ready s"
  by (simp add: raw_io_port_def io_ready_def)

text \<open>Polling the status on a direct I/O port.\<close>

lemma io_wait_status_total:
  assumes "io_ok E clk s" and "0 \<le> tv_usec t"
  shows "total (io_wait_status E m v t) s (\<lambda>r s'. io_ok E clk s' \<and> prt s' = prt s \<and>
     (r = E1284_OK \<and> (\<exists>s1 st. io_read_status E s1 = Some (Ret st s') \<and> uchar st AND m = v) \<or>
      r = E1284_TIMEDOUT \<and> clk (world s) + usecs t \<le> clk (world s')))"
proof -
  from assms(1) have ok: "clock_ok E clk" by (rule io_ok_clock)
  have hit: "works clk (io_ok E clk) (bindp (io_read_status E) (\<lambda>st. ret (uchar st AND m = v)))"
    by (intro works_bindp works_ret works_io_ok works_io_pins)
  have "total (io_wait_status E m v t) s (\<lambda>r s'. io_ok E clk s' \<and> clk (world s) \<le> clk (world s') \<and>
      (r = E1284_TIMEDOUT \<longrightarrow> clk (world s) + usecs t \<le> clk (world s')))"
    unfolding io_wait_status_def
    by (rule poll_until_works [OF ok io_ok_stable hit assms(2) assms(1)])
  from total_conj [OF this io_wait_status_post] show ?thesis
    by (rule total_weaken) blast
qed

lemma total_cong: "m s = n s \<Longrightarrow> total m s Q = total n s Q"
  by (simp add: total_def)

lemma post_cong: "m s = n s \<Longrightarrow> post m s Q = post n s Q"
  by (simp add: post_def)

subsection \<open>A silent ECP peripheral\<close>

text \<open>A peripheral that never lowers nAck: bit 6 of the status register stays set.\<close>

definition nack_stuck :: "'w env \<Rightarrow> bool" where
  "nack_stuck E \<longleftrightarrow> in_out_build (env_build E) \<and> (\<forall>a w. bit (fst (env_inb E a w)) 6)"

lemma io_read_status_raw:
  assumes "in_out_build (env_build E)" and "raw_io_port s" and "io_read_status E s = Some (Ret st s')"
  shows "\<exists>b w. env_inb E (ucast (base (prt s) + 1)) (world s) = (b, w) \<and>
           st = uint (b XOR S1284_INVERTED)"
  using assms
  by (auto simp: io_read_status_def do_inb_def slot_def raw_io_port_def io_access_methods_def
      raw_inb_def io_h_inb_def bindp_def gets_def call_def env_call_def ret_def split: prod.splits)

lemma nack_stuck_status:
  assumes "nack_stuck E" and "raw_io_port s" and "io_read_status E s = Some (Ret st s')"
  shows "uchar st AND S1284_NACK \<noteq> 0"
proof -
  from assms(1) have "in_out_build (env_build E)" by (simp add: nack_stuck_def)
  from io_read_status_raw [OF this assms(2,3)] obtain b w where
    b: "env_inb E (ucast (base (prt s) + 1)) (world s) = (b, w)" "st = uint (b XOR 0x80)"
    by blast
  from assms(1) b(1) have "bit b 6" unfolding nack_stuck_def by (metis fst_conv)
  moreover have "bit (0x80 :: u8) 6 = False" by simp
  ultimately have "bit (uchar st) 6" using b(2) by (simp add: bit_xor_iff)
  then show ?thesis using and_exp_eq_0_iff_not_bit [of "uchar st" 6] by simp
qed

lemma raw_io_prt: "prt s' = prt s \<Longrightarrow> raw_io_port s' = raw_io_port s"
  by (simp add: raw_io_port_def)

lemma nack_stuck_timeout:
  assumes "nack_stuck E" and "io_ok E clk s \<and> raw_io_port s"
  shows "total (p_wait_status (port_pins E) S1284_NACK 0 signal_timeout) s
           (\<lambda>r s'. r = E1284_TIMEDOUT \<and> (io_ok E clk s' \<and> raw_io_port s'))"
proof -
  have slot: "m_wait_status (fn (prt s)) = Some Io_wait_status"
    using io_ready_slot [OF raw_io_ready io_slots(9,10)] assms(2) by blast
  have "total (io_wait_status E S1284_NACK 0 signal_timeout) s
           (\<lambda>r s'. r = E1284_TIMEDOUT \<and> (io_ok E clk s' \<and> raw_io_port s'))"
  proof (rule total_weaken [OF io_wait_status_total [of E clk]])
    fix r s'
    assume *: "io_ok E clk s' \<and> prt s' = prt s \<and>
      (r = E1284_OK \<and> (\<exists>s1 st. io_read_status E s1 = Some (Ret st s') \<and> uchar st AND S1284_NACK = 0) \<or>
       r = E1284_TIMEDOUT \<and> clk (world s) + usecs signal_timeout \<le> clk (world s'))"
    have "\<not> (io_read_status E s1 = Some (Ret st s') \<and> uchar st AND S1284_NACK = 0)" for s1 st
    proof
      assume r: "io_read_status E s1 = Some (Ret st s') \<and> uchar st AND S1284_NACK = 0"
      then have "prt s' = prt s1"
        using keeps_eq [OF keeps_io_read_status [OF stable_prt_id]] by blast
      with * assms(2) have "raw_io_port s1" using raw_io_prt by metis
      with nack_stuck_status [OF assms(1)] r show False by blast
    qed
    with * assms(2) show "r = E1284_TIMEDOUT \<and> (io_ok E clk s' \<and> raw_io_port s')"
      using raw_io_prt by blast
  qed (use assms(2) in \<open>auto simp: signal_timeout_def lookup_delay_def\<close>)
  with slot show ?thesis
    by (simp add: port_pins_def total_def via_run)
qed

lemma ecp_read_waits:
  assumes "nack_stuck E" and "io_ok E clk s" and "raw_io_port s" and "truth (claimed (prt s))"
    and "current_phase (prt s) = PH1284_REV_IDLE"
  shows "ieee1284_ecp_read_data E flags (Suc n) s = None"
proof -
  let ?I = "\<lambda>s. io_ok E clk s \<and> raw_io_port s"
  let ?frob = "p_frob_control (port_pins E) (C1284_NAUTOFD OR C1284_NSTROBE OR C1284_NINIT) C1284_NSTROBE"
  let ?s1 = "s\<lparr>prt := (prt s)\<lparr>current_phase := PH1284_REV_DATA\<rparr>\<rparr>"
  have I1: "io_ok E clk ?s1" "raw_io_port ?s1"
    using assms(2,3) by (simp_all add: io_ok_def raw_io_port_def io_ready_def)
  have "total ?frob ?s1 (\<lambda>_ s'. io_ok E clk s' \<and> clk (world ?s1) \<le> clk (world s'))"
    by (rule worksD [OF io.frob_control_works I1(1)])
  then obtain s2 where s2: "?frob ?s1 = Some (Ret () s2)" "io_ok E clk s2"
    by (auto simp: total_def)
  have "core s2 = core ?s1"
    using keeps_eq [OF port.frob_control_core s2(1)] .
  then have "raw_io_port s2"
    using table_core_mode(1) [OF core_phase_core_mode [OF core_core_phase]] I1(2) by blast
  with s2(2) have "wait_event_43 (port_pins E) s2 = None"
    by (intro wait_event_43_diverges [where I = ?I] nack_stuck_timeout [OF assms(1)]) simp_all
  then have loop: "ecp_read_loop (port_dir_pins E) (Suc n) None [] s2 = None"
    by (subst ecp_read_loop.simps) (simp add: bindp_def wait_event_43_def)
  from assms(4) have "ieee1284_ecp_read_data E flags (Suc n) s =
      default_ecp_read_data (port_dir_pins E) (Suc n) s"
    by (rule io_calls(7) [OF raw_io_ready [OF assms(3)]])
  with s2(1) loop assms(5) show ?thesis
    by (simp add: default_ecp_read_data_def bindp_def gets_def ret_def truth_def upd_def modify_def)
qed

lemma raw_read_status:
  assumes "in_out_build (env_build E)" and "raw_io_port s" and "env_inb E (ucast (base (prt s) + 1)) (world s) = (b, w)"
  shows "p_read_status (port_mode_pins E) s = Some (Ret (uint (b XOR S1284_INVERTED))
           (s\<lparr>world := w, trace := trace s @ [Inb (ucast (base (prt s) + 1)) b]\<rparr>))"
  using assms
  by (simp add: port_pins_def via_run raw_io_port_def io_access_methods_def io_read_status_def
      do_inb_def slot_def raw_inb_def io_h_inb_def bindp_def gets_def call_def env_call_def ret_def)

lemma nfault_bit: "truth (uint (b XOR S1284_INVERTED :: u8) AND S1284_NFAULT) = bit b 3"
proof -
  have "bit (0x80 :: u8) 3 = False" by simp
  then show ?thesis
    using and_exp_eq_0_iff_not_bit [of "uint (b XOR 0x80)" 3]
    by (simp add: truth_def bit_uint_iff bit_xor_iff)
qed

text \<open>A peripheral that has no data: a nibble mode read returns the length asked for.\<close>

lemma nibble_read_silent:
  assumes "io_ok E clk s" and "raw_io_port s" and "truth (claimed (prt s))"
    and "in_out_build (env_build E)" and "bit (fst (env_inb E (ucast (base (prt s) + 1)) (world s))) 3"
  shows "\<exists>s'. ieee1284_nibble_read E flags (Suc n) s = Some (Ret (int (Suc n), []) s')"
proof -
  obtain b w where b: "env_inb E (ucast (base (prt s) + 1)) (world s) = (b, w)"
    by (cases "env_inb E (ucast (base (prt s) + 1)) (world s)")
  have status: "\<exists>s1. p_read_status (port_mode_pins E) s = Some (Ret (uint (b XOR 0x80)) s1) \<and>
      io_ok E clk s1"
    using assms(1) raw_read_status [OF assms(4,2) b] by (auto simp: io_ok_def io_ready_def)
  then obtain s1 where s1: "p_read_status (port_mode_pins E) s = Some (Ret (uint (b XOR 0x80)) s1)"
    "io_ok E clk s1" by blast
  have "total (p_frob_control (port_mode_pins E) C1284_NAUTOFD 0) s1
      (\<lambda>_ s'. io_ok E clk s' \<and> clk (world s1) \<le> clk (world s'))"
    by (rule worksD [OF io_mode.frob_control_works s1(2)])
  then obtain s2 where "p_frob_control (port_mode_pins E) C1284_NAUTOFD 0 s1 = Some (Ret () s2)"
    by (auto simp: total_def)
  moreover have "truth (uint (b XOR 0x80) AND S1284_NFAULT)"
    using assms(5) b by (simp add: nfault_bit)
  ultimately show ?thesis
    using nibble_no_data [OF s1(1)] io_calls(2) [OF raw_io_ready [OF assms(2)] assms(3)] by metis
qed

subsection \<open>Ports of the ppdev driver\<close>

text \<open>On a claimed ppdev port the public calls are those of \<^verbatim>\<open>access_ppdev.c\<close>.\<close>

lemma ppdev_calls:
  assumes "ppdev_table s" and "truth (claimed (prt s))"
  shows "ieee1284_negotiate E mode s = ppdev_negotiate E mode s"
    "ieee1284_terminate E s = ppdev_terminate E s"
    "ieee1284_nibble_read E flags len s = ppdev_nibble_read E flags len s"
    "ieee1284_compat_write E flags buffer s = ppdev_compat_write E flags buffer s"
    "ieee1284_byte_read E flags len s = ppdev_byte_read E flags len s"
    "ieee1284_epp_read_data E flags len s = ppdev_epp_read_data E flags len s"
    "ieee1284_epp_write_data E flags buffer s = ppdev_epp_write_data E flags buffer s"
    "ieee1284_epp_read_addr E flags len s = ppdev_epp_read_addr E flags len s"
    "ieee1284_epp_write_addr E flags buffer s = ppdev_epp_write_addr E flags buffer s"
    "ieee1284_ecp_read_data E flags len s = ppdev_ecp_read_data E flags len s"
    "ieee1284_ecp_write_data E flags buffer s = ppdev_ecp_write_data E flags buffer s"
    "ieee1284_ecp_write_addr E flags buffer s = ppdev_ecp_write_addr E flags buffer s"
  using assms
  by (auto simp: api_defs if_claimed_yes via_run ppdev_table_def ppdev_access_methods_def)

text \<open>On NetBSD, whose instructions the library never reaches, the calls on the pins are constant.\<close>

lemma netbsd_do_outb:
  assumes "env_build E = NetBSD" and "raw_io_port s"
  shows "do_outb E b a s = Some (Ret () s)" "do_inb E a s = Some (Ret (uchar E1284_SYS) s)"
  using assms
  by (simp_all add: do_outb_def do_inb_def raw_outb_def raw_inb_def slot_def raw_io_port_def
      io_access_methods_def bindp_def gets_def call_def ret_def)

lemma netbsd_raw_frob:
  assumes "env_build E = NetBSD" and "raw_io_port s"
  shows "\<exists>c. io_raw_frob_control E m v s = Some (Ret () (s\<lparr>prt := (prt s)\<lparr>ctr := c\<rparr>\<rparr>))"
  using netbsd_do_outb(1) [OF assms]
  by (auto simp: io_raw_frob_control_def Let_def bindp_def gets_def upd_def modify_def)

lemma netbsd_frob:
  assumes "env_build E = NetBSD" and "raw_io_port s"
  shows "\<exists>c. io_frob_control E m v s = Some (Ret () (s\<lparr>prt := (prt s)\<lparr>ctr := c\<rparr>\<rparr>))"
proof -
  obtain c where c: "io_raw_frob_control E 0x20 (if truth (uint (v AND 0x20)) then 0x20 else 0x00) s =
      Some (Ret () (s\<lparr>prt := (prt s)\<lparr>ctr := c\<rparr>\<rparr>))"
    using netbsd_raw_frob [OF assms] by blast
  have "raw_io_port (s\<lparr>prt := (prt s)\<lparr>ctr := c\<rparr>\<rparr>)" using assms(2) by (simp add: raw_io_port_def)
  from netbsd_raw_frob [OF assms(1) this] c netbsd_raw_frob [OF assms] show ?thesis
    by (auto simp: io_frob_control_def io_data_dir_def bindp_def ret_def)
qed

lemma netbsd_silent:
  assumes "env_build E = NetBSD" and "raw_io_port s" and "truth (claimed (prt s))"
  shows "ieee1284_write_data E b s = Some (Ret () s) \<and>
     ieee1284_read_status E s = Some (Ret (uint (uchar E1284_SYS XOR S1284_INVERTED)) s) \<and>
     (\<exists>c. ieee1284_frob_control E m v s = Some (Ret () (s\<lparr>prt := (prt s)\<lparr>ctr := c\<rparr>\<rparr>)))"
proof -
  note ready = raw_io_ready [OF assms(2)]
  have "ieee1284_write_data E b s = io_write_data E b s" "ieee1284_read_status E s = io_read_status E s"
    using assms(3)
    by (simp_all add: ieee1284_write_data_def ieee1284_read_status_def if_claimed_yes via_run
        io_ready_slot [OF ready io_slots(3,4)] io_ready_slot [OF ready io_slots(7,8)])
  with netbsd_frob [OF assms(1,2)] show ?thesis
    by (simp add: io_calls(10) [OF ready assms(3)] io_write_data_def io_read_status_def bindp_def
        gets_def ret_def netbsd_do_outb [OF assms(1,2)])
qed

end
