(* ===== verification/Port_Soundness.thy ===== *)
theory Port_Soundness
  imports Interface
begin

section \<open>Type soundness of a port\<close>

text \<open>
  The table of a port is its dynamic type: it says which functions the calls go to, and with
  it which private data they find.  A port is well typed if the table is that of direct I/O, or
  that of ppdev with its private data allocated.  The theorem: on a well-typed open port no
  call of the type \<open>api\<close> faults, whatever the peripheral, the kernel and the clock do, and if it returns,
  the port is well typed again.  For the software transfers this is proved once, in locales
  for pins that do not fault, which are interpreted for both kinds of port.
\<close>

subsection \<open>Operations that do not fault\<close>

lemma solid_env_call [solid_intro]: "stable I \<Longrightarrow> solid I (env_call f ev)"
  by (rule solidI) (auto simp: env_call_def sound_def stable_def split: prod.split)

lemma solid_env_do [solid_intro]: "stable I \<Longrightarrow> solid I (env_do f ev)"
  by (rule solidI) (simp add: env_do_def sound_modify stable_def)

lemma solid_upd [solid_intro]: "(\<And>s. I s \<Longrightarrow> I (s\<lparr>prt := f (prt s)\<rparr>)) \<Longrightarrow> solid I (upd f)"
  by (rule solidI) (simp add: upd_def sound_modify)

text \<open>
  What the clock asks of an invariant: that it survives a change of the world, and a pause in the
  trace.
\<close>

definition undisturbed :: "('w sys \<Rightarrow> bool) \<Rightarrow> bool" where
  "undisturbed I \<longleftrightarrow> (\<forall>s w ev. I s \<longrightarrow> ev = [] \<or> (\<exists>tv. ev = [Sleep tv]) \<longrightarrow>
     I (s\<lparr>world := w, trace := trace s @ ev\<rparr>))"

lemma stable_undisturbed: "stable I \<Longrightarrow> undisturbed I"
  by (simp add: undisturbed_def stable_both)

lemma solid_silent:
  assumes "undisturbed I"
  shows "solid I (env_call f (\<lambda>_. []))" "solid I (env_do g [Sleep tv])"
proof -
  have "I (s\<lparr>world := w, trace := trace s @ ev\<rparr>)" if "I s" "ev = [] \<or> ev = [Sleep tv]" for s w ev
    using assms that unfolding undisturbed_def by blast
  note keep = this
  show "solid I (env_call f (\<lambda>_. []))"
    by (rule solidI) (auto simp: env_call_def sound_def intro: keep [where ev = "[]", simplified] split: prod.split)
  show "solid I (env_do g [Sleep tv])"
    by (rule solidI) (auto simp: env_do_def modify_def sound_def intro: keep)
qed

lemma solid_clock:
  assumes "undisturbed I"
  shows "solid I (gettimeofday E)" "solid I (ftime E)" "solid I (ms_now E)"
    "solid I (delay E d)" "solid I (udelay E n)"
  unfolding gettimeofday_def ftime_def ms_now_def delay_def udelay_def udelay_loop_def Let_def
  by (intro solid_bindp solid_ret solid_gets solid_if solid_case_option solid_loop solid_case_prod
      solid_silent assms)+

lemma solid_poll_until:
  assumes "undisturbed I" and "solid I hit"
  shows "solid I (poll_until E hit timeout)"
  unfolding poll_until_def poll_ms_def poll_loop_def poll_rounds_def Let_def
  by (intro solid_intro solid_case_prod solid_clock assms)

text \<open>The three fields that the software transfers write.\<close>

definition soft :: "('w sys \<Rightarrow> bool) \<Rightarrow> bool" where
  "soft I \<longleftrightarrow> (\<forall>s. I s \<longrightarrow> (\<forall>x. I (s\<lparr>prt := (prt s)\<lparr>current_phase := x\<rparr>\<rparr>)) \<and>
     (\<forall>c. I (s\<lparr>prt := (prt s)\<lparr>current_channel := c\<rparr>\<rparr>)) \<and> (\<forall>m. I (s\<lparr>prt := (prt s)\<lparr>current_mode := m\<rparr>\<rparr>)))"

lemma softI:
  assumes "\<And>s s'. core_mode s' = core_mode s \<Longrightarrow> I s' = I s"
  shows "soft I"
proof -
  have "I (s\<lparr>prt := (prt s)\<lparr>current_phase := x\<rparr>\<rparr>) = I s" "I (s\<lparr>prt := (prt s)\<lparr>current_channel := c\<rparr>\<rparr>) = I s"
    "I (s\<lparr>prt := (prt s)\<lparr>current_mode := m\<rparr>\<rparr>) = I s" for s x c m
    by (rule assms, simp)+
  then show ?thesis by (simp add: soft_def)
qed

lemma solid_soft:
  assumes "soft I"
  shows "solid I (upd (\<lambda>p. p\<lparr>current_phase := x\<rparr>))" "solid I (upd (\<lambda>p. p\<lparr>current_channel := c\<rparr>))"
    "solid I (upd (\<lambda>p. p\<lparr>current_mode := m\<rparr>))"
  using assms by (intro solid_upd; simp add: soft_def)+

text \<open>A call through a slot, which must not be null unless it is looked at.\<close>

lemma solid_via_or:
  assumes "\<And>s f. I s \<Longrightarrow> sel (fn (prt s)) = Some f \<Longrightarrow> solid I (run f)"
  shows "solid I (via_or r sel run)"
proof (rule solidI)
  fix s assume I: "I s"
  then show "sound (via_or r sel run) s (\<lambda>_. I)"
    using solidD [OF assms [OF I] I]
    by (auto simp: via_or_def slot_def bindp_def gets_def ret_def sound_def split: option.splits)
qed

lemma solid_via:
  assumes "\<And>s. I s \<Longrightarrow> sel (fn (prt s)) \<noteq> None"
    and "\<And>s f. I s \<Longrightarrow> sel (fn (prt s)) = Some f \<Longrightarrow> solid I (run f)"
  shows "solid I (via sel run)"
proof (rule solidI)
  fix s assume I: "I s"
  then obtain f where f: "sel (fn (prt s)) = Some f" using assms(1) by blast
  have "via sel run s = run f s" by (rule via_run) (rule f)
  with solidD [OF assms(2) [OF I f] I] show "sound (via sel run) s (\<lambda>_. I)" by (simp add: sound_def)
qed

subsection \<open>The software transfers over pins that do not fault\<close>

locale pin_safe =
  fixes P :: "('w, 'z) pins_scheme" and I :: "'w sys \<Rightarrow> bool"
  assumes I_undisturbed: "undisturbed I" and I_soft: "soft I"
    and read_data_solid: "solid I (p_read_data P)"
    and write_data_solid: "solid I (p_write_data P b)"
    and data_dir_solid: "solid I (p_data_dir P r)"
    and read_status_solid: "solid I (p_read_status P)"
    and wait_status_solid: "solid I (p_wait_status P m v t)"
    and write_control_solid: "solid I (p_write_control P c)"
    and frob_control_solid: "solid I (p_frob_control P m v)"
begin

lemmas pin_solid = solid_bindp solid_ret solid_gets solid_if solid_case_option solid_loop
  solid_case_prod read_data_solid write_data_solid data_dir_solid read_status_solid
  wait_status_solid write_control_solid frob_control_solid solid_soft [OF I_soft] solid_clock [OF I_undisturbed]

lemma wait_data_solid: "solid I (default_wait_data E P m v t)"
  unfolding default_wait_data_def by (intro solid_poll_until I_undisturbed pin_solid)

lemma switch_solid: "solid I (default_ecp_fwd_to_rev E P)" "solid I (default_ecp_rev_to_fwd P)"
  unfolding default_ecp_fwd_to_rev_def default_ecp_rev_to_fwd_def by (intro pin_solid)+

lemma terminate_handshake_solid: "solid I (terminate_handshake P)"
  unfolding terminate_handshake_def by (intro pin_solid)

lemma byte_read_solid: "solid I (default_byte_read E P len)"
proof -
  have "solid I (byte_loop E P left count buf)" for left count buf
    by (induction left arbitrary: count buf) (simp_all only: byte_loop.simps, (intro pin_solid; assumption?)+)
  then show ?thesis by (simp add: default_byte_read_def)
qed

lemma epp_read_solid: "solid I (default_epp_read_data P len)"
proof -
  have "solid I (epp_read_loop P left count buf)" for left count buf
    by (induction left arbitrary: count buf) (simp_all only: epp_read_loop.simps, (intro pin_solid; assumption?)+)
  then show ?thesis unfolding default_epp_read_data_def by (intro pin_solid)
qed

lemma poll_port_solid: "solid I (poll_port E P m r usec)"
proof -
  have "solid I (poll_port_loop E P m r i left)" for i left
    by (induction left arbitrary: i) (simp_all only: poll_port_loop.simps, (intro pin_solid; assumption?)+)
  then show ?thesis by (simp add: poll_port_def)
qed

lemma epp_write_solid: "solid I (default_epp_write_data E P buffer)"
proof -
  have "solid I (epp_write_loop E P n bs)" for n bs
    by (induction bs arbitrary: n)
       (simp_all only: epp_write_loop.simps, (intro pin_solid poll_port_solid; assumption?)+)
  then show ?thesis unfolding default_epp_write_data_def by (intro pin_solid)
qed

lemma wait_event_43_solid: "solid I (wait_event_43 P)"
  unfolding wait_event_43_def by (intro pin_solid)

lemma ecp_read_loop_solid: "solid I (ecp_read_loop P left rle buf)"
proof (induction "2 * left + (if rle = None then 1 else 0)" arbitrary: left rle buf rule: less_induct)
  case less
  note rec = less.hyps
  have command: "solid I (if rle \<noteq> None then ret False
      else bindp (p_read_status P) (\<lambda>st. ret (\<not> truth (st AND S1284_BUSY))))"
    by (intro pin_solid)
  show ?case
    unfolding ecp_read_loop.simps [of P left rle buf] Let_def
    by (intro pin_solid wait_event_43_solid command rec; simp split: if_splits)
qed

lemma ecp_offer_byte_solid: "solid I (ecp_offer_byte E P byte)"
proof -
  have "solid I (event_36_loop P retries)" for retries
    by (induction retries) (simp_all only: event_36_loop.simps, (intro pin_solid; assumption?)+)
  then show ?thesis
    unfolding ecp_offer_byte_def host_transfer_recovery_def by (intro pin_solid)
qed

lemma ecp_write_loop_solid: "solid I (ecp_write_loop E P written buf)"
  by (induction buf arbitrary: written)
     (simp_all only: ecp_write_loop.simps, (intro pin_solid ecp_offer_byte_solid; assumption?)+)

end

locale dir_safe = pin_safe P I for P :: "('w, 'z) dir_pins_scheme" and I :: "'w sys \<Rightarrow> bool" +
  assumes fwd_to_rev_solid: "solid I (p_ecp_fwd_to_rev P)"
    and rev_to_fwd_solid: "solid I (p_ecp_rev_to_fwd P)"
begin

lemma default_terminate_solid: "solid I (default_terminate P)"
  unfolding default_terminate_def
  by (intro pin_solid rev_to_fwd_solid terminate_handshake_solid)

lemma ecp_read_solid: "solid I (default_ecp_read_data P len)"
  unfolding default_ecp_read_data_def
  by (intro pin_solid fwd_to_rev_solid ecp_read_loop_solid)

lemma ecp_write_solid:
  "solid I (default_ecp_write_data E P buffer)" "solid I (default_ecp_write_addr E P buffer)"
  unfolding default_ecp_write_data_def default_ecp_write_addr_def ecp_write_def
  by (intro pin_solid rev_to_fwd_solid ecp_write_loop_solid)+

end

locale mode_safe = dir_safe P I for P :: "('w, 'z) mode_pins_scheme" and I :: "'w sys \<Rightarrow> bool" +
  assumes terminate_solid: "solid I (p_terminate P)"
begin

lemma negotiate_solid: "solid I (default_negotiate E P mode)"
  unfolding default_negotiate_def negotiate_abort_def Let_def by (intro pin_solid terminate_solid)

lemma compat_write_solid: "solid I (default_compat_write E P buffer)"
proof -
  have "solid I (compat_loop E P len count bs)" for len count bs
    by (induction bs arbitrary: count)
       (simp_all only: compat_loop.simps, (intro pin_solid terminate_solid; assumption?)+)
  then show ?thesis by (simp add: default_compat_write_def)
qed

lemma nibble_read_solid: "solid I (default_nibble_read P len)"
proof -
  have half: "solid I (nibble_half P)" unfolding nibble_half_def by (intro pin_solid)
  have "solid I (nibble_loop P n left buffer)" for n left buffer
    by (induction left arbitrary: buffer)
       (simp_all only: nibble_loop.simps nibble_error_def, (intro pin_solid terminate_solid half; assumption?)+)
  then show ?thesis by (simp add: default_nibble_read_def)
qed

end

subsection \<open>Direct I/O\<close>

text \<open>
  An invariant of direct I/O: what keeps it over the four operations that reach the registers keeps
  it over every public call.
\<close>

lemma solid_via_io:
  assumes "\<And>s. I s \<Longrightarrow> io_ready s"
    and "sel io_access_methods = Some f" and "sel dev_port_methods = Some f" and "solid I (run f)"
  shows "solid I (via sel run)" "solid I (via_or r sel run)"
proof -
  have sel: "sel (fn (prt s)) = Some f" if "I s" for s
    using assms(1) [OF that] assms(2,3) by (auto simp: io_ready_def)
  show "solid I (via sel run)" by (rule solid_via; drule sel; simp add: assms(4))
  show "solid I (via_or r sel run)" by (rule solid_via_or; drule sel; simp add: assms(4))
qed

lemmas io_tables = io_ready_def io_access_methods_def dev_port_methods_def

locale io_invariant =
  fixes E :: "'w env" and I :: "'w sys \<Rightarrow> bool"
  assumes ready: "I s \<Longrightarrow> io_ready s"
    and undisturbed: "undisturbed I" and soft: "soft I"
    and claim_free: "I s \<Longrightarrow> I (s\<lparr>prt := (prt s)\<lparr>claimed := c\<rparr>\<rparr>)"
    and read_data: "solid I (io_read_data E)"
    and write_data: "solid I (io_write_data E b)"
    and read_status: "solid I (io_read_status E)"
    and raw_frob_control: "solid I (io_raw_frob_control E m v)"
begin

lemma io_pins:
  "solid I io_read_control" "solid I (io_data_dir E r)" "solid I (io_write_control E c)"
  "solid I (io_frob_control E m v)" "solid I (io_wait_status E m v t)"
  unfolding io_read_control_def io_data_dir_def io_write_control_def io_frob_control_def
    io_wait_status_def
  by (intro solid_intro raw_frob_control solid_poll_until undisturbed read_status)+

lemmas register_ops = read_data write_data read_status io_pins

lemma via_pins:
  "solid I (via m_read_data (run_read_data E))"
  "solid I (via m_write_data (run_write_data E b))"
  "solid I (via m_data_dir (run_data_dir E r))"
  "solid I (via m_read_status (run_read_status E))"
  "solid I (via m_wait_status (run_wait_status E m v t))"
  "solid I (via m_write_control (run_write_control E c))"
  "solid I (via m_frob_control (run_frob_control E m v))"
  by (rule solid_via_io [OF ready], assumption, simp add: io_tables, simp add: io_tables,
      simp add: register_ops)+

end

sublocale io_invariant \<subseteq> on_pins: pin_safe "port_pins E" I
  by (unfold_locales, unfold port_pins_def pins.simps) (rule undisturbed soft via_pins)+

context io_invariant begin

lemmas pins_ops = on_pins.read_data_solid on_pins.write_data_solid on_pins.data_dir_solid
  on_pins.read_status_solid on_pins.wait_status_solid on_pins.write_control_solid
  on_pins.frob_control_solid

lemma via_switches:
  "solid I (via m_ecp_fwd_to_rev (run_ecp_fwd_to_rev E))"
  "solid I (via m_ecp_rev_to_fwd (run_ecp_rev_to_fwd E))"
  by (rule solid_via_io [OF ready], assumption, simp add: io_tables, simp add: io_tables,
      simp add: on_pins.switch_solid)+

end

sublocale io_invariant \<subseteq> on_dir: dir_safe "port_dir_pins E" I
  by (unfold_locales, unfold port_dir_pins_simps) 
     (rule undisturbed soft via_switches pins_ops)+

context io_invariant begin

lemma via_terminate: "solid I (via m_terminate (run_terminate E))"
  by (rule solid_via_io [OF ready], assumption, simp add: io_tables, simp add: io_tables,
      simp add: on_dir.default_terminate_solid)

end

sublocale io_invariant \<subseteq> on_modes: mode_safe "port_mode_pins E" I
  by (unfold_locales, unfold port_mode_pins_simps) 
     (rule undisturbed soft via_switches via_terminate pins_ops)+

subsection \<open>ppdev\<close>

definition ppdev_ok :: "'w sys \<Rightarrow> bool" where
  "ppdev_ok s \<longleftrightarrow> ppdev_table s \<and> access_priv (prt s) \<noteq> None"

lemma stable_ppdev_ok [simp]: "stable ppdev_ok"
  by (simp add: stable_def ppdev_ok_def ppdev_table_def)

lemma ppdev_ok_core_mode: "core_mode s' = core_mode s \<Longrightarrow> ppdev_ok s' = ppdev_ok s"
  using core_modeD(10,11) [of s' s] by (simp add: ppdev_ok_def ppdev_table_def)

lemma ppdev_ok_upd:
  "fn (f (prt s)) = fn (prt s) \<Longrightarrow> (access_priv (f (prt s)) = None) = (access_priv (prt s) = None) \<Longrightarrow>
     ppdev_ok (s\<lparr>prt := f (prt s)\<rparr>) = ppdev_ok s"
  by (simp add: ppdev_ok_def ppdev_table_def)

lemma solid_the_priv: "solid ppdev_ok the_priv"
  by (rule solidI) (auto simp: the_priv_def sound_def bindp_def gets_def ret_def ppdev_ok_def)

lemma solid_dev_ioctl: "solid ppdev_ok (dev_ioctl E req)"
  unfolding dev_ioctl_def by (intro solid_intro) simp

lemmas ppdev_rules = solid_bindp solid_ret solid_gets solid_if solid_case_prod solid_the_priv
  solid_dev_ioctl solid_env_call [OF stable_ppdev_ok] solid_upd
  solid_clock [OF stable_undisturbed [OF stable_ppdev_ok]]

lemma solid_ppdev_pins:
  "solid ppdev_ok (ppdev_read_data E)" "solid ppdev_ok (ppdev_write_data E b)"
  "solid ppdev_ok (ppdev_read_status E)" "solid ppdev_ok (ppdev_read_control E)"
  "solid ppdev_ok (ppdev_data_dir E r)" "solid ppdev_ok (ppdev_write_control E c)"
  "solid ppdev_ok (ppdev_frob_control E m v)" "solid ppdev_ok (ppdev_wait_status E m v t)"
  "solid ppdev_ok (ppdev_do_nack_handshake E c d t)" "solid ppdev_ok (ppdev_claim E)"
  "solid ppdev_ok (ppdev_release E)" "solid ppdev_ok ppdev_get_irq_fd"
  "solid ppdev_ok (ppdev_clear_irq E n)"
  unfolding ppdev_read_data_def ppdev_write_data_def ppdev_read_status_def ppdev_read_control_def
    ppdev_data_dir_def ppdev_write_control_def ppdev_frob_control_def ppdev_wait_status_def
    ppdev_do_nack_handshake_def ppdev_claim_def ppdev_release_def ppdev_get_irq_fd_def
    ppdev_clear_irq_def
  by (intro ppdev_rules solid_poll_until stable_undisturbed stable_ppdev_ok)+

lemma solid_ppdev_modes:
  "solid ppdev_ok (ppdev_negotiate E mode)" "solid ppdev_ok (ppdev_terminate E)"
  "solid ppdev_ok (ppdev_set_mode E mode flags addr)" "solid ppdev_ok (ppdev_do_nonblock E flags)"
  "solid ppdev_ok (ppdev_set_timeout E t)"
  unfolding ppdev_negotiate_def ppdev_terminate_def ppdev_set_mode_def ppdev_do_nonblock_def
    ppdev_set_timeout_def upd_priv_def Let_def
  by (intro ppdev_rules; simp add: ppdev_ok_def ppdev_table_def)+

lemma solid_ppdev_transfers:
  "solid ppdev_ok (ppdev_read E flags mode mflags addr len)"
  "solid ppdev_ok (ppdev_write E flags mode mflags addr buffer)"
  unfolding ppdev_read_def ppdev_write_def dev_read_def dev_write_def
  by (intro ppdev_rules solid_ppdev_modes)+

lemmas ppdev_tables = ppdev_ok_def ppdev_table_def ppdev_access_methods_def

lemma solid_via_ppdev_pins:
  "solid ppdev_ok (via m_read_data (run_read_data E))"
  "solid ppdev_ok (via m_write_data (run_write_data E b))"
  "solid ppdev_ok (via m_data_dir (run_data_dir E r))"
  "solid ppdev_ok (via m_read_status (run_read_status E))"
  "solid ppdev_ok (via m_wait_status (run_wait_status E m v t))"
  "solid ppdev_ok (via m_write_control (run_write_control E c))"
  "solid ppdev_ok (via m_frob_control (run_frob_control E m v))"
  by (rule solid_via; use solid_ppdev_pins in \<open>force simp: ppdev_tables\<close>)+

interpretation ppdev_safe: pin_safe "port_pins E" ppdev_ok for E :: "'w env"
  by (unfold_locales, unfold port_pins_def pins.simps)
     (assumption | rule stable_undisturbed stable_ppdev_ok softI ppdev_ok_core_mode solid_via_ppdev_pins)+

lemmas ppdev_solid = solid_ppdev_pins solid_ppdev_modes solid_ppdev_transfers
  ppdev_safe.wait_data_solid ppdev_safe.switch_solid

subsection \<open>The public calls\<close>

lemma solid_if_claimed: "solid I m \<Longrightarrow> solid I (if_claimed r m)"
  unfolding if_claimed_def by (intro solid_intro)

lemma solid_results:
  "solid I m \<Longrightarrow> solid I (int_result m)" "solid I n \<Longrightarrow> solid I (fst_result n)"
  "solid I k \<Longrightarrow> solid I (no_result k)"
  unfolding int_result_def fst_result_def no_result_def by (intro solid_intro; assumption)+

lemmas default_stubs = default_do_nack_handshake_def default_epp_read_addr_def
  default_epp_write_addr_def default_ecp_read_addr_def default_set_timeout_def

lemma solid_via_ppdev:
  assumes "\<And>h. sel (ppdev_access_methods\<lparr>m_do_nack_handshake := h\<rparr>) = Some f" and "solid ppdev_ok (run f)"
  shows "solid ppdev_ok (via sel run)" "solid ppdev_ok (via_or r sel run)"
proof -
  have "sel (fn (prt s)) = Some f" if "ppdev_ok s" for s
    using that assms(1) [of "m_do_nack_handshake ppdev_access_methods"]
      assms(1) [of "Some Default_do_nack_handshake"]
    by (auto simp: ppdev_ok_def ppdev_table_def)
  note sel = this
  show "solid ppdev_ok (via sel run)"
    by (rule solid_via; drule sel; simp add: assms(2))
  show "solid ppdev_ok (via_or r sel run)"
    by (rule solid_via_or; drule sel; simp add: assms(2))
qed

lemma solid_via_ppdev_handshake: "solid ppdev_ok (via m_do_nack_handshake (run_do_nack_handshake E c d t))"
  by (rule solid_via) (auto simp: ppdev_tables default_stubs solid_ret ppdev_solid)

lemmas ppdev_transfer_defs = ppdev_nibble_read_def ppdev_compat_write_def ppdev_byte_read_def
  ppdev_epp_read_data_def ppdev_epp_write_data_def ppdev_epp_read_addr_def
  ppdev_epp_write_addr_def ppdev_ecp_read_data_def ppdev_ecp_write_data_def
  ppdev_ecp_write_addr_def

lemma ppdev_guarded_solid: "guarded c \<Longrightarrow> solid ppdev_ok (run_api E c)"
  by (cases c; simp only: guarded.simps run_api.simps api_defs;
      intro solid_results solid_if_claimed;
      (rule solid_via_ppdev_handshake | rule solid_via_ppdev, simp add: ppdev_access_methods_def,
       simp add: ppdev_solid ppdev_transfer_defs default_stubs solid_ret))

text \<open>The calls without the guard; opening an open port is refused.\<close>

lemma solid_unguarded:
  assumes upd: "\<And>c s. I s \<Longrightarrow> I (s\<lparr>prt := (prt s)\<lparr>claimed := c\<rparr>\<rparr>)"
    and claim: "solid I (via_or E1284_OK m_claim (run_claim E))"
    and release: "solid I (via_or () m_release (run_release E))"
    and irq: "solid I (via_or E1284_NOTAVAIL m_get_irq_fd (run_get_irq_fd E))"
    and clear: "\<And>s f n. I s \<Longrightarrow> m_clear_irq (fn (prt s)) = Some f \<Longrightarrow> solid I (run_clear_irq E n f)"
    and timeout: "\<And>t. solid I (via m_set_timeout (run_set_timeout E t))"
    and c: "\<not> guarded c" "\<And>f n. c \<noteq> Open f n"
  shows "solid I (run_api E c)"
proof -
  have "solid I (ieee1284_clear_irq E n)" for n
  proof (rule solidI)
    fix s assume I: "I s"
    show "sound (ieee1284_clear_irq E n) s (\<lambda>_. I)"
    proof (cases "m_clear_irq (fn (prt s))")
      case None
      with I show ?thesis by (simp add: ieee1284_clear_irq_def slot_def bindp_def gets_def ret_def sound_def)
    next
      case (Some f)
      from solidD [OF clear [OF I Some] I, of n] I show ?thesis
        by (simp add: ieee1284_clear_irq_def slot_def bindp_def gets_def ret_def sound_def Some)
    qed
  qed
  moreover have "solid I (ieee1284_claim E)" "solid I (ieee1284_release E)"
    unfolding ieee1284_claim_def ieee1284_release_def
    by (intro solid_bindp solid_gets solid_if solid_ret solid_upd claim release; erule upd)+
  moreover have "solid I (ieee1284_get_irq_fd E)"
    unfolding ieee1284_get_irq_fd_def by (intro solid_bindp solid_gets solid_if solid_ret irq)
  moreover have "solid I (ieee1284_set_timeout E t)" for t
    unfolding ieee1284_set_timeout_def by (rule timeout)
  ultimately show ?thesis using c by (cases c) (simp_all add: solid_results, blast)
qed

context io_invariant begin

lemmas io_solid = register_ops on_pins.wait_data_solid on_pins.switch_solid on_pins.byte_read_solid
  on_pins.epp_read_solid on_pins.epp_write_solid on_dir.default_terminate_solid
  on_dir.ecp_read_solid on_dir.ecp_write_solid on_modes.negotiate_solid
  on_modes.compat_write_solid on_modes.nibble_read_solid

lemma guarded_solid: "guarded c \<Longrightarrow> solid I (run_api E c)"
  by (cases c; simp only: guarded.simps run_api.simps api_defs;
      intro solid_results solid_if_claimed; rule solid_via_io [OF ready], assumption,
      simp add: io_access_methods_def, simp add: dev_port_methods_def io_access_methods_def,
      simp add: io_solid default_stubs solid_ret)

lemma unguarded_solid:
  assumes "\<not> guarded c" and "\<And>f n. c \<noteq> Open f n"
  shows "solid I (run_api E c)"
proof (rule solid_unguarded)
  show "I (s\<lparr>prt := (prt s)\<lparr>claimed := c\<rparr>\<rparr>)" if "I s" for s c using that by (rule claim_free)
  show "solid I (via_or E1284_OK m_claim (run_claim E))" "solid I (via_or () m_release (run_release E))"
    "solid I (via_or E1284_NOTAVAIL m_get_irq_fd (run_get_irq_fd E))"
    by (rule solid_via_or, drule ready, auto simp: io_tables)+
  show "solid I (run_clear_irq E n f)" if "I s" "m_clear_irq (fn (prt s)) = Some f" for s f n
    using ready [OF that(1)] that(2) by (auto simp: io_tables)
  show "solid I (via m_set_timeout (run_set_timeout E t))" for t
    by (rule solid_via_io [OF ready], assumption, simp add: io_tables, simp add: io_tables,
      simp add: default_stubs solid_ret)
qed (use assms in auto)

lemma calls_solid: "(\<And>f n. c \<noteq> Open f n) \<Longrightarrow> solid I (run_api E c)"
  using guarded_solid [of c] unguarded_solid [of c] by blast

end

text \<open>The weakest such invariant: that the table is one of direct I/O.\<close>

lemma io_ready_core_mode: "core_mode s' = core_mode s \<Longrightarrow> io_ready s' = io_ready s"
  using core_modeD(10) [of s' s] by (simp add: io_ready_def)

lemma solid_ports:
  "solid io_ready (do_inb E addr)" "solid io_ready (do_outb E val addr)"
proof -
  have "solid io_ready (run_do_inb E addr f)" for f
    by (cases f) (auto simp: raw_inb_def io_h_inb_def iop_ioctl_def port_inb_def lseek_def
        split: prod.split intro!: solid_intro)
  then show "solid io_ready (do_inb E addr)"
    unfolding do_inb_def via_def [symmetric]
    by (intro solid_via) (auto simp: io_ready_def io_access_methods_def dev_port_methods_def)
  have "solid io_ready (run_do_outb E val addr f)" for f
    by (cases f) (auto simp: raw_outb_def io_h_outb_p_def iop_ioctl_def port_outb_def lseek_def
        split: prod.split intro!: solid_intro)
  then show "solid io_ready (do_outb E val addr)"
    unfolding do_outb_def via_def [symmetric]
    by (intro solid_via) (auto simp: io_ready_def io_access_methods_def dev_port_methods_def)
qed

interpretation io_table: io_invariant E io_ready for E :: "'w env"
proof (unfold_locales)
  show "undisturbed io_ready" by (intro stable_undisturbed stable_io_ready)
  show "soft io_ready" by (rule softI) (rule io_ready_core_mode)
  show "solid io_ready (io_read_data E)" "solid io_ready (io_write_data E b)"
    "solid io_ready (io_read_status E)" "solid io_ready (io_raw_frob_control E m v)" for b m v
    unfolding io_read_data_def io_write_data_def io_read_status_def io_raw_frob_control_def Let_def
    by (intro solid_intro solid_ports; simp)+
qed (simp_all add: io_ready_def)

lemma ppdev_unguarded_solid: "\<not> guarded c \<Longrightarrow> (\<And>f n. c \<noteq> Open f n) \<Longrightarrow> solid ppdev_ok (run_api E c)"
  by (rule solid_unguarded; (rule solid_via_or | rule solid_via)?)
     (auto simp: ppdev_tables ppdev_solid intro!: solid_intro)

subsection \<open>Well-typed ports\<close>

definition well_typed :: "'w sys \<Rightarrow> bool" where
  "well_typed s \<longleftrightarrow> truth (opened (prt s)) \<and> (io_ready s \<or> ppdev_ok s)"

lemma run_api_opened:
  fixes s :: "'w sys"
  assumes "truth (opened (prt s))"
  shows "post (run_api E c) s (\<lambda>_ s'. opened (prt s') = opened (prt s))"
proof (cases "guarded c")
  case True
  then show ?thesis by (rule post_weaken [OF keepsD [OF guarded_life]]) (simp add: life_def)
next
  case False
  have life: "post m s (\<lambda>_ s'. opened (prt s') = opened (prt s))" if "keeps life m" for m :: "('b, 'w sys) prog"
    by (rule post_weaken [OF keepsD [OF that]]) (simp add: life_def)
  from False show ?thesis
  proof (cases c)
    case (Open f n)
    with ieee1284_open_twice [OF assms] show ?thesis
      by (simp add: fst_result_def post_def bindp_def ret_def)
  qed (simp_all add: post_result_iff life unguarded_life post_weaken [OF claim_post] post_weaken [OF release_post])
qed

lemma well_typed_sound:
  assumes "well_typed s"
  shows "sound (run_api E c) s (\<lambda>_. well_typed)"
proof (cases "\<exists>f n. c = Open f n")
  case True
  with assms show ?thesis
    by (auto simp: well_typed_def fst_result_def sound_def bindp_def ret_def ieee1284_open_twice)
next
  case False
  have "solid io_ready (run_api E c)" using False by (intro io_table.calls_solid) blast
  moreover have "solid ppdev_ok (run_api E c)"
    using False by (cases "guarded c") (simp_all add: ppdev_guarded_solid ppdev_unguarded_solid)
  ultimately have "sound (run_api E c) s (\<lambda>_ s'. io_ready s' \<or> ppdev_ok s')"
    using assms
    unfolding well_typed_def by (blast intro: sound_weaken solidD)
  from sound_conj [OF this run_api_opened] assms show ?thesis
    by (auto simp: well_typed_def elim!: sound_weaken)
qed

text \<open>
  Opening makes a port well typed, unless it has fallen back on the Windows NT driver, whose
  table has null slots.
\<close>

definition has_priv :: "'w sys \<Rightarrow> bool" where
  "has_priv s \<longleftrightarrow> access_priv (prt s) \<noteq> None"

lemma stable_has_priv [simp]: "stable has_priv"
  by (simp add: stable_def has_priv_def)

lemma keeps_has_priv_upd:
  "(\<And>p. (access_priv (f p) = None) = (access_priv p = None)) \<Longrightarrow> keeps has_priv (upd f)"
  by (intro keeps_intro) (simp add: has_priv_def)

lemma keeps_has_priv_open:
  "keeps has_priv (if udevice p \<noteq> None then bindp (open_path E (udevice p)) (\<lambda>d2. upd (\<lambda>p. p\<lparr>fd := d2\<rparr>)) else ret ())"
  by (intro keeps_if keeps_bindp keeps_ret keeps_dev_calls(1) keeps_has_priv_upd) simp_all

lemmas priv_step = post_step [of has_priv]

lemmas priv_keeps = keeps_gets keeps_ret keeps_env_call keeps_env_do keeps_dev_calls keeps_dev_ioctl
  keeps_find_capabilities keeps_has_priv_upd keeps_has_priv_open keeps_bindp keeps_if

lemma post_bindp_bool:
  "post m s (\<lambda>a s'. a \<longrightarrow> I s') \<Longrightarrow> (\<And>s'. post (k False) s' Q) \<Longrightarrow> (\<And>s'. I s' \<Longrightarrow> post (k True) s' Q) \<Longrightarrow>
     post (bindp m k) s Q"
  by (rule post_bindp, erule post_weaken) (case_tac a; simp)

lemma ppdev_init_priv: "post (ppdev_init E flags caps) s (\<lambda>(r, _) s'. r = E1284_OK \<longrightarrow> has_priv s')"
  unfolding ppdev_init_def
  apply (rule post_if, rule post_ret, simp)
  apply (rule post_skip, rule post_if, rule post_skip, rule post_ret, simp)
  apply (rule post_bindp, rule post_upd)
  apply (rule priv_step, rule keeps_gets)
  apply (rule priv_step, rule keeps_dev_calls, simp)
  apply (rule priv_step, rule keeps_has_priv_upd, simp)
  apply (rule post_bindp_bool [where I = has_priv])
    apply (rule post_if)
     apply (rule priv_step, rule keeps_has_priv_open)
     apply (rule priv_step, rule keeps_gets)
     apply (rule post_if)
      apply (rule post_skip, rule post_ret, simp)
     apply (rule priv_step, simp add: keeps_def post_modify has_priv_def)
     apply (rule post_ret, simp add: has_priv_def)
    apply (rule priv_step, simp add: keeps_def post_modify has_priv_def)
    apply (rule post_ret, simp add: has_priv_def)
   apply (simp only: not_False_eq_True if_True, rule post_ret, simp)
  apply (simp only: not_True_eq_False if_False)
  apply (rule priv_step, rule keeps_has_priv_upd, simp)
  apply (rule priv_step, intro keeps_if keeps_ret keeps_dev_ioctl, simp)
  apply (rule post_if)
   apply (rule post_skip, rule post_skip, rule post_ret, simp)
  apply (rule priv_step, intro keeps_if keeps_ret keeps_bindp keeps_has_priv_upd, simp)
  apply (rename_tac caps1 s1, case_tac caps1; simp only: option.case)
   apply (rule post_ret, simp)
  apply (rule priv_step, rule keeps_find_capabilities, simp)
  apply (rule post_ret, simp)
  done

text \<open>The table and its private data agree after a method has initialised.\<close>

definition initialised :: "'w sys \<Rightarrow> bool" where
  "initialised s \<longleftrightarrow> io_ready s \<or> ppdev_ok s \<or> lpt_port s"

lemma run_init_typed:
  assumes m: "methods = io_access_methods \<or> methods = ppdev_methods b \<or> methods = lpt_methods b"
    and s: "fn (prt s) = methods"
  shows "post (via m_init (run_init E flags caps)) s (\<lambda>(r, _) s'. r = E1284_OK \<longrightarrow> initialised s')"
proof (rule post_via)
  fix f assume f: "m_init (fn (prt s)) = Some f"
  from m show "post (run_init E flags caps f) s (\<lambda>(r, _) s'. r = E1284_OK \<longrightarrow> initialised s')"
  proof (elim disjE)
    assume "methods = io_access_methods"
    with f s have "f = Io_init" "io_ready s" by (simp_all add: io_access_methods_def io_ready_def)
    then show ?thesis
      using staysD [OF io_init_table, of s E flags caps]
      by (auto simp: initialised_def elim!: post_weaken)
  next
    assume "methods = ppdev_methods b"
    with f s have "f = Ppdev_init" "ppdev_table s"
      by (auto simp: ppdev_methods_def no_ppdev_access_methods_def ppdev_access_methods_def
          null_methods_def ppdev_table_def split: if_splits)
    then show ?thesis
      using post_conj [OF staysD [OF ppdev_init_table, of s E flags caps] ppdev_init_priv [of E flags caps s]]
      by (auto simp: initialised_def ppdev_ok_def has_priv_def elim!: post_weaken)
  next
    assume "methods = lpt_methods b"
    with f s have "f = Lpt_init" "lpt_port s"
      by (auto simp: lpt_methods_def no_lpt_access_methods_def lpt_access_methods_def
          null_methods_def lpt_port_def split: if_splits)
    then show ?thesis
      using staysD [OF lpt_init_table, of s E flags caps]
      by (auto simp: initialised_def elim!: post_weaken)
  qed
qed

lemma try_method_typed:
  assumes "methods = io_access_methods \<or> methods = ppdev_methods b \<or> methods = lpt_methods b"
  shows "post (try_method E typ methods flags caps) s (\<lambda>(r, _) s'. r = E1284_OK \<longrightarrow> initialised s')"
  unfolding try_method_def by (intro post_bindp post_upd run_init_typed [OF assms]) simp

lemma init_port_typed:
  "post (init_port E flags caps) s (\<lambda>(r, _) s'. r = E1284_OK \<longrightarrow> initialised s')"
  unfolding init_port_def
  by (intro wp_intro)
     (auto intro!: wp_intro post_weaken [OF try_method_typed] simp: truth_def split: prod.split)

lemma open_typed:
  "post (ieee1284_open E flags caps) s (\<lambda>(r, _) s'. r = E1284_OK \<longrightarrow> well_typed s' \<or> lpt_port s')"
  unfolding ieee1284_open_def
  by (intro wp_intro post_weaken [OF init_port_typed])
     (auto intro!: wp_intro simp: well_typed_def initialised_def truth_def ppdev_ok_def
        ppdev_table_def io_ready_def lpt_port_def split: prod.split)

text \<open>So the calls that follow a successful opening, in any number and order, do not fault.\<close>

lemma port_run_typed: "port_run E s s' \<Longrightarrow> well_typed s \<Longrightarrow> well_typed s'"
  by (erule port_run_stays) (intro staysI sound_post well_typed_sound)

lemma opened_port_sound:
  assumes "ieee1284_open E flags caps s = Some (Ret (E1284_OK, caps') s1)" and "\<not> lpt_port s1"
    and "port_run E s1 s2"
  shows "sound (run_api E c) s2 (\<lambda>_. well_typed)"
  using postD [OF open_typed assms(1)] assms(2) port_run_typed [OF assms(3)]
  by (intro well_typed_sound) simp

end
