(* ===== verification/Port_Registers.thy ===== *)
theory Port_Registers
  imports Port_Soundness
begin

section \<open>The registers that direct I/O touches\<close>

text \<open>
  Direct I/O asks the system for the three registers of the adapter and for the unused port
  \<^verbatim>\<open>0x80\<close>, and a process that touches another port is killed, or worse, is not.  The theorem: no
  public call on a direct I/O port touches any other register, in any build: neither with the
  instructions, nor through the driver of Solaris, nor by seeking in \<^verbatim>\<open>/dev/port\<close>, where the calls go
  to the descriptor of the port only and each byte, one at a time, is read or written right after a
  seek to one of the registers that has not failed.  It is one more interpretation of the
  locale of the invariants of direct I/O.
\<close>

definition registers :: "64 word \<Rightarrow> 64 word list" where
  "registers a = [a, a + 1, a + 2]"

text \<open>\<open>touches a d e\<close>: is \<open>e\<close>, in itself, an access to a register of the port at \<open>a\<close>, or a pause?\<close>

fun touches :: "64 word \<Rightarrow> int \<Rightarrow> event \<Rightarrow> bool" where
  "touches a d (Inb p v) = (p \<in> ucast ` set (registers a))"
| "touches a d (Outb v p) = (p \<in> ucast ` set (registers a))"
| "touches a d (Pause v) = True"
| "touches a d (Sleep t) = True"
| "touches a d (Ioctl d' (IOPREAD p) r) = (d' = d \<and> p \<in> ucast ` set (registers a))"
| "touches a d (Ioctl d' (IOPWRITE p v) r) = (d' = d \<and> p \<in> ucast ` set (registers a))"
| "touches a d e = False"

text \<open>
  A file has a position instead: \<open>here\<close> says that the descriptor \<open>d\<close> stands at a register, where
  the last call that moved it, a seek to that register, has put it without an error.  Only then may
  a byte be read or written, one, after which the descriptor stands elsewhere.
\<close>

fun registers_only :: "64 word \<Rightarrow> int \<Rightarrow> bool \<Rightarrow> event list \<Rightarrow> bool" where
  "registers_only a d here [] = True"
| "registers_only a d here (Lseek d' off r # evs) =
     (d' = d \<and> off \<in> uint ` set (registers a) \<and> registers_only a d (r \<noteq> -1) evs)"
| "registers_only a d here (Read d' len r # evs) =
     (here \<and> d' = d \<and> len = 1 \<and> registers_only a d False evs)"
| "registers_only a d here (Write d' bytes r # evs) =
     (here \<and> d' = d \<and> length bytes = 1 \<and> registers_only a d False evs)"
| "registers_only a d here (e # evs) = (touches a d e \<and> registers_only a d here evs)"

lemma registers_only_here: "registers_only a d False evs \<Longrightarrow> registers_only a d here evs"
  by (induction a d "False" evs rule: registers_only.induct) auto

lemma registers_only_append:
  "registers_only a d here evs \<Longrightarrow> registers_only a d False evs' \<Longrightarrow> registers_only a d here (evs @ evs')"
  by (induction a d here evs rule: registers_only.induct) (auto simp: registers_only_here)

text \<open>Since the trace was \<open>tr\<close>, only registers of the port at \<open>a\<close> have been touched.\<close>

definition within :: "64 word \<Rightarrow> int \<Rightarrow> event list \<Rightarrow> 'w sys \<Rightarrow> bool" where
  "within a d tr s \<longleftrightarrow> io_ready s \<and> base (prt s) = a \<and> fd (prt s) = d \<and>
     (\<exists>evs. trace s = tr @ evs \<and> registers_only a d False evs)"

lemma within_events:
  assumes "within a d tr s" and "registers_only a d False ev"
  shows "within a d tr (s\<lparr>world := w, trace := trace s @ ev\<rparr>)"
proof -
  obtain evs where "trace s = tr @ evs" "registers_only a d False evs"
    using assms(1) by (auto simp: within_def)
  then have "trace s @ ev = tr @ (evs @ ev)" "registers_only a d False (evs @ ev)"
    using assms(2) by (auto intro: registers_only_append)
  with assms(1) show ?thesis unfolding within_def io_ready_def by fastforce
qed

lemma within_prt:
  "within a d tr s \<Longrightarrow> fn p = fn (prt s) \<Longrightarrow> base p = base (prt s) \<Longrightarrow> fd p = fd (prt s) \<Longrightarrow>
     within a d tr (s\<lparr>prt := p\<rparr>)"
  by (simp add: within_def io_ready_def)

lemma solid_within_call:
  "(\<And>x. registers_only a d False (ev x)) \<Longrightarrow> solid (within a d tr) (env_call f ev)"
  by (rule solidI) (auto simp: env_call_def sound_def within_events split: prod.split)

lemma solid_within_do:
  "registers_only a d False ev \<Longrightarrow> solid (within a d tr) (env_do g ev)"
  by (rule solidI) (auto simp: env_do_def modify_def sound_def within_events)

text \<open>A seek, and one byte at the place where it has led.\<close>

lemma solid_within_seek:
  fixes k :: "'b \<Rightarrow> ('c, 'w sys) prog"
  assumes "off \<in> uint ` set (registers a)"
    and "\<And>x. registers_only a d True (ev x)" and k: "\<And>x. \<exists>v. k x = ret v"
  shows "solid (within a d tr)
    (bindp (lseek E d off) (\<lambda>r. if r \<noteq> -1 then bindp (env_call f ev) k else ret y))"
proof (rule solidI)
  fix s :: "'w sys" assume s: "within a d tr s"
  obtain v where v: "\<And>x. k x = ret (v x)" using k by metis
  have "within a d tr (s\<lparr>world := w, trace := trace s @ ([Lseek d off r] @ ev x)\<rparr>)" if "r \<noteq> -1" for w r x
    by (rule within_events [OF s]) (use that assms in simp)
  moreover have "within a d tr (s\<lparr>world := w, trace := trace s @ [Lseek d off r]\<rparr>)" for w r
    by (rule within_events [OF s]) (use assms(1) in simp)
  ultimately show "sound (bindp (lseek E d off) (\<lambda>r. if r \<noteq> -1 then bindp (env_call f ev) k else ret y)) s
      (\<lambda>_. within a d tr)"
    by (auto simp: lseek_def env_call_def sound_def bindp_def ret_def v split: prod.split)
qed

text \<open>The base and the descriptor are those of the invariant.\<close>

lemma solid_within_gets:
  fixes k :: "'b \<Rightarrow> ('c, 'w sys) prog"
  assumes "\<And>s. within a d tr s \<Longrightarrow> solid (within a d tr) (k (f s))"
  shows "solid (within a d tr) (bindp (gets f) k)"
proof (rule solidI)
  fix s :: "'w sys" assume s: "within a d tr s"
  show "sound (bindp (gets f) k) s (\<lambda>_. within a d tr)"
    using solidD [OF assms [OF s] s] by (simp add: sound_def bindp_def gets_def)
qed

lemma within_fields: "within a d tr s \<Longrightarrow> base (prt s) = a" "within a d tr s \<Longrightarrow> fd (prt s) = d"
  by (simp_all add: within_def)

lemma solid_within_ports:
  assumes "p \<in> set (registers a)"
  shows "solid (within a d tr) (do_inb E p)" "solid (within a d tr) (do_outb E val p)"
proof -
  note rules = solid_bindp solid_ret solid_if solid_case_prod solid_within_call solid_within_do
  have "solid (within a d tr) (iop_ioctl E (IOPREAD (ucast p)))"
    "solid (within a d tr) (iop_ioctl E (IOPWRITE (ucast p) v))" for v
    unfolding iop_ioctl_def
    by (rule solid_within_gets, rule solid_within_call, use assms in \<open>auto simp: within_fields\<close>)+
  note ioctls = this
  have "solid (within a d tr) (port_inb E p)" "solid (within a d tr) (port_outb E v p)" for v
    unfolding port_inb_def port_outb_def
    by (rule solid_within_gets, drule within_fields(2), simp only:, rule solid_within_seek;
        use assms in \<open>auto split: prod.split\<close>)+
  note dev_port = this
  have "solid (within a d tr) (raw_inb E p)" "solid (within a d tr) (raw_outb E v p)" for v
    unfolding raw_inb_def raw_outb_def io_h_inb_def io_h_outb_p_def
    by (intro rules ioctls; use assms in auto)+
  note raw = this
  have table: "fn (prt s) = io_access_methods \<or> fn (prt s) = dev_port_methods" if "within a d tr s"
    for s :: "'a sys"
    using that by (simp add: within_def io_ready_def)
  show "solid (within a d tr) (do_inb E p)" "solid (within a d tr) (do_outb E val p)"
    unfolding do_inb_def do_outb_def via_def [symmetric]
    by (rule solid_via; drule table; auto simp: io_access_methods_def dev_port_methods_def raw dev_port)+
qed

interpretation io_registers: io_invariant E "within a d tr"
  for E :: "'w env" and a :: "64 word" and d :: int and tr :: "event list"
proof (unfold_locales)
  show "io_ready s" if "within a d tr s" for s :: "'w sys" using that by (simp add: within_def)
  show "undisturbed (within a d tr :: 'w sys \<Rightarrow> bool)" unfolding undisturbed_def
    by (intro allI impI within_events) auto
  show "soft (within a d tr :: 'w sys \<Rightarrow> bool)" by (simp add: soft_def within_prt)
  show "within a d tr (s\<lparr>prt := (prt s)\<lparr>claimed := c\<rparr>\<rparr>)" if "within a d tr s" for s :: "'w sys" and c
    using that by (rule within_prt) simp_all
  note ports = solid_within_ports [of _ a d tr E]
  show "solid (within a d tr) (io_read_data E)" "solid (within a d tr) (io_write_data E b)"
    "solid (within a d tr) (io_read_status E)" for b
    unfolding io_read_data_def io_write_data_def io_read_status_def
    by (rule solid_within_gets, drule within_fields(1), simp only:, intro solid_bindp solid_ret ports,
        simp add: registers_def)+
  show "solid (within a d tr) (io_raw_frob_control E m v)" for m v
    unfolding io_raw_frob_control_def Let_def
    by (rule solid_within_gets, drule within_fields(1), simp only:,
        intro solid_bindp ports solid_upd within_prt; simp add: registers_def)
qed

text \<open>Every public call but \<^verbatim>\<open>ieee1284_open\<close>, which is where the permission is asked for.\<close>

lemma calls_within:
  assumes "io_ready s" and "\<And>f n. c \<noteq> Open f n"
  shows "sound (run_api E c) s (\<lambda>_. within (base (prt s)) (fd (prt s)) (trace s))"
  by (rule solidD [OF io_registers.calls_solid [OF assms(2)]]) (simp_all add: within_def assms(1))

end
