(* ===== verification/Conf.thy ===== *)
theory Conf
  imports Environment
begin

section \<open>The configuration file: \<^verbatim>\<open>src/conf.c\<close>\<close>

text \<open>
  The tokenizer of \<^verbatim>\<open>ieee1284.conf\<close> with its static variables, and the reader of the one
  directive, \<^verbatim>\<open>disallow method ppdev\<close>.  A line in the buffer is the list of its characters;
  the terminating zero follows it.  What follows the zero in the buffer of \<open>max_line_len\<close>
  bytes has never been written: reading it is the fault \<open>Uninitialised\<close>, reading behind the
  buffer the fault \<open>Out_of_bounds\<close>.  The only file open at a time is the environment's.
  After the definitions: the bounds of the scanner and of the copy, that the reader ends on
  every finite file and stays inside its buffer if no line ends in a backslash, what it does
  if one does, and the round trips of plain and quoted words.
\<close>

record tokenizer =
  current_line :: "string option"
  current_line_len :: nat
  at_pos :: nat

record 'w conf_sys =
  tok :: tokenizer
  conf_disallow :: int
  config_read :: int
  cworld :: 'w

definition conf_env :: "('w \<Rightarrow> 'a \<times> 'w) \<Rightarrow> ('a, 'w conf_sys) prog" where
  "conf_env f = (\<lambda>s. case f (cworld s) of (a, w) \<Rightarrow> Some (Ret a (s\<lparr>cworld := w\<rparr>)))"

definition set_tok :: "(tokenizer \<Rightarrow> tokenizer) \<Rightarrow> (unit, 'w conf_sys) prog" where
  "set_tok f = modify (\<lambda>s. s\<lparr>tok := f (tok s)\<rparr>)"

subsection \<open>Characters\<close>

definition max_line_len :: int where "max_line_len = 1000"
definition ifs :: string where "ifs = [CHR 0x20, CHR 0x09, CHR 0x0A]"
definition tokenchar :: string where "tokenchar = ''{}=''"

abbreviation (input) backslash :: char where "backslash \<equiv> CHR 0x5C"
abbreviation (input) quote1 :: char where "quote1 \<equiv> CHR 0x27"
abbreviation (input) quote2 :: char where "quote2 \<equiv> CHR 0x22"

text \<open>Character \<open>i\<close> of a zero-terminated string, up to and including its zero.\<close>

definition cget :: "string \<Rightarrow> nat \<Rightarrow> char" where
  "cget line i = (if i < length line then line ! i else CHR 0x00)"

text \<open>A character buffer read as a C string.\<close>

definition c_string :: "string \<Rightarrow> string" where
  "c_string buf = takeWhile (\<lambda>c. c \<noteq> CHR 0x00) buf"

definition strspn :: "string \<Rightarrow> string \<Rightarrow> nat" where
  "strspn s accept = length (takeWhile (\<lambda>c. c \<in> set accept) s)"

subsection \<open>One token\<close>

text \<open>The loop that finds the end of the token that starts at \<open>start\<close>.\<close>

function find_end :: "string \<Rightarrow> nat \<Rightarrow> nat \<Rightarrow> nat \<Rightarrow> nat \<Rightarrow> nat" where
  "find_end line len start quotes e =
     (if e < len then
        let ch = cget line e in
        if ch = backslash \<and> quotes \<noteq> 1 then find_end line len start quotes (e + 2)
        else if ch = quote1 \<and> quotes = 0 then find_end line len start 1 (e + 1)
        else if ch = quote2 \<and> quotes = 0 then find_end line len start 2 (e + 1)
        else
        let quotes' = (if ch = quote1 \<and> quotes = 1 \<or> ch = quote2 \<and> quotes = 2 then 0 else quotes) in
        if quotes' = 0 \<and> ch \<in> set ifs then e
        else if quotes' = 0 \<and> ch \<in> set tokenchar then (if e = start then e + 1 else e)
        else find_end line len start quotes' (e + 1)
      else e)"
  by pat_completeness auto
termination by (relation "measure (\<lambda>(line, len, start, quotes, e). len - e)") auto

text \<open>The loop that copies the token; it also moves the position.\<close>

function copy_token :: "string \<Rightarrow> nat \<Rightarrow> nat \<Rightarrow> nat \<Rightarrow> string \<Rightarrow> string \<times> nat" where
  "copy_token line e quotes pos this_token =
     (if pos < e then
        let ch = cget line pos in
        if ch = backslash \<and> quotes \<noteq> 1 then
          (if pos < e - 1
           then copy_token line e quotes (pos + 2) (this_token @ [cget line (pos + 1)])
           else copy_token line e quotes (pos + 1) this_token)
        else if ch = quote1 \<and> quotes = 0 then copy_token line e 1 (pos + 1) this_token
        else if ch = quote1 \<and> quotes = 1 then copy_token line e 0 (pos + 1) this_token
        else if ch = quote2 \<and> quotes = 0 then copy_token line e 2 (pos + 1) this_token
        else if ch = quote2 \<and> quotes = 2 then copy_token line e 0 (pos + 1) this_token
        else copy_token line e quotes (pos + 1) (this_token @ [ch])
      else (this_token, pos))"
  by pat_completeness auto
termination by (relation "measure (\<lambda>(line, e, quotes, pos, t). e - pos)") auto

declare find_end.simps [simp del] copy_token.simps [simp del]

subsection \<open>The tokenizer\<close>

text \<open>Allocate a buffer and read a line: \<open>False\<close> when there is none left (or no memory).\<close>

definition read_line :: "'w env \<Rightarrow> (bool, 'w conf_sys) prog" where
  "read_line E =
     bindp (conf_env (env_malloc E max_line_len)) (\<lambda>ok.
     if \<not> ok then ret False
     else
     bindp (conf_env (env_fgets E max_line_len)) (\<lambda>l.
     case l of
       None \<Rightarrow> bindp (set_tok (\<lambda>_. \<lparr> current_line = None, current_line_len = 0, at_pos = 0 \<rparr>))
                 (\<lambda>_. ret False)
     | Some line \<Rightarrow> bindp (set_tok (\<lambda>_. \<lparr> current_line = Some line,
                        current_line_len = length line, at_pos = 0 \<rparr>)) (\<lambda>_. ret True)))"

text \<open>Make sure that there is a line, dropping one that has been read to its end.\<close>

definition fill_line :: "'w env \<Rightarrow> (bool, 'w conf_sys) prog" where
  "fill_line E =
     bindp (gets tok) (\<lambda>t.
     bindp (if at_pos t = current_line_len t
            then set_tok (\<lambda>_. \<lparr> current_line = None, current_line_len = 0, at_pos = 0 \<rparr>)
            else ret ()) (\<lambda>_.
     bindp (gets tok) (\<lambda>t.
     if current_line t \<noteq> None then ret True else read_line E)))"

text \<open>
  The rest of a round of the loop \<^verbatim>\<open>for (;;)\<close>, on the current line: skip white space, drop a
  comment, find the token and copy it.  \<open>None\<close> is \<^verbatim>\<open>continue\<close>, \<open>Some r\<close> a return of \<open>r\<close>.
\<close>

definition scan_token :: "'w env \<Rightarrow> (string option option, 'w conf_sys) prog" where
  "scan_token E =
     bindp (gets tok) (\<lambda>t.
     case current_line t of
       None \<Rightarrow> fail Null_deref
     | Some line \<Rightarrow>
       let len = current_line_len t in
       if len < at_pos t then fail (if int (at_pos t) < max_line_len then Uninitialised else Out_of_bounds)
       else
       let start = at_pos t + strspn (drop (at_pos t) line) ifs in
       if cget line start = CHR ''#''
       then bindp (set_tok (\<lambda>t. t\<lparr>at_pos := len\<rparr>)) (\<lambda>_. ret None)
       else
       bindp (set_tok (\<lambda>t. t\<lparr>at_pos := start\<rparr>)) (\<lambda>_.
       let e = find_end line len start 0 start in
       if start = e then ret None
       else
       bindp (conf_env (env_malloc E (int (e - start + 1)))) (\<lambda>ok.
       if \<not> ok then ret (Some None)
       else
       case copy_token line e 0 start [] of (this_token, pos) \<Rightarrow>
         bindp (set_tok (\<lambda>t. t\<lparr>at_pos := pos\<rparr>)) (\<lambda>_.
         ret (Some (Some (c_string this_token)))))))"

definition token_round :: "'w env \<Rightarrow> (string option option, 'w conf_sys) prog" where
  "token_round E = bindp (fill_line E) (\<lambda>got. if \<not> got then ret (Some None) else scan_token E)"

definition get_token :: "'w env \<Rightarrow> (string option, 'w conf_sys) prog" where
  "get_token E = loop (token_round E)"

subsection \<open>The file\<close>

definition disallow :: "'w env \<Rightarrow> (string option, 'w conf_sys) prog" where
  "disallow E =
     bindp (get_token E) (\<lambda>token.
     if token \<noteq> Some ''method'' then ret token
     else
     bindp (get_token E) (\<lambda>token.
     if token \<noteq> Some ''ppdev'' then ret token
     else
     bindp (modify (\<lambda>s. s\<lparr>conf_disallow := 1\<rparr>)) (\<lambda>_.
     get_token E)))"

partial_function (option) read_tokens ::
  "'w env \<Rightarrow> string option \<Rightarrow> 'w conf_sys \<Rightarrow> (unit, 'w conf_sys) outcome option" where
  "read_tokens E token s =
     (if token = None then ret ()
      else bindp (if token = Some ''disallow'' then disallow E else get_token E)
             (\<lambda>next_token. read_tokens E next_token)) s"

declare read_tokens.simps [code]

definition try_read_config_file :: "'w env \<Rightarrow> string \<Rightarrow> (int, 'w conf_sys) prog" where
  "try_read_config_file E path =
     bindp (conf_env (env_fopen E path)) (\<lambda>ok.
     if \<not> ok then ret 1
     else
     bindp (get_token E) (\<lambda>token.
     bindp (read_tokens E token) (\<lambda>_.
     bindp (conf_env (\<lambda>w. ((), env_fclose E w))) (\<lambda>_.
     ret 0))))"

definition read_config_file :: "'w env \<Rightarrow> (unit, 'w conf_sys) prog" where
  "read_config_file E =
     bindp (gets config_read) (\<lambda>done.
     if truth done then ret ()
     else
     bindp (modify (\<lambda>s. s\<lparr>conf_disallow := 0\<rparr>)) (\<lambda>_.
     bindp (conf_env (env_malloc E 19)) (\<lambda>ok.
     if \<not> ok then ret ()
     else
     bindp (try_read_config_file E ''/etc/ieee1284.conf'') (\<lambda>r.
     if truth r then modify (\<lambda>s. s\<lparr>config_read := 1\<rparr>) else ret ()))))"

subsection \<open>The scanner\<close>

text \<open>The end of a token is never before its start, and at most one past the line.\<close>

lemma find_end_stop: "\<not> e < len \<Longrightarrow> find_end line len start quotes e = e"
  by (subst find_end.simps) simp

lemma find_end_step:
  assumes "e < len"
  obtains q where "find_end line len start quotes e = find_end line len start q (e + 1)"
  | q where "cget line e = backslash"
      "find_end line len start quotes e = find_end line len start q (e + 2)"
  | "cget line e \<in> set ifs" "find_end line len start quotes e = e"
  | "cget line e \<in> set tokenchar" "find_end line len start quotes e = (if e = start then e + 1 else e)"
proof -
  note eq = find_end.simps [of line len start quotes e]
  consider "cget line e = backslash" "quotes \<noteq> 1" | "cget line e = quote1" "quotes = 0"
    | "cget line e = quote2" "quotes = 0"
    | "\<not> (cget line e = backslash \<and> quotes \<noteq> 1)" "\<not> (cget line e = quote1 \<and> quotes = 0)"
      "\<not> (cget line e = quote2 \<and> quotes = 0)" by metis
  then show thesis
  proof cases
    case 1 with assms eq show thesis by (intro that(2)) (simp_all add: Let_def)
  next
    case 2 with assms eq show thesis by (intro that(1) [of 1]) (simp add: Let_def)
  next
    case 3 with assms eq show thesis by (intro that(1) [of 2]) (simp add: Let_def)
  next
    case 4
    define q where "q = (if cget line e = quote1 \<and> quotes = 1 \<or> cget line e = quote2 \<and> quotes = 2
      then 0 else quotes)"
    have "find_end line len start quotes e =
        (if q = 0 \<and> cget line e \<in> set ifs then e
         else if q = 0 \<and> cget line e \<in> set tokenchar then (if e = start then e + 1 else e)
         else find_end line len start q (e + 1))"
      using assms 4 by (subst eq) (simp only: Let_def q_def if_True if_False)
    then show thesis using that by (auto split: if_splits)
  qed
qed

lemma find_end_ge: "e \<le> find_end line len start quotes e"
proof (induction "len - e" arbitrary: e quotes rule: less_induct)
  case less
  show ?case
  proof (cases "e < len")
    case True
    then show ?thesis
    proof (rule find_end_step [where line = line and start = start and quotes = quotes])
      show ?thesis if "find_end line len start quotes e = find_end line len start q (e + 1)" for q
        using less [of "e + 1" q] True that by (simp add: diff_less_mono2)
      show ?thesis if "find_end line len start quotes e = find_end line len start q (e + 2)" for q
        using less [of "e + 2" q] True that by (simp add: diff_less_mono2)
    qed simp_all
  qed (simp add: find_end_stop)
qed

lemma find_end_le: "e \<le> len + 1 \<Longrightarrow> find_end line len start quotes e \<le> len + 1"
proof (induction "len - e" arbitrary: e quotes rule: less_induct)
  case less
  show ?case
  proof (cases "e < len")
    case True
    then show ?thesis
    proof (rule find_end_step [where line = line and start = start and quotes = quotes])
      show ?thesis if "find_end line len start quotes e = find_end line len start q (e + 1)" for q
        using less.hyps [of "e + 1" q] True that by simp
      show ?thesis if "find_end line len start quotes e = find_end line len start q (e + 2)" for q
        using less.hyps [of "e + 2" q] True that by simp
    qed (use True in simp_all)
  qed (use less.prems in \<open>simp add: find_end_stop\<close>)
qed

definition no_end_backslash :: "string \<Rightarrow> bool" where
  "no_end_backslash line \<longleftrightarrow> line = [] \<or> last line \<noteq> backslash"

lemma no_end_backslashD:
  assumes "no_end_backslash line" and "i < length line" and "cget line i = backslash"
  shows "i + 2 \<le> length line"
proof (rule ccontr)
  assume "\<not> i + 2 \<le> length line"
  with assms(2) have "i = length line - 1" and "line \<noteq> []" by auto
  then have "cget line i = last line" by (simp add: cget_def last_conv_nth)
  with assms(1,3) \<open>line \<noteq> []\<close> show False by (simp add: no_end_backslash_def)
qed

lemma find_end_le_line:
  assumes "no_end_backslash line" and "len = length line"
  shows "e \<le> len \<Longrightarrow> find_end line len start quotes e \<le> len"
proof (induction "len - e" arbitrary: e quotes rule: less_induct)
  case less
  show ?case
  proof (cases "e < len")
    case True
    then show ?thesis
    proof (rule find_end_step [where line = line and start = start and quotes = quotes])
      show ?thesis if "find_end line len start quotes e = find_end line len start q (e + 1)" for q
        using less.hyps [of "e + 1" q] True that by simp
      show ?thesis if "cget line e = backslash"
        "find_end line len start quotes e = find_end line len start q (e + 2)" for q
        using less.hyps [of "e + 2" q] no_end_backslashD [OF assms(1) _ that(1)] True that(2) assms(2)
        by simp
    qed (use True in simp_all)
  qed (use less.prems in \<open>simp add: find_end_stop\<close>)
qed

text \<open>A token that starts at a character other than white space is not empty.\<close>

lemma find_end_progress:
  assumes "start < len" and "cget line start \<notin> set ifs"
  shows "start < find_end line len start 0 start"
proof -
  have ge: "start < find_end line len start q (start + 1)" "start < find_end line len start q (start + 2)" for q
    using find_end_ge [of "start + 1" line len start q] find_end_ge [of "start + 2" line len start q]
    by simp_all
  show ?thesis
    using assms(1)
    by (rule find_end_step [where line = line and start = start and quotes = 0])
       (use ge assms(2) in simp_all)
qed

text \<open>
  Copying a token ends at its end and writes no more characters than there are before it,
  so the buffer of \<^verbatim>\<open>end - at + 1\<close> bytes is large enough.
\<close>

lemma copy_token_stop: "\<not> pos < e \<Longrightarrow> copy_token line e quotes pos t = (t, pos)"
  by (subst copy_token.simps) simp

lemma copy_token_step:
  assumes "pos < e"
  obtains q n t' where "copy_token line e quotes pos t = copy_token line e q (pos + n) t'"
    and "1 \<le> n" and "pos + n \<le> e" and "length t' \<le> length t + n"
proof -
  have "\<exists>q n t'. copy_token line e quotes pos t = copy_token line e q (pos + n) t' \<and> 1 \<le> n \<and>
      pos + n \<le> e \<and> length t' \<le> length t + n"
  proof (cases "cget line pos = backslash \<and> quotes \<noteq> 1 \<and> pos < e - 1")
    case True
    then show ?thesis
      using assms copy_token.simps [of line e quotes pos t]
      by - (rule exI [of _ quotes], rule exI [of _ 2],
          rule exI [of _ "t @ [cget line (pos + 1)]"], auto simp: Let_def)
  next
    case False
    then obtain q t' where "copy_token line e quotes pos t = copy_token line e q (pos + 1) t'"
      and "t' = t \<or> t' = t @ [cget line pos]"
      using assms by (subst (asm) copy_token.simps) (force simp: Let_def split: if_splits)
    with assms show ?thesis
      by - (rule exI [of _ q], rule exI [of _ 1], rule exI [of _ t'], auto)
  qed
  with that show thesis by blast
qed

lemma copy_token_bounds:
  "pos \<le> e \<Longrightarrow> snd (copy_token line e quotes pos t) = e \<and>
     length (fst (copy_token line e quotes pos t)) \<le> length t + (e - pos)"
proof (induction "e - pos" arbitrary: pos quotes t rule: less_induct)
  case less
  show ?case
  proof (cases "pos < e")
    case True
    then obtain q n t' where *: "copy_token line e quotes pos t = copy_token line e q (pos + n) t'"
      "1 \<le> n" "pos + n \<le> e" "length t' \<le> length t + n"
      by (rule copy_token_step [where line = line and quotes = quotes and t = t])
    from less.hyps [of "pos + n" q t'] True *
    have "snd (copy_token line e quotes pos t) = e"
      "length (fst (copy_token line e quotes pos t)) \<le> length t' + (e - (pos + n))" by simp_all
    with *(2-4) show ?thesis by (intro conjI) linarith+
  qed (use less.prems in \<open>simp add: copy_token_stop\<close>)
qed

subsection \<open>Reading ends, inside the buffer\<close>

text \<open>
  What the C library promises of \<^verbatim>\<open>fgets\<close> on a finite file: a line fits the buffer and is
  taken off the file; and of this file, that no line ends in a backslash (a line that ends
  in a newline does not).
\<close>

definition readable :: "'w env \<Rightarrow> ('w \<Rightarrow> nat) \<Rightarrow> bool" where
  "readable E left \<longleftrightarrow> (\<forall>n w. left (snd (env_malloc E n w)) \<le> left w) \<and>
     (\<forall>n w. case env_fgets E n w of
        (None, w') \<Rightarrow> left w' \<le> left w
      | (Some line, w') \<Rightarrow> left w' < left w \<and> length line < 1000 \<and> no_end_backslash line)"

definition tok_ok :: "tokenizer \<Rightarrow> bool" where
  "tok_ok t \<longleftrightarrow> (case current_line t of
       None \<Rightarrow> current_line_len t = 0 \<and> at_pos t = 0
     | Some line \<Rightarrow> current_line_len t = length line \<and> at_pos t \<le> length line \<and>
         length line < 1000 \<and> no_end_backslash line)"

text \<open>The variant: what is left of the file and of the line.\<close>

definition text_left :: "('w \<Rightarrow> nat) \<Rightarrow> 'w conf_sys \<Rightarrow> nat" where
  "text_left left s = 1000 * left (cworld s) + (current_line_len (tok s) - at_pos (tok s))"

lemma readableD:
  assumes "readable E left"
  shows "left (snd (env_malloc E n w)) \<le> left w"
    and "env_fgets E n w = (None, w') \<Longrightarrow> left w' \<le> left w"
    and "env_fgets E n w = (Some line, w') \<Longrightarrow>
           left w' < left w \<and> length line < 1000 \<and> no_end_backslash line"
  using assms unfolding readable_def by (auto split: prod.splits option.splits)

lemma total_conf_env [wp_intro]:
  "(\<And>a w. f (cworld s) = (a, w) \<Longrightarrow> Q a (s\<lparr>cworld := w\<rparr>)) \<Longrightarrow> total (conf_env f) s Q"
  by (auto simp: total_def conf_env_def split: prod.splits)

lemma total_set_tok [wp_intro]: "Q () (s\<lparr>tok := f (tok s)\<rparr>) \<Longrightarrow> total (set_tok f) s Q"
  unfolding set_tok_def by (rule total_modify)

lemma malloc_left:
  assumes "readable E left" and "env_malloc E n w = (a, w')"
  shows "left w' \<le> left w"
  using readableD(1) [OF assms(1), of n w] assms(2) by simp

lemmas conf_run = bindp_def gets_def ret_def modify_def set_tok_def conf_env_def

lemma read_line_total:
  assumes "readable E left" and "tok s = \<lparr> current_line = None, current_line_len = 0, at_pos = 0 \<rparr>"
  shows "total (read_line E) s (\<lambda>got s'. tok_ok (tok s') \<and>
     (if got then current_line (tok s') \<noteq> None \<and> text_left left s' < text_left left s
      else text_left left s' \<le> text_left left s))"
proof -
  obtain ok w1 where m: "env_malloc E max_line_len (cworld s) = (ok, w1)" by fastforce
  obtain l w2 where f: "env_fgets E max_line_len w1 = (l, w2)" by fastforce
  note left = malloc_left [OF assms(1) m] readableD(2) [OF assms(1), of max_line_len w1 w2]
    readableD(3) [OF assms(1), of max_line_len w1 _ w2]
  show ?thesis
  proof (cases ok)
    case False
    then show ?thesis
      using m left assms(2) by (auto simp: read_line_def total_def conf_run tok_ok_def text_left_def)
  next
    case True
    then show ?thesis
      using m f left assms(2)
      by (cases l) (auto simp: read_line_def total_def conf_run tok_ok_def text_left_def)
  qed
qed

lemma fill_line_total:
  assumes "readable E left" and "tok_ok (tok s)"
  shows "total (fill_line E) s (\<lambda>got s'. tok_ok (tok s') \<and>
     (if got then current_line (tok s') \<noteq> None \<and>
        (text_left left s' < text_left left s \<or> s' = s \<and> at_pos (tok s) < current_line_len (tok s))
      else text_left left s' \<le> text_left left s))"
proof (cases "at_pos (tok s) = current_line_len (tok s)")
  case True
  define s0 where "s0 = s\<lparr>tok := \<lparr> current_line = None, current_line_len = 0, at_pos = 0 \<rparr>\<rparr>"
  have run: "fill_line E s = read_line E s0" and left: "text_left left s0 = text_left left s"
    using True by (simp_all add: fill_line_def conf_run s0_def text_left_def)
  have eq: "total (fill_line E) s Q = total (read_line E) s0 Q" for Q
    by (simp add: total_def run)
  show ?thesis
    unfolding eq
    by (rule total_weaken [OF read_line_total [OF assms(1), of s0]])
       (use left in \<open>auto simp: s0_def split: if_splits\<close>)
next
  case False
  with assms(2) show ?thesis
    by (auto simp: fill_line_def tok_ok_def conf_run total_def split: option.splits)
qed

lemma strspn_le: "i \<le> length line \<Longrightarrow> i + strspn (drop i line) acc \<le> length line"
  using length_takeWhile_le [of "\<lambda>c. c \<in> set acc" "drop i line"] by (simp add: strspn_def)

lemma strspn_stops:
  assumes "i + strspn (drop i line) acc < length line"
  shows "cget line (i + strspn (drop i line) acc) \<notin> set acc"
proof -
  let ?n = "strspn (drop i line) acc"
  have "?n < length (drop i line)" using assms by simp
  then have "drop i line ! ?n \<notin> set acc"
    unfolding strspn_def by (rule nth_length_takeWhile)
  with assms show ?thesis by (simp add: cget_def)
qed

text \<open>Scanning stays inside the line, and stops at its end or after a token.\<close>

lemma scan_token_total:
  assumes "readable E left" and "tok_ok (tok s)" and "current_line (tok s) = Some line"
  shows "total (scan_token E) s (\<lambda>r s'. \<exists>n. at_pos (tok s) \<le> n \<and> n \<le> length line \<and>
     tok s' = (tok s)\<lparr>at_pos := n\<rparr> \<and> left (cworld s') \<le> left (cworld s) \<and>
     (r = None \<longrightarrow> n = length line) \<and> (\<forall>w. r = Some (Some w) \<longrightarrow> at_pos (tok s) < n))"
proof -
  define i where "i = at_pos (tok s)"
  define start where "start = i + strspn (drop i line) ifs"
  define e where "e = find_end line (length line) start 0 start"
  have len: "current_line_len (tok s) = length line" "i \<le> length line" "no_end_backslash line"
    using assms(2,3) by (simp_all add: tok_ok_def i_def)
  have start: "i \<le> start" "start \<le> length line"
    using strspn_le [OF len(2), of ifs] by (simp_all add: start_def)
  have e: "start \<le> e" "e \<le> length line"
    using find_end_ge find_end_le_line [OF len(3) refl start(2)] by (simp_all add: e_def)
  have stop: "start = length line" if "start = e"
  proof (rule ccontr)
    assume "start \<noteq> length line"
    with start(2) have *: "start < length line" by simp
    then have "cget line start \<notin> set ifs"
      using strspn_stops [of i line ifs] unfolding start_def by blast
    from find_end_progress [OF * this] that show False unfolding e_def by simp
  qed
  obtain t pos where copy: "copy_token line e 0 start [] = (t, pos)" by fastforce
  have pos: "pos = e" using copy_token_bounds [OF e(1), of line 0 "[]"] copy by simp
  obtain ok w where m: "env_malloc E (int (e - start + 1)) (cworld s) = (ok, w)" by fastforce
  have w: "left w \<le> left (cworld s)" using malloc_left [OF assms(1) m] .
  have *: "i < e" if "start \<noteq> e" using that start(1) e(1) by linarith
  show ?thesis
  proof (cases "cget line start = CHR ''#''")
    case True
    then show ?thesis
      using assms(3) len by (simp add: scan_token_def total_def conf_run i_def [symmetric] start_def [symmetric] Let_def)
  next
    case False
    note run = scan_token_def total_def conf_run i_def [symmetric] start_def [symmetric]
      e_def [symmetric] Let_def
    consider "start = e" | "start \<noteq> e" "\<not> ok" | "start \<noteq> e" ok by blast
    then show ?thesis
    proof cases
      case 1
      with False assms(3) len start stop show ?thesis
        by (auto simp: run find_end_stop)
    next
      case 2
      with False assms(3) len start e m w show ?thesis
        by (simp add: run) (rule exI [of _ start], simp)
    next
      case 3
      with False assms(3) len start e m w copy pos * show ?thesis
        by (simp add: run) (rule exI [of _ e], simp)
    qed
  qed
qed

text \<open>Every round makes progress, so every call of the tokenizer returns.\<close>

definition token_post ::
  "('w \<Rightarrow> nat) \<Rightarrow> 'w conf_sys \<Rightarrow> string option \<Rightarrow> 'w conf_sys \<Rightarrow> bool" where
  "token_post left s r s' \<longleftrightarrow> tok_ok (tok s') \<and> text_left left s' \<le> text_left left s \<and>
     (r \<noteq> None \<longrightarrow> text_left left s' < text_left left s)"

lemma token_round_total:
  assumes "readable E left" and "tok_ok (tok s)"
  shows "total (token_round E) s (\<lambda>r s'. tok_ok (tok s') \<and>
     (r = None \<longrightarrow> text_left left s' < text_left left s) \<and> (\<forall>a. r = Some a \<longrightarrow> token_post left s a s'))"
proof -
  obtain got s1 where s1: "fill_line E s = Some (Ret got s1)" "tok_ok (tok s1)"
    "if got then current_line (tok s1) \<noteq> None \<and>
        (text_left left s1 < text_left left s \<or> s1 = s \<and> at_pos (tok s) < current_line_len (tok s))
      else text_left left s1 \<le> text_left left s"
    using fill_line_total [OF assms] by (rule totalE) blast
  show ?thesis
  proof (cases got)
    case False
    with s1 show ?thesis
      by (simp add: token_round_def total_def bindp_def ret_def token_post_def)
  next
    case True
    with s1(3) obtain line where line: "current_line (tok s1) = Some line" by auto
    obtain r s2 n where s2: "scan_token E s1 = Some (Ret r s2)" "at_pos (tok s1) \<le> n" "n \<le> length line"
      "tok s2 = (tok s1)\<lparr>at_pos := n\<rparr>" "left (cworld s2) \<le> left (cworld s1)"
      "r = None \<longrightarrow> n = length line" "\<forall>w. r = Some (Some w) \<longrightarrow> at_pos (tok s1) < n"
      using scan_token_total [OF assms(1) s1(2) line] by (rule totalE) blast
    have ok: "tok_ok (tok s2)" and len: "current_line_len (tok s1) = length line"
      using s1(2) s2(3,4) line by (simp_all add: tok_ok_def)
    have le: "text_left left s2 \<le> text_left left s1"
      using s2(2-5) len by (simp add: text_left_def)
    have less: "text_left left s2 < text_left left s1" if "at_pos (tok s1) < n"
      using s2(2-5) len that by (simp add: text_left_def)
    have "text_left left s2 < text_left left s" if "at_pos (tok s1) < n \<or> r = None"
      using s1(3) True less le that s2(6) len by auto
    moreover have "text_left left s2 \<le> text_left left s"
      using s1(3) True le by auto
    ultimately show ?thesis
      using s1(1) s2(1,7) True ok
      by (simp add: token_round_def total_def bindp_def token_post_def)
  qed
qed

lemma get_token_total:
  assumes "readable E left" and "tok_ok (tok s)"
  shows "total (get_token E) s (token_post left s)"
  unfolding get_token_def
proof (rule loop_halts [where R = "measure (text_left left)"
      and I = "\<lambda>s'. tok_ok (tok s') \<and> text_left left s' \<le> text_left left s"])
  fix s' assume s': "tok_ok (tok s') \<and> text_left left s' \<le> text_left left s"
  show "total (token_round E) s' (\<lambda>r s2.
      (r = None \<longrightarrow> (tok_ok (tok s2) \<and> text_left left s2 \<le> text_left left s) \<and> (s2, s') \<in> measure (text_left left)) \<and>
      (\<forall>a. r = Some a \<longrightarrow> token_post left s a s2))"
    by (rule total_weaken [OF token_round_total [OF assms(1)]])
       (use s' in \<open>auto simp: token_post_def\<close>)
qed (use assms(2) in auto)

lemma disallow_total:
  assumes "readable E left" and "tok_ok (tok s)"
  shows "total (disallow E) s (token_post left s)"
proof -
  have again: "total (bindp (get_token E) k) s' (token_post left s)"
    if "tok_ok (tok s')" "text_left left s' \<le> text_left left s"
      "\<And>a s1. token_post left s a s1 \<Longrightarrow> total (k a) s1 (token_post left s)" for k s'
    by (rule total_bindp, rule total_weaken [OF get_token_total [OF assms(1) that(1)]], rule that(3))
       (use that(2) in \<open>auto simp: token_post_def\<close>)
  have last: "total (get_token E) s' (token_post left s)"
    if "tok_ok (tok s')" "text_left left s' \<le> text_left left s" for s'
    by (rule total_weaken [OF get_token_total [OF assms(1) that(1)]])
       (use that(2) in \<open>auto simp: token_post_def\<close>)
  show ?thesis
    unfolding disallow_def
    by (intro again total_if total_ret total_bindp [of "modify _"] total_modify last)
       (auto simp: token_post_def text_left_def assms(2))
qed

lemma read_tokens_total:
  assumes "readable E left"
  shows "tok_ok (tok s) \<Longrightarrow> total (read_tokens E token) s (\<lambda>_ s'. tok_ok (tok s'))"
proof (induction "text_left left s" arbitrary: s token rule: less_induct)
  case less
  show ?case
  proof (cases token)
    case None
    then show ?thesis
      using less.prems by (simp add: total_def read_tokens.simps [of E None] ret_def)
  next
    case (Some w)
    obtain r s1 where s1: "(if w = ''disallow'' then disallow E else get_token E) s = Some (Ret r s1)"
      "token_post left s r s1"
      using disallow_total [OF assms less.prems] get_token_total [OF assms less.prems]
      by (cases "w = ''disallow''") (auto simp: total_def)
    have "total (read_tokens E r) s1 (\<lambda>_ s'. tok_ok (tok s'))"
    proof (cases r)
      case None
      with s1(2) show ?thesis
        by (simp add: total_def read_tokens.simps [of E None] ret_def token_post_def)
    next
      case (Some w')
      with s1(2) less.hyps [of s1] show ?thesis by (simp add: token_post_def)
    qed
    then show ?thesis
      using Some s1(1) by (simp add: total_def read_tokens.simps [of E "Some w"] bindp_def)
  qed
qed

lemma read_config_file_total:
  assumes "readable E left" and "tok_ok (tok s)"
  shows "total (read_config_file E) s (\<lambda>_ s'. tok_ok (tok s'))"
proof -
  have read: "total (try_read_config_file E path) s' (\<lambda>_ s'. tok_ok (tok s'))"
    if "tok_ok (tok s')" for path s'
    unfolding try_read_config_file_def
    by (intro total_bindp total_if total_ret total_conf_env
          total_weaken [OF read_tokens_total [OF assms(1)]] total_weaken [OF get_token_total [OF assms(1)]])
       (use that in \<open>auto simp: token_post_def\<close>)
  show ?thesis
    unfolding read_config_file_def
    by (intro total_bindp total_if total_ret total_gets total_modify total_conf_env
          total_weaken [OF read])
       (simp_all add: assms(2) total_modify)
qed

subsection \<open>What the reader changes\<close>

lemma keeps_conf_env: "(\<And>s w. v (s\<lparr>cworld := w\<rparr>) = v s) \<Longrightarrow> keeps v (conf_env f)"
  by (auto simp: keeps_def post_def conf_env_def split: prod.splits)

lemma keeps_set_tok: "(\<And>s. v (s\<lparr>tok := f (tok s)\<rparr>) = v s) \<Longrightarrow> keeps v (set_tok f)"
  unfolding set_tok_def by (rule keeps_modify)

lemma keeps_get_token:
  assumes "\<And>s w. v (s\<lparr>cworld := w\<rparr>) = v s" and "\<And>s t. v (s\<lparr>tok := t\<rparr>) = v s"
  shows "keeps v (get_token E)"
proof -
  have "keeps v (scan_token E)"
    unfolding scan_token_def Let_def
    by (auto intro!: keeps_intro keeps_conf_env keeps_set_tok keeps_case_prod assms split: option.split)
  moreover have "keeps v (fill_line E)"
    unfolding fill_line_def read_line_def
    by (auto intro!: keeps_intro keeps_conf_env keeps_set_tok assms split: option.split)
  ultimately show ?thesis
    unfolding get_token_def token_round_def by (intro keeps_intro)
qed

lemma keeps_read_tokens:
  assumes "keeps v (get_token E)" and "keeps v (disallow E)"
  shows "keeps v (read_tokens E token)"
proof (rule keepsI, rule postI)
  fix s a s' assume r: "read_tokens E token s = Some (Ret a s')"
  have *: "\<And>y. read_tokens E token s = Some y \<Longrightarrow>
      keeps v (get_token E) \<longrightarrow> keeps v (disallow E) \<longrightarrow> (\<forall>s'. y = Ret () s' \<longrightarrow> v s' = v s)"
  proof (erule read_tokens.raw_induct [where P = "\<lambda>E token s y. keeps v (get_token E) \<longrightarrow>
      keeps v (disallow E) \<longrightarrow> (\<forall>s'. y = Ret () s' \<longrightarrow> v s' = v s)", rotated], intro impI)
    fix g E token s y
    assume IH: "\<And>E token s y. g E token s = Some y \<Longrightarrow> keeps v (get_token E) \<longrightarrow>
        keeps v (disallow E) \<longrightarrow> (\<forall>s'. y = Ret () s' \<longrightarrow> v s' = v s)"
      and eq: "(if token = None then ret ()
        else bindp (if token = Some ''disallow'' then disallow E else get_token E) (g E)) s = Some y"
      and k: "keeps v (get_token E)" "keeps v (disallow E)"
    show "\<forall>s'. y = Ret () s' \<longrightarrow> v s' = v s"
    proof (intro allI impI)
      fix s' assume y: "y = Ret () s'"
      show "v s' = v s"
      proof (cases token)
        case None
        with eq y show ?thesis by (simp add: ret_def)
      next
        case (Some w)
        with eq y obtain r s1 where
          "(if w = ''disallow'' then disallow E else get_token E) s = Some (Ret r s1)"
          "g E r s1 = Some (Ret () s')"
          by (auto simp: bindp_eq_Ret)
        then show ?thesis using IH k by (auto dest: keeps_eq split: if_splits)
      qed
    qed
  qed
  from * [OF r] assms show "v s' = v s" by simp
qed

text \<open>
  \<^verbatim>\<open>config_read\<close> is set when the file cannot be opened, and only then: a file that has been
  read is read again by the next search.
\<close>

lemma read_config_file_flag:
  assumes "config_read s = 0"
  shows "post (read_config_file E) s (\<lambda>_ s'. config_read s' = 0 \<or>
     config_read s' = 1 \<and> (\<exists>w. \<not> fst (env_fopen E ''/etc/ieee1284.conf'' w)))"
proof -
  have tok: "keeps config_read (get_token E)" by (rule keeps_get_token) simp_all
  then have "keeps config_read (disallow E)"
    unfolding disallow_def by (intro keeps_intro) simp_all
  with tok have tokens: "keeps config_read (read_tokens E token)" for token
    by (rule keeps_read_tokens)
  have close: "keeps config_read (conf_env (\<lambda>w. ((), env_fclose E w)))"
    by (rule keeps_conf_env) simp
  have tried: "post (try_read_config_file E path) s' (\<lambda>r s2. config_read s2 = config_read s' \<and>
      (truth r \<longrightarrow> (\<exists>w. \<not> fst (env_fopen E path w))))" for path s'
    unfolding try_read_config_file_def
  proof (intro post_bindp [of "conf_env (env_fopen _ _)"] post_if postI)
    fix ok s1 assume "conf_env (env_fopen E path) s' = Some (Ret ok s1)"
    then have s1: "config_read s1 = config_read s'" "fst (env_fopen E path (cworld s')) = ok"
      by (auto simp: conf_env_def split: prod.splits)
    show "config_read s2 = config_read s' \<and> (truth r \<longrightarrow> (\<exists>w. \<not> fst (env_fopen E path w)))"
      if "\<not> ok" "ret 1 s1 = Some (Ret r s2)" for r s2
      using that s1 by (auto simp: ret_def)
    show "config_read s2 = config_read s' \<and> (truth r \<longrightarrow> (\<exists>w. \<not> fst (env_fopen E path w)))"
      if "bindp (get_token E) (\<lambda>token. bindp (read_tokens E token)
           (\<lambda>_. bindp (conf_env (\<lambda>w. ((), env_fclose E w))) (\<lambda>_. ret 0))) s1 = Some (Ret r s2)" for r s2
      using that s1 keeps_eq [OF tok] keeps_eq [OF tokens] keeps_eq [OF close]
      by (auto simp: bindp_eq_Ret ret_eq_Ret truth_def)
  qed
  obtain ok w where m: "env_malloc E 19 (cworld s) = (ok, w)" by fastforce
  define s1 where "s1 = s\<lparr>conf_disallow := 0, cworld := w\<rparr>"
  have s1: "config_read s1 = 0" using assms by (simp add: s1_def)
  have run: "read_config_file E s = (if \<not> ok then Some (Ret () s1)
      else bindp (try_read_config_file E ''/etc/ieee1284.conf'')
        (\<lambda>r. if truth r then modify (\<lambda>s. s\<lparr>config_read := 1\<rparr>) else ret ()) s1)"
    using assms m
    by (simp add: read_config_file_def truth_def s1_def run_simps conf_env_def
        bindp_def [of "gets _"] bindp_def [of "modify _"] bindp_def [of "conf_env _"])
  show ?thesis
    using postD [OF tried] s1
    by (intro postI) (fastforce simp: run bindp_eq_Ret ret_eq_Ret modify_def split: if_splits)
qed

subsection \<open>Words and quoted words\<close>

text \<open>A character that stands for itself in state \<open>q\<close> of the quotes.\<close>

definition ordinary :: "nat \<Rightarrow> char \<Rightarrow> bool" where
  "ordinary q c \<longleftrightarrow> (if q = 0 then c \<notin> set ifs \<and> c \<notin> set tokenchar \<and> c \<noteq> quote1 \<and> c \<noteq> quote2 \<and> c \<noteq> backslash
     else if q = 1 then c \<noteq> quote1 else c \<noteq> quote2 \<and> c \<noteq> backslash)"

lemma cget_append [simp]:
  "cget (pre @ c # rest) (length pre) = c"
  by (simp add: cget_def)

lemma ordinary_step:
  assumes "ordinary q c" and "q \<le> 2"
  shows "find_end (pre @ c # rest) (length (pre @ c # rest)) start q (length pre) =
      find_end (pre @ c # rest) (length (pre @ c # rest)) start q (length pre + 1)"
    and "length pre < e \<Longrightarrow>
      copy_token (pre @ c # rest) e q (length pre) t = copy_token (pre @ c # rest) e q (length pre + 1) (t @ [c])"
proof -
  consider "q = 0" | "q = 1" | "q = 2" using assms(2) by linarith
  note cases = this
  show "find_end (pre @ c # rest) (length (pre @ c # rest)) start q (length pre) =
      find_end (pre @ c # rest) (length (pre @ c # rest)) start q (length pre + 1)"
    using find_end.simps [of "pre @ c # rest" "length (pre @ c # rest)" start q "length pre"] assms(1)
    by (cases rule: cases) (auto simp: Let_def ordinary_def)
  show "copy_token (pre @ c # rest) e q (length pre) t =
      copy_token (pre @ c # rest) e q (length pre + 1) (t @ [c])" if "length pre < e"
    using copy_token.simps [of "pre @ c # rest" e q "length pre" t] assms(1) that
    by (cases rule: cases) (auto simp: Let_def ordinary_def)
qed

lemma ordinary_word:
  assumes "q \<le> 2"
  shows "list_all (ordinary q) w \<Longrightarrow> line = pre @ w @ rest \<Longrightarrow> len = length line \<Longrightarrow>
      find_end line len start q (length pre) = find_end line len start q (length pre + length w)"
    and "list_all (ordinary q) w \<Longrightarrow> line = pre @ w @ rest \<Longrightarrow> length pre + length w \<le> e \<Longrightarrow>
      copy_token line e q (length pre) t = copy_token line e q (length pre + length w) (t @ w)"
proof (induction w arbitrary: pre t)
  case (Cons c w)
  {
    case 1
    with Cons.IH(1) [of "pre @ [c]"] ordinary_step(1) [OF _ assms, of c pre "w @ rest" start]
    show ?case by simp
  next
    case 2
    with Cons.IH(2) [of "pre @ [c]" "t @ [c]"] ordinary_step(2) [OF _ assms, of c pre e "w @ rest" t]
    show ?case by simp
  }
qed simp_all

text \<open>A plain word, and a word in apostrophes, each followed by white space.\<close>

definition quote_word :: "string \<Rightarrow> string" where
  "quote_word w = quote1 # w @ [quote1]"

lemma plain_token:
  assumes "list_all (ordinary 0) w" and "w \<noteq> []" and "c \<in> set ifs" and "line = pre @ w @ c # rest"
  shows "find_end line (length line) (length pre) 0 (length pre) = length pre + length w"
    and "copy_token line (length pre + length w) 0 (length pre) [] = (w, length pre + length w)"
proof -
  have c: "cget line (length pre + length w) = c"
    using cget_append [of "pre @ w" c rest] assms(4) by simp
  have "c \<noteq> backslash" "c \<noteq> quote1" "c \<noteq> quote2"
    using assms(3) by (auto simp: ifs_def)
  then show "find_end line (length line) (length pre) 0 (length pre) = length pre + length w"
    using ordinary_word(1) [OF _ assms(1) _ refl, of line pre "c # rest" "length pre"]
      find_end.simps [of line "length line" "length pre" 0 "length pre + length w"] c assms(3,4)
    by (simp add: Let_def)
  show "copy_token line (length pre + length w) 0 (length pre) [] = (w, length pre + length w)"
    using ordinary_word(2) [OF _ assms(1), of line pre "c # rest" _ "[]"] assms(4)
    by (simp add: copy_token_stop)
qed

lemma quoted_token:
  assumes "quote1 \<notin> set w" and "c \<in> set ifs" and "line = pre @ quote_word w @ c # rest"
  shows "find_end line (length line) (length pre) 0 (length pre) = length pre + length w + 2"
    and "copy_token line (length pre + length w + 2) 0 (length pre) [] = (w, length pre + length w + 2)"
proof -
  let ?n = "length pre"
  have w: "list_all (ordinary 1) w" using assms(1) by (auto simp: list_all_iff ordinary_def)
  have l: "line = pre @ quote1 # w @ quote1 # c # rest" "line = (pre @ [quote1]) @ w @ quote1 # c # rest"
    using assms(3) by (simp_all add: quote_word_def)
  have c: "cget line ?n = quote1" "cget line (?n + length w + 1) = quote1"
    "cget line (?n + length w + 2) = c"
    using cget_append [of pre quote1] cget_append [of "pre @ quote1 # w" quote1]
      cget_append [of "pre @ quote1 # w @ [quote1]" c] l(1) by simp_all
  have "c \<noteq> backslash" "c \<noteq> quote1" "c \<noteq> quote2"
    using assms(2) by (auto simp: ifs_def)
  moreover have "quote1 \<notin> set ifs" "quote1 \<notin> set tokenchar" by (simp_all add: ifs_def tokenchar_def)
  ultimately show "find_end line (length line) ?n 0 ?n = ?n + length w + 2"
    using ordinary_word(1) [OF _ w l(2) refl, of ?n] l(1) c assms(2)
      find_end.simps [of line "length line" ?n 0 ?n]
      find_end.simps [of line "length line" ?n 1 "?n + length w + 1"]
      find_end.simps [of line "length line" ?n 0 "?n + length w + 2"]
    by (simp add: Let_def)
  show "copy_token line (?n + length w + 2) 0 ?n [] = (w, ?n + length w + 2)"
    using ordinary_word(2) [OF _ w l(2), of "?n + length w + 2" "[]"] c
      copy_token.simps [of line "?n + length w + 2" 0 ?n "[]"]
      copy_token.simps [of line "?n + length w + 2" 1 "?n + length w + 1" w]
      copy_token_stop [of "?n + length w + 2" "?n + length w + 2" line 0 w]
    by (simp add: Let_def)
qed

subsection \<open>Round trip of a line\<close>

text \<open>Memory never runs out.\<close>

definition mallocs :: "'w env \<Rightarrow> bool" where
  "mallocs E \<longleftrightarrow> (\<forall>n w. fst (env_malloc E n w))"

lemma c_string_id: "CHR 0x00 \<notin> set w \<Longrightarrow> c_string w = w"
  unfolding c_string_def by (rule takeWhile_eq_all_conv [THEN iffD2]) auto

lemma strspn_blank:
  assumes "set blank \<subseteq> set acc" and "c \<notin> set acc"
  shows "strspn (blank @ c # rest) acc = length blank"
  using assms by (simp add: strspn_def takeWhile_append2 subset_iff)

text \<open>One call of the tokenizer on a line that continues with white space and a token.\<close>

lemma get_token_run:
  assumes "mallocs E" and "tok s = \<lparr> current_line = Some line, current_line_len = length line, at_pos = length pre \<rparr>"
    and line: "line = pre @ blank @ c # rest" and "set blank \<subseteq> set ifs" "c \<notin> set ifs" "c \<noteq> CHR ''#''"
    and e: "find_end line (length line) (length (pre @ blank)) 0 (length (pre @ blank)) = e"
      "e \<noteq> length (pre @ blank)"
    and copy: "copy_token line e 0 (length (pre @ blank)) [] = (w, e)"
  shows "\<exists>s'. get_token E s = Some (Ret (Some (c_string w)) s') \<and> tok s' = (tok s)\<lparr>at_pos := e\<rparr>"
proof -
  have start: "strspn (drop (length pre) line) ifs = length blank"
    using strspn_blank [OF assms(4,5)] line by simp
  have c: "cget line (length pre + length blank) = c"
    using cget_append [of "pre @ blank" c rest] line by simp
  obtain v where m: "env_malloc E (int (e - (length pre + length blank) + 1)) (cworld s) = (True, v)"
    using assms(1) unfolding mallocs_def by (metis prod.collapse)
  have "fill_line E s = Some (Ret True s)"
    using assms(2) line by (simp add: fill_line_def conf_run)
  moreover have "scan_token E s = Some (Ret (Some (Some (c_string w))) (s\<lparr>tok := (tok s)\<lparr>at_pos := e\<rparr>, cworld := v\<rparr>))"
    using assms(2,6) start c m e copy
    by (simp add: scan_token_def conf_run Let_def)
       (simp add: line)
  ultimately show ?thesis
    by (simp add: get_token_def loop.simps token_round_def bindp_def ret_def)
qed

fun get_tokens :: "'w env \<Rightarrow> nat \<Rightarrow> (string option list, 'w conf_sys) prog" where
  "get_tokens E 0 = ret []"
| "get_tokens E (Suc n) = bindp (get_token E) (\<lambda>t. bindp (get_tokens E n) (\<lambda>ts. ret (t # ts)))"

definition print_words :: "string list \<Rightarrow> string" where
  "print_words ws = concat (map (\<lambda>w. '' '' @ quote_word w) ws) @ [CHR 0x0A]"

lemma print_words_next: "\<exists>c rest. print_words ws = c # rest \<and> c \<in> set ifs"
  by (cases ws) (simp_all add: print_words_def ifs_def)

lemma print_words_tokens:
  assumes "mallocs E"
  shows "\<lbrakk>\<forall>w\<in>set ws. quote1 \<notin> set w \<and> CHR 0x00 \<notin> set w; line = pre @ print_words ws;
      tok s = \<lparr> current_line = Some line, current_line_len = length line, at_pos = length pre \<rparr>\<rbrakk> \<Longrightarrow>
    \<exists>s'. get_tokens E (length ws) s = Some (Ret (map Some ws) s')"
proof (induction ws arbitrary: pre s)
  case Nil
  then show ?case by (simp add: ret_def)
next
  case (Cons w ws)
  let ?pre = "pre @ '' ''"
  obtain c rest where c: "print_words ws = c # rest" "c \<in> set ifs"
    using print_words_next by blast
  have line: "line = ?pre @ quote_word w @ c # rest"
    using Cons.prems(2) c(1) by (simp add: print_words_def)
  note q = quoted_token [OF _ c(2) line]
  have w: "quote1 \<notin> set w" "CHR 0x00 \<notin> set w" using Cons.prems(1) by simp_all
  obtain s1 where s1: "get_token E s = Some (Ret (Some (c_string w)) s1)"
    "tok s1 = (tok s)\<lparr>at_pos := length ?pre + length w + 2\<rparr>"
    using get_token_run [OF assms Cons.prems(3), of "'' ''" quote1 "w @ quote1 # c # rest"
        "length ?pre + length w + 2" w] q w(1) line
    by (auto simp: quote_word_def ifs_def)
  have "\<exists>s'. get_tokens E (length ws) s1 = Some (Ret (map Some ws) s')"
    using Cons.IH [of "?pre @ quote_word w" s1] Cons.prems s1(2) line c(1)
    by (simp add: quote_word_def)
  with s1(1) w(2) show ?case by (auto simp: bindp_def ret_def c_string_id)
qed

subsection \<open>A backslash at the end of the line\<close>

lemma backslash_token:
  assumes "list_all (ordinary 0) w" and "w \<noteq> []" and "line = w @ [backslash]"
  shows "find_end line (length line) 0 0 0 = length line + 1"
    and "copy_token line (length line + 1) 0 0 [] = (w @ [CHR 0x00], length line + 1)"
proof -
  have l: "line = [] @ w @ [backslash]" using assms(3) by simp
  have c: "cget line (length w) = backslash" "cget line (length w + 1) = CHR 0x00"
    "length line = length w + 1"
    using assms(3) by (simp_all add: cget_def)
  show "find_end line (length line) 0 0 0 = length line + 1"
    using ordinary_word(1) [OF _ assms(1) l refl, of 0] c
      find_end.simps [of line "length line" 0 0 "length w"] find_end_stop [of "length w + 2" "length line" line 0 0]
    by (simp add: Let_def)
  show "copy_token line (length line + 1) 0 0 [] = (w @ [CHR 0x00], length line + 1)"
    using ordinary_word(2) [OF _ assms(1) l, of "length line + 1" "[]"] c
      copy_token.simps [of line "length line + 1" 0 "length w" w]
      copy_token_stop [of "length w + 2" "length w + 2" line 0 "w @ [CHR 0x00]"]
    by (simp add: Let_def)
qed

lemma get_token_past_end:
  assumes "tok s = \<lparr> current_line = Some line, current_line_len = length line, at_pos = length line + 1 \<rparr>"
    and "length line < 999"
  shows "get_token E s = Some (Fault Uninitialised)"
proof -
  have "token_round E s = Some (Fault Uninitialised)"
    using assms by (simp add: token_round_def fill_line_def scan_token_def conf_run fail_def max_line_len_def)
  then show ?thesis by (simp add: get_token_def loop.simps bindp_def)
qed

subsection \<open>The directive\<close>

definition directive :: string where
  "directive = ''disallow method ppdev'' @ [CHR 0x0A]"

lemma directive_scan:
  "length directive = 22"
  "find_end directive 22 0 0 0 = 8" "copy_token directive 8 0 0 [] = (''disallow'', 8)"
  "find_end directive 22 9 0 9 = 15" "copy_token directive 15 0 9 [] = (''method'', 15)"
  "find_end directive 22 16 0 16 = 21" "copy_token directive 21 0 16 [] = (''ppdev'', 21)"
  "strspn directive ifs = 0" "strspn (drop 8 directive) ifs = 1"
  "strspn (drop 15 directive) ifs = 1" "strspn (drop 21 directive) ifs = 1"
  "find_end directive 22 22 0 22 = 22"
  "cget directive 0 = CHR ''d''" "cget directive 9 = CHR ''m''" "cget directive 16 = CHR ''p''"
  "cget directive 22 = CHR 0x00"
  "c_string ''disallow'' = ''disallow''" "c_string ''method'' = ''method''"
  "c_string ''ppdev'' = ''ppdev''"
  by (code_simp)+

text \<open>The tokens of the line, one call after the other, and the end of the file.\<close>

lemma directive_token:
  assumes "\<And>n w. env_malloc E n w = (True, w)"
    and "tok s = \<lparr> current_line = Some directive, current_line_len = 22, at_pos = i \<rparr>"
    and "(i, w, j) \<in> {(8, ''method'', 15), (15, ''ppdev'', 21)}"
  shows "get_token E s = Some (Ret (Some w) (s\<lparr>tok := (tok s)\<lparr>at_pos := j\<rparr>\<rparr>))"
  using assms
  by (auto simp: get_token_def loop.simps token_round_def fill_line_def scan_token_def conf_run
      directive_scan)

lemma directive_first:
  assumes "\<And>n w. env_malloc E n w = (True, w)"
    and "tok s = \<lparr> current_line = None, current_line_len = 0, at_pos = 0 \<rparr>"
    and "env_fgets E max_line_len (cworld s) = (Some directive, w2)"
  shows "get_token E s = Some (Ret (Some ''disallow'') (s\<lparr>tok := \<lparr> current_line = Some directive,
     current_line_len = 22, at_pos = 8 \<rparr>, cworld := w2\<rparr>))"
  using assms
  by (simp add: get_token_def loop.simps token_round_def fill_line_def read_line_def scan_token_def
      conf_run directive_scan Let_def)

lemma directive_last:
  assumes "\<And>n w. env_malloc E n w = (True, w)"
    and "tok s = \<lparr> current_line = Some directive, current_line_len = 22, at_pos = 21 \<rparr>"
    and "env_fgets E max_line_len (cworld s) = (None, w3)"
  shows "get_token E s = Some (Ret None (s\<lparr>tok := \<lparr> current_line = None,
     current_line_len = 0, at_pos = 0 \<rparr>, cworld := w3\<rparr>))"
  using assms
proof -
  let ?s1 = "s\<lparr>tok := (tok s)\<lparr>at_pos := 22\<rparr>\<rparr>"
  have 1: "token_round E s = Some (Ret None ?s1)"
    using assms by (simp add: token_round_def fill_line_def scan_token_def conf_run directive_scan Let_def)
  have 2: "token_round E ?s1 = Some (Ret (Some None) (s\<lparr>tok := \<lparr> current_line = None,
     current_line_len = 0, at_pos = 0 \<rparr>, cworld := w3\<rparr>))"
    using assms by (simp add: token_round_def fill_line_def read_line_def conf_run)
  show ?thesis
    by (simp add: get_token_def loop.simps [of _ s] loop.simps [of _ ?s1] bindp_def 1 2 ret_def)
qed

lemma directive_read:
  assumes "\<And>n w. env_malloc E n w = (True, w)"
    and "tok s = \<lparr> current_line = None, current_line_len = 0, at_pos = 0 \<rparr>" and "config_read s = 0"
    and "env_fopen E ''/etc/ieee1284.conf'' (cworld s) = (True, w1)"
    and "env_fgets E max_line_len w1 = (Some directive, w2)"
    and "env_fgets E max_line_len w2 = (None, w3)"
  shows "\<exists>s'. read_config_file E s = Some (Ret () s') \<and> conf_disallow s' = 1 \<and> config_read s' = 0"
proof -
  define s1 where "s1 = s\<lparr>conf_disallow := 0, cworld := w1\<rparr>"
  define s2 where "s2 = s1\<lparr>tok := \<lparr> current_line = Some directive, current_line_len = 22, at_pos = 8 \<rparr>,
     cworld := w2\<rparr>"
  define s3 where "s3 = s2\<lparr>tok := (tok s2)\<lparr>at_pos := 15\<rparr>\<rparr>"
  define s4 where "s4 = s3\<lparr>tok := (tok s3)\<lparr>at_pos := 21\<rparr>\<rparr>"
  define s5 where "s5 = s4\<lparr>conf_disallow := 1, tok := \<lparr> current_line = None, current_line_len = 0,
     at_pos = 0 \<rparr>, cworld := w3\<rparr>"
  have 1: "get_token E s1 = Some (Ret (Some ''disallow'') s2)"
    unfolding s2_def by (rule directive_first) (simp_all add: assms s1_def)
  have 2: "get_token E s2 = Some (Ret (Some ''method'') s3)"
    unfolding s3_def by (rule directive_token [where i = 8]) (simp_all add: assms s2_def)
  have 3: "get_token E s3 = Some (Ret (Some ''ppdev'') s4)"
    unfolding s4_def by (rule directive_token [where i = 15]) (simp_all add: assms s3_def s2_def)
  have 4: "get_token E (s4\<lparr>conf_disallow := 1\<rparr>) = Some (Ret None s5)"
    using directive_last [of E "s4\<lparr>conf_disallow := 1\<rparr>" w3] assms
    by (simp add: s5_def s4_def s3_def s2_def)
  have "disallow E s2 = Some (Ret None s5)"
    by (simp add: disallow_def bindp_def 2 3 4 modify_def)
  then have "read_tokens E (Some ''disallow'') s2 = Some (Ret () s5)"
    by (simp add: read_tokens.simps [of E "Some ''disallow''"] read_tokens.simps [of E None] bindp_def ret_def)
  then have "try_read_config_file E ''/etc/ieee1284.conf'' (s\<lparr>conf_disallow := 0\<rparr>) =
      Some (Ret 0 (s5\<lparr>cworld := env_fclose E w3\<rparr>))"
    using assms(4) 1 by (simp add: try_read_config_file_def bindp_def conf_env_def s1_def s5_def ret_def)
  then have "read_config_file E s = Some (Ret () (s5\<lparr>cworld := env_fclose E w3\<rparr>))"
    using assms(1,3) by (simp add: read_config_file_def bindp_def gets_def modify_def conf_env_def
        truth_def ret_def)
  then show ?thesis
    using assms(3) by (simp add: s5_def s4_def s3_def s2_def s1_def)
qed

end
