(* ===== verification/Lib_State.thy ===== *)
theory Lib_State
  imports Interface Conf
begin

section \<open>The state of the whole library\<close>

text \<open>
  The functions that find, open and free ports work on more than one port: on the globals
  (\<^verbatim>\<open>capabilities\<close>, the configuration, the static \<^verbatim>\<open>detected\<close>) and on the heap.  A port in the
  heap is an address with the pair of its public structure and its private part; the heap
  maps a freed address to \<open>None\<close>.  The theory defines this state, the two liftings that run
  a program on one port or on the configuration inside it, the kernel calls, and the few
  functions of the C library on strings that the callers need.
\<close>

record 'w lib =
  capabilities :: int
  detected :: int
  lib_tok :: tokenizer
  lib_disallow :: int
  lib_config_read :: int
  heap :: "nat \<Rightarrow> (parport \<times> parport_internal) option"
  next_addr :: nat
  found :: "nat list"
  lworld :: 'w
  ltrace :: "event list"

subsection \<open>Running a program on a part of the state\<close>

definition on_port :: "nat \<Rightarrow> ('a, 'w sys) prog \<Rightarrow> ('a, 'w lib) prog" where
  "on_port p m = (\<lambda>s. case heap s p of
       None \<Rightarrow> Some (Fault Use_after_free)
     | Some (q, i) \<Rightarrow>
         (case m \<lparr> pub = q, prt = i,
             glob = \<lparr> g_capabilities = capabilities s, disallow_ppdev = lib_disallow s \<rparr>,
             world = lworld s, trace = ltrace s \<rparr> of
            None \<Rightarrow> None
          | Some (Fault f) \<Rightarrow> Some (Fault f)
          | Some (Ret a t) \<Rightarrow> Some (Ret a (s\<lparr>heap := (heap s)(p \<mapsto> (pub t, prt t)),
              lworld := world t, ltrace := trace t\<rparr>))))"

definition on_conf :: "('a, 'w conf_sys) prog \<Rightarrow> ('a, 'w lib) prog" where
  "on_conf m = (\<lambda>s.
     case m \<lparr> tok = lib_tok s, conf_disallow = lib_disallow s, config_read = lib_config_read s,
              cworld = lworld s \<rparr> of
       None \<Rightarrow> None
     | Some (Fault f) \<Rightarrow> Some (Fault f)
     | Some (Ret a t) \<Rightarrow> Some (Ret a (s\<lparr>lib_tok := tok t, lib_disallow := conf_disallow t,
         lib_config_read := config_read t, lworld := cworld t\<rparr>)))"

subsection \<open>Calls of the outside\<close>

definition lib_call :: "('w \<Rightarrow> 'a \<times> 'w) \<Rightarrow> ('a \<Rightarrow> event list) \<Rightarrow> ('a, 'w lib) prog" where
  "lib_call f ev = (\<lambda>s. case f (lworld s) of
      (a, w) \<Rightarrow> Some (Ret a (s\<lparr>lworld := w, ltrace := ltrace s @ ev a\<rparr>)))"

definition sys_open :: "'w env \<Rightarrow> string \<Rightarrow> open_flags \<Rightarrow> (int, 'w lib) prog" where
  "sys_open E path flags = lib_call (env_open E path flags) (\<lambda>r. [event.Open path r])"

definition sys_close :: "'w env \<Rightarrow> int \<Rightarrow> (unit, 'w lib) prog" where
  "sys_close E d = lib_call (\<lambda>w. ((), env_close E d w)) (\<lambda>_. [Close d])"

definition sys_read :: "'w env \<Rightarrow> int \<Rightarrow> int \<Rightarrow> (int \<times> u8 list, 'w lib) prog" where
  "sys_read E d n = lib_call (env_read E d n) (\<lambda>r. [Read d n (fst r)])"

definition sys_ioctl :: "'w env \<Rightarrow> int \<Rightarrow> ioctl \<Rightarrow> (ioctl_reply, 'w lib) prog" where
  "sys_ioctl E d req = lib_call (env_ioctl E d req) (\<lambda>r. [Ioctl d req (reply_ret r)])"

definition sys_malloc :: "'w env \<Rightarrow> int \<Rightarrow> (bool, 'w lib) prog" where
  "sys_malloc E n = lib_call (env_malloc E n) (\<lambda>_. [])"

lemmas sys_defs = sys_open_def sys_close_def sys_read_def sys_ioctl_def sys_malloc_def

subsection \<open>Numbers in strings\<close>

definition digit :: "nat \<Rightarrow> char" where
  "digit n = char_of (48 + n)"

fun decimal :: "nat \<Rightarrow> string" where
  "decimal n = (if n < 10 then [digit n] else decimal (n div 10) @ [digit (n mod 10)])"

declare decimal.simps [simp del]

text \<open>\<^verbatim>\<open>sprintf ("%d")\<close>.\<close>

definition print_int :: "int \<Rightarrow> string" where
  "print_int i = (if i < 0 then CHR ''-'' # decimal (nat (- i)) else decimal (nat i))"

definition isdigit :: "char \<Rightarrow> bool" where
  "isdigit c \<longleftrightarrow> 48 \<le> (of_char c :: nat) \<and> (of_char c :: nat) \<le> 57"

definition isspace :: "char \<Rightarrow> bool" where
  "isspace c \<longleftrightarrow> c = CHR '' '' \<or> (9 \<le> (of_char c :: nat) \<and> (of_char c :: nat) \<le> 13)"

text \<open>The value of a character as a digit of any base up to 16: 99 for none.\<close>

definition digit_value :: "char \<Rightarrow> nat" where
  "digit_value c = (let n = of_char c :: nat in
     if 48 \<le> n \<and> n \<le> 57 then n - 48
     else if 97 \<le> n \<and> n \<le> 102 then n - 87
     else if 65 \<le> n \<and> n \<le> 70 then n - 55
     else 99)"

fun read_digits :: "nat \<Rightarrow> nat \<Rightarrow> string \<Rightarrow> nat \<times> string" where
  "read_digits b acc [] = (acc, [])"
| "read_digits b acc (c # s) =
     (if digit_value c < b then read_digits b (acc * b + digit_value c) s else (acc, c # s))"

text \<open>
  The subject of \<^verbatim>\<open>strtoul (s, &end, 0)\<close> and \<^verbatim>\<open>strtol\<close>: white space, a sign, a base prefix,
  digits.  The result is the sign, the magnitude and the rest of the string; \<open>None\<close> when
  there is no number, and then \<^verbatim>\<open>end\<close> is \<^verbatim>\<open>s\<close>.
\<close>

definition read_unsigned :: "string \<Rightarrow> (nat \<times> string) option" where
  "read_unsigned s =
     (case s of
        [] \<Rightarrow> None
      | c # t \<Rightarrow>
        if c = CHR ''0'' then
          (case t of
             x # h # u \<Rightarrow>
               if (x = CHR ''x'' \<or> x = CHR ''X'') \<and> digit_value h < 16
               then Some (read_digits 16 0 (h # u)) else Some (read_digits 8 0 t)
           | _ \<Rightarrow> Some (read_digits 8 0 t))
        else if digit_value c < 10 then Some (read_digits 10 0 s)
        else None)"

definition read_number :: "string \<Rightarrow> (bool \<times> nat \<times> string) option" where
  "read_number s =
     (let t = dropWhile isspace s;
          negative = (t \<noteq> [] \<and> hd t = CHR ''-'');
          u = (if t \<noteq> [] \<and> (hd t = CHR ''-'' \<or> hd t = CHR ''+'') then tl t else t)
      in map_option (\<lambda>(n, rest). (negative, n, rest)) (read_unsigned u))"

text \<open>
  \<^verbatim>\<open>strtoul\<close> with base 0 on a 64-bit system: out of range is \<^verbatim>\<open>ULONG_MAX\<close>, a minus sign negates
  the unsigned value; the second result is what \<^verbatim>\<open>endptr\<close> points to.
\<close>

definition strtoul :: "string \<Rightarrow> 64 word \<times> string" where
  "strtoul s = (case read_number s of
       None \<Rightarrow> (0, s)
     | Some (negative, n, rest) \<Rightarrow>
         (if 2 ^ 64 \<le> n then -1 else if negative then - of_nat n else of_nat n, rest))"

text \<open>
  The conversion of the result of \<^verbatim>\<open>strtol\<close>, a 64-bit \<^verbatim>\<open>long\<close> that saturates, to \<^verbatim>\<open>int\<close>.
\<close>

definition strtol_int :: "string \<Rightarrow> int" where
  "strtol_int s = (case read_number s of
       None \<Rightarrow> 0
     | Some (negative, n, rest) \<Rightarrow>
         let v = (if negative then max (- (2 ^ 63)) (- int n) else min (2 ^ 63 - 1) (int n))
         in sint (word_of_int v :: 32 word))"

text \<open>\<^verbatim>\<open>strstr\<close>: the rest of the string behind the first occurrence of \<open>pat\<close>.\<close>

fun after_match :: "string \<Rightarrow> string \<Rightarrow> string option" where
  "after_match pat s =
     (if take (length pat) s = pat then Some (drop (length pat) s)
      else case s of [] \<Rightarrow> None | c # t \<Rightarrow> after_match pat t)"

declare after_match.simps [simp del]

text \<open>Bytes read from a file, as characters.\<close>

definition chars_of :: "u8 list \<Rightarrow> string" where
  "chars_of bs = map (\<lambda>b. char_of (unat b)) bs"

subsection \<open>Rules\<close>

lemma post_lib_call [wp_intro]:
  "(\<And>a w. f (lworld s) = (a, w) \<Longrightarrow> Q a (s\<lparr>lworld := w, ltrace := ltrace s @ ev a\<rparr>)) \<Longrightarrow>
     post (lib_call f ev) s Q"
  by (auto simp: post_def lib_call_def split: prod.splits)

lemma total_lib_call [wp_intro]:
  "(\<And>a w. f (lworld s) = (a, w) \<Longrightarrow> Q a (s\<lparr>lworld := w, ltrace := ltrace s @ ev a\<rparr>)) \<Longrightarrow>
     total (lib_call f ev) s Q"
  by (auto simp: total_def lib_call_def split: prod.splits)

lemma sound_lib_call [sound_intro]:
  "(\<And>a w. f (lworld s) = (a, w) \<Longrightarrow> Q a (s\<lparr>lworld := w, ltrace := ltrace s @ ev a\<rparr>)) \<Longrightarrow>
     sound (lib_call f ev) s Q"
  by (auto simp: sound_def lib_call_def split: prod.splits)

lemma keeps_lib_call:
  "(\<And>s w a. v (s\<lparr>lworld := w, ltrace := ltrace s @ ev a\<rparr>) = v s) \<Longrightarrow> keeps v (lib_call f ev)"
  by (auto simp: keeps_def post_def lib_call_def split: prod.splits)

lemma returns_lib_call [returns_intro]: "returns (lib_call f ev)"
  by (auto simp: returns_def total_def lib_call_def split: prod.split)

text \<open>A program on one port leaves the other ports and the globals alone.\<close>

lemma on_port_Ret:
  "on_port p m s = Some (Ret a s') \<longleftrightarrow>
     (\<exists>q i t. heap s p = Some (q, i) \<and>
        m \<lparr> pub = q, prt = i, glob = \<lparr> g_capabilities = capabilities s, disallow_ppdev = lib_disallow s \<rparr>,
            world = lworld s, trace = ltrace s \<rparr> = Some (Ret a t) \<and>
        s' = s\<lparr>heap := (heap s)(p \<mapsto> (pub t, prt t)), lworld := world t, ltrace := trace t\<rparr>)"
  by (auto simp: on_port_def split: option.splits outcome.splits prod.splits)

lemma on_conf_Ret:
  "on_conf m s = Some (Ret a s') \<longleftrightarrow>
     (\<exists>t. m \<lparr> tok = lib_tok s, conf_disallow = lib_disallow s, config_read = lib_config_read s,
              cworld = lworld s \<rparr> = Some (Ret a t) \<and>
        s' = s\<lparr>lib_tok := tok t, lib_disallow := conf_disallow t, lib_config_read := config_read t,
             lworld := cworld t\<rparr>)"
  by (auto simp: on_conf_def split: option.splits outcome.splits)

lemma decimal_length: "n < 10 ^ k \<Longrightarrow> 0 < k \<Longrightarrow> length (decimal n) \<le> k"
proof (induction k arbitrary: n)
  case (Suc k)
  show ?case
  proof (cases "n < 10")
    case True
    then show ?thesis by (simp add: decimal.simps [of n])
  next
    case False
    then have "n div 10 < 10 ^ k" "0 < k"
      using Suc.prems by (auto simp: less_mult_imp_div_less mult.commute intro: gr0I)
    with Suc.IH [of "n div 10"] False show ?thesis by (simp add: decimal.simps [of n])
  qed
qed simp

end
