(* ===== verification/Detect.thy ===== *)
theory Detect
  imports Lib_State
begin

section \<open>Finding out what the system can do: \<^verbatim>\<open>src/detect.c\<close>\<close>

text \<open>
  The probes for device nodes, for direct I/O, for the Windows driver and for the two kinds
  of \<^verbatim>\<open>/proc\<close> entries, and \<^verbatim>\<open>detect_environment\<close>, which runs them once and collects the
  result in the global \<^verbatim>\<open>capabilities\<close>.  The theorems: which bits can be set, that forbidden
  methods are never found, that a second call does nothing, and that every descriptor the
  probes open is closed again, except on Solaris.
\<close>

definition add_cap :: "int \<Rightarrow> (unit, 'w lib) prog" where
  "add_cap c = modify (\<lambda>s. s\<lparr>capabilities := capabilities s OR c\<rparr>)"

definition sys_stat :: "'w env \<Rightarrow> string \<Rightarrow> ((bool \<times> int) option, 'w lib) prog" where
  "sys_stat E path = lib_call (env_stat E path) (\<lambda>_. [])"

definition check_proc_type :: "'w env \<Rightarrow> (int, 'w lib) prog" where
  "check_proc_type E =
     bindp (sys_stat E ''/proc/sys/dev/parport'') (\<lambda>st1.
     bindp (if st1 \<noteq> None \<and> fst (the st1) then ret PROC_SYS_DEV_PARPORT_CAPABLE
            else bindp (sys_stat E ''/proc/parport'') (\<lambda>st2.
                 ret (if st2 \<noteq> None \<and> fst (the st2) \<and> 2 < snd (the st2)
                      then PROC_PARPORT_CAPABLE else 0))) (\<lambda>which.
     bindp (add_cap which) (\<lambda>_. ret which)))"

text \<open>The loop over the eight nodes: \<open>left\<close> rounds remain, the next is number \<open>i\<close>.\<close>

fun dev_node_loop :: "'w env \<Rightarrow> string \<Rightarrow> nat \<Rightarrow> nat \<Rightarrow> (int, 'w lib) prog" where
  "dev_node_loop E typ i 0 = ret 0"
| "dev_node_loop E typ i (Suc left) =
     bindp (sys_open E (''/dev/'' @ typ @ decimal i) O_RDONLY_NOCTTY) (\<lambda>d1.
     let is_parport = (have_linux (env_build E) \<and> take 7 typ = ''parport'') in
     bindp (if d1 < 0 \<and> is_parport
            then sys_open E (''/dev/'' @ typ @ ''s/'' @ decimal i) O_RDONLY_NOCTTY
            else ret d1) (\<lambda>d.
     if 0 \<le> d
     then
       bindp (if is_parport
              then bindp (sys_ioctl E d PPCLAIM) (\<lambda>r.
                   if reply_ret r = 0 then bindp (sys_ioctl E d PPRELEASE) (\<lambda>_. ret ()) else ret ())
              else ret ()) (\<lambda>_.
       bindp (sys_close E d) (\<lambda>_. ret 1))
     else dev_node_loop E typ (i + 1) left))"

definition check_dev_node :: "'w env \<Rightarrow> string \<Rightarrow> (int, 'w lib) prog" where
  "check_dev_node E typ = dev_node_loop E typ 0 8"

definition check_dev_port :: "'w env \<Rightarrow> (int, 'w lib) prog" where
  "check_dev_port E =
     bindp (sys_open E ''/dev/port'' O_RDWR_NOCTTY) (\<lambda>d.
     if 0 \<le> d
     then bindp (sys_close E d) (\<lambda>_. bindp (add_cap DEV_PORT_CAPABLE) (\<lambda>_. ret 1))
     else ret 0)"

definition sys_ioperm :: "'w env \<Rightarrow> int \<Rightarrow> int \<Rightarrow> int \<Rightarrow> (int, 'w lib) prog" where
  "sys_ioperm E from num on = lib_call (env_ioperm E from num on) (\<lambda>r. [Ioperm from num on r])"

text \<open>
  Is direct I/O possible?  One branch per build; that of Solaris is the only one which leaves a
  descriptor open, and that of NetBSD has no test.
\<close>

definition check_io :: "'w env \<Rightarrow> (int, 'w lib) prog" where
  "check_io E =
     (let found = bindp (add_cap IO_CAPABLE) (\<lambda>_. ret 1) in
      case env_build E of
        OpenBSD \<Rightarrow>
          bindp (sys_malloc E 128) (\<lambda>m.
          if \<not> m then ret 0
          else bindp (lib_call (env_get_iomap E) (\<lambda>(r, _). [Get_iomap r])) (\<lambda>(r1, iomap).
               if r1 \<noteq> 0 then ret 0
               else bindp (lib_call (env_set_iomap E iomap) (\<lambda>r. [Set_iomap iomap r])) (\<lambda>r2.
                    if r2 = 0 then found else ret 0)))
      | FreeBSD \<Rightarrow>
          bindp (sys_open E ''/dev/io'' O_RDONLY) (\<lambda>d.
          if 0 \<le> d then bindp (add_cap IO_CAPABLE) (\<lambda>_. bindp (sys_close E d) (\<lambda>_. ret 1))
          else ret 0)
      | NetBSD \<Rightarrow> found
      | Linux \<Rightarrow>
          bindp (sys_ioperm E 0x378 3 1) (\<lambda>r.
          if r = 0 then bindp (sys_ioperm E 0x378 3 0) (\<lambda>_. found) else ret 0)
      | Linux_No_Io \<Rightarrow> ret 0
      | Solaris \<Rightarrow>
          bindp (sys_open E ''/devices/pseudo/iop@0:iop'' O_RDWR) (\<lambda>d.
          if 0 < d then found else ret 0)
      | _ \<Rightarrow>
          bindp (lib_call (env_get_version E) (\<lambda>_. [])) (\<lambda>v.
          if bit v 31 then found else ret 0))"

text \<open>\<^verbatim>\<open>CreateFile\<close> fails with \<^verbatim>\<open>INVALID_HANDLE_VALUE\<close>, which is \<open>-1\<close>.\<close>

definition vdmlpt1 :: string where
  "vdmlpt1 = [backslash, backslash, CHR ''.'', backslash] @ ''$VDMLPT1''"

definition check_lpt :: "'w env \<Rightarrow> (int, 'w lib) prog" where
  "check_lpt E =
     (if have_cygwin (env_build E)
      then bindp (sys_open E vdmlpt1 O_RDWR_NOCTTY) (\<lambda>h.
           if h = -1 then ret 0
           else bindp (sys_close E h) (\<lambda>_. bindp (add_cap LPT_CAPABLE) (\<lambda>_. ret 1)))
      else ret 0)"

definition unless_forbidden :: "int \<Rightarrow> int \<Rightarrow> (int, 'w lib) prog \<Rightarrow> (int, 'w lib) prog" where
  "unless_forbidden forbidden c check =
     (if \<not> truth (forbidden AND c) then check else ret 0)"

definition detect_environment :: "'w env \<Rightarrow> int \<Rightarrow> (int, 'w lib) prog" where
  "detect_environment E forbidden =
     bindp (gets detected) (\<lambda>done.
     if truth done \<and> \<not> truth forbidden then ret 0
     else
     bindp (modify (\<lambda>s. s\<lparr>detected := 1, capabilities := 0\<rparr>)) (\<lambda>_.
     bindp (unless_forbidden forbidden PPDEV_CAPABLE (check_dev_node E ''parport'')) (\<lambda>node.
     bindp (if truth node then add_cap PPDEV_CAPABLE else ret ()) (\<lambda>_.
     bindp (unless_forbidden forbidden IO_CAPABLE (check_io E)) (\<lambda>_.
     bindp (unless_forbidden forbidden DEV_PORT_CAPABLE (check_dev_port E)) (\<lambda>_.
     bindp (unless_forbidden forbidden LPT_CAPABLE (check_lpt E)) (\<lambda>_.
     bindp (if \<not> truth node then check_dev_node E ''lp'' else ret 0) (\<lambda>_.
     bindp (check_proc_type E) (\<lambda>_.
     ret 0)))))))))"

subsection \<open>Descriptors\<close>

text \<open>The number of descriptors a sequence of events leaves open.\<close>

fun open_count :: "event list \<Rightarrow> int" where
  "open_count [] = 0"
| "open_count (event.Open path r # es) = (if r < 0 then 0 else 1) + open_count es"
| "open_count (Close d # es) = open_count es - 1"
| "open_count (_ # es) = open_count es"

lemma open_count_append [simp]: "open_count (es @ fs) = open_count es + open_count fs"
  by (induction es rule: open_count.induct) auto

abbreviation (input) still_open :: "'w lib \<Rightarrow> int" where
  "still_open s \<equiv> open_count (ltrace s)"

lemma dev_node_loop_post:
  "post (dev_node_loop E typ i left) s (\<lambda>r s'. still_open s' = still_open s \<and>
     capabilities s' = capabilities s \<and> (r = 0 \<or> r = 1))"
proof (induction left arbitrary: i s)
  case (Suc left)
  show ?case
    unfolding dev_node_loop.simps Let_def sys_defs
    by (intro wp_intro post_weaken [OF Suc.IH]) auto
qed (simp add: post_def ret_def)

text \<open>\<^verbatim>\<open>open\<close> and \<^verbatim>\<open>CreateFile\<close> fail with \<open>-1\<close>.\<close>

definition open_ok :: "'w env \<Rightarrow> bool" where
  "open_ok E \<longleftrightarrow> (\<forall>path flags w. -1 \<le> fst (env_open E path flags w))"

lemma open_okD:
  assumes "open_ok E" and "env_open E path flags w = (d, w')"
  shows "d < 0 \<longleftrightarrow> d = -1"
proof -
  have "-1 \<le> d" using assms unfolding open_ok_def by (metis fst_conv)
  then show ?thesis by auto
qed

text \<open>
  What a probe may do: it sets no capability bits but those of \<open>c\<close>, clears none, and closes
  what it has opened.
\<close>

definition probes :: "int \<Rightarrow> ('a, 'w lib) prog \<Rightarrow> bool" where
  "probes c m \<longleftrightarrow> (\<forall>s. post m s (\<lambda>_ s'. still_open s' = still_open s \<and>
     (capabilities s' = capabilities s \<or> capabilities s' = capabilities s OR c)))"

lemma probes_nothing:
  "(\<And>s. post m s (\<lambda>_ s'. still_open s' = still_open s \<and> capabilities s' = capabilities s)) \<Longrightarrow>
     probes c m"
  unfolding probes_def by (intro allI, rule post_weaken, assumption) simp

lemma probes_add_cap: "probes c (add_cap c)"
  unfolding probes_def add_cap_def by (auto intro: wp_intro)

lemma probes_dev_node: "probes c (check_dev_node E typ)"
  unfolding check_dev_node_def by (rule probes_nothing) (rule post_weaken [OF dev_node_loop_post], simp)

lemma probes_check_io:
  assumes "env_build E \<noteq> Solaris"
  shows "probes IO_CAPABLE (check_io E)"
  unfolding probes_def check_io_def add_cap_def sys_ioperm_def sys_defs Let_def case_prod_beta
  using assms by (cases "env_build E") (auto intro!: wp_intro)

lemma probes_check_dev_port: "probes DEV_PORT_CAPABLE (check_dev_port E)"
  unfolding probes_def check_dev_port_def add_cap_def sys_defs
  by (auto intro!: wp_intro)

lemma probes_check_lpt: "open_ok E \<Longrightarrow> probes LPT_CAPABLE (check_lpt E)"
  unfolding probes_def check_lpt_def add_cap_def sys_defs
  by (auto intro!: wp_intro dest: open_okD)

lemma check_proc_type_post:
  "post (check_proc_type E) s (\<lambda>r s'. still_open s' = still_open s \<and>
     (r = 0 \<or> r = PROC_SYS_DEV_PARPORT_CAPABLE \<or> r = PROC_PARPORT_CAPABLE) \<and>
     capabilities s' = capabilities s OR r)"
  unfolding check_proc_type_def sys_stat_def add_cap_def
  by (intro wp_intro) auto

subsection \<open>The environment\<close>

text \<open>All capabilities found so far are bits of \<open>M\<close>, and between \<open>k\<close> and \<open>j\<close> descriptors are open.\<close>

definition found_within :: "int \<Rightarrow> int \<Rightarrow> int \<Rightarrow> 'w lib \<Rightarrow> bool" where
  "found_within k j M s \<longleftrightarrow> k \<le> still_open s \<and> still_open s \<le> j \<and> capabilities s AND NOT M = 0"

lemma or_within: "(a OR c) AND NOT M = 0 \<longleftrightarrow> a AND NOT M = 0 \<and> c AND NOT M = (0 :: int)"
  by (auto simp: bit_eq_iff bit_simps)

lemma stays_probes:
  fixes m :: "('a, 'w lib) prog"
  assumes "probes c m" and "c AND NOT M = 0"
  shows "stays (found_within k j M) m"
proof (rule staysI)
  fix s :: "'w lib" assume s: "found_within k j M s"
  have "post m s (\<lambda>_ s'. still_open s' = still_open s \<and>
     (capabilities s' = capabilities s \<or> capabilities s' = capabilities s OR c))"
    using assms(1) by (simp add: probes_def)
  then show "post m s (\<lambda>_. found_within k j M)"
    by (rule post_weaken) (use s assms(2) in \<open>auto simp: found_within_def or_within\<close>)
qed

text \<open>What a call with the argument \<open>forbidden\<close> may find.\<close>

definition may_find :: "int \<Rightarrow> int" where
  "may_find forbidden =
     ((PPDEV_CAPABLE OR IO_CAPABLE OR DEV_PORT_CAPABLE OR LPT_CAPABLE) AND NOT forbidden) OR
      (PROC_SYS_DEV_PARPORT_CAPABLE OR PROC_PARPORT_CAPABLE)"

lemma unforbidden_bit:
  assumes "\<not> truth (f AND c)" and "c AND NOT k = 0"
  shows "c AND NOT ((k AND NOT f) OR p) = (0 :: int)"
proof (rule bit_eqI)
  fix n
  have "\<not> bit (f AND c) n" "\<not> bit (c AND NOT k) n"
    using assms by (simp_all add: truth_def)
  then show "bit (c AND NOT ((k AND NOT f) OR p)) n = bit (0 :: int) n"
    by (auto simp: bit_simps)
qed

lemma proc_bit:
  assumes "c AND NOT p = (0 :: int)"
  shows "c AND NOT (k OR p) = 0"
proof (rule bit_eqI)
  fix n
  have "\<not> bit (c AND NOT p) n" using assms by simp
  then show "bit (c AND NOT (k OR p)) n = bit (0 :: int) n" by (auto simp: bit_simps)
qed

lemma may_find_bit:
  assumes "\<not> truth (forbidden AND c)" and "c AND NOT (PPDEV_CAPABLE OR IO_CAPABLE OR DEV_PORT_CAPABLE OR LPT_CAPABLE) = 0"
  shows "c AND NOT (may_find forbidden) = 0"
  unfolding may_find_def using assms by (rule unforbidden_bit)

lemma stays_unless_forbidden:
  assumes "probes c m" and "c AND NOT (PPDEV_CAPABLE OR IO_CAPABLE OR DEV_PORT_CAPABLE OR LPT_CAPABLE) = 0"
  shows "stays (found_within k j (may_find forbidden)) (unless_forbidden forbidden c m)"
  using stays_probes [OF assms(1) may_find_bit] assms(2)
  by (auto simp: unless_forbidden_def intro: stays_ret)

text \<open>The probe for direct I/O, in any build: that of Solaris leaves at most its own descriptor open.\<close>

definition left_open :: "'w env \<Rightarrow> int" where
  "left_open E = (if env_build E = Solaris then 1 else 0)"

lemma io_probe_within:
  assumes "found_within k k (may_find forbidden) s"
  shows "post (unless_forbidden forbidden IO_CAPABLE (check_io E)) s
     (\<lambda>_. found_within k (k + left_open E) (may_find forbidden))"
proof (cases "env_build E = Solaris")
  case False
  then show ?thesis
    using staysD [OF stays_unless_forbidden [OF probes_check_io] assms] by (simp add: left_open_def)
next
  case True
  have io: "post (check_io E) s (\<lambda>_ s'. (still_open s' = still_open s \<or> still_open s' = still_open s + 1) \<and>
     (capabilities s' = capabilities s \<or> capabilities s' = capabilities s OR IO_CAPABLE))"
    using True unfolding check_io_def add_cap_def sys_defs Let_def by (auto intro!: wp_intro)
  have "post (check_io E) s (\<lambda>_. found_within k (k + left_open E) (may_find forbidden))"
    if "\<not> truth (forbidden AND IO_CAPABLE)"
    using assms True may_find_bit [OF that]
    by (intro post_weaken [OF io]) (auto simp: found_within_def left_open_def or_within)
  then show ?thesis
    using assms True by (auto simp: unless_forbidden_def found_within_def left_open_def intro: post_ret)
qed

lemma detect_environment_post:
  assumes "open_ok E" and "\<not> (truth (detected s) \<and> \<not> truth forbidden)"
  shows "post (detect_environment E forbidden) s (\<lambda>r s'. r = 0 \<and>
     still_open s \<le> still_open s' \<and> still_open s' \<le> still_open s + left_open E \<and>
     capabilities s' AND NOT (may_find forbidden) = 0)"
proof -
  let ?W = "\<lambda>j. found_within (still_open s) j (may_find forbidden)"
  let ?I = "?W (still_open s)" and ?J = "?W (still_open s + left_open E)"
  have stays: "stays (?W j) (unless_forbidden forbidden DEV_PORT_CAPABLE (check_dev_port E))"
    "stays (?W j) (unless_forbidden forbidden LPT_CAPABLE (check_lpt E))"
    "stays (?W j) (unless_forbidden forbidden PPDEV_CAPABLE (check_dev_node E ''parport''))" for j
    by (rule stays_unless_forbidden, (rule probes_check_dev_port probes_check_lpt assms probes_dev_node)+, simp)+
  have node: "truth r \<longrightarrow> \<not> truth (forbidden AND PPDEV_CAPABLE)"
    if "unless_forbidden forbidden PPDEV_CAPABLE m s0 = Some (Ret r s1)" for m r s0 s1
    using that by (auto simp: unless_forbidden_def ret_def truth_def split: if_splits)
  have add: "stays ?I (if truth r then add_cap PPDEV_CAPABLE else ret ())"
    if "truth r \<longrightarrow> \<not> truth (forbidden AND PPDEV_CAPABLE)" for r
    using may_find_bit [of forbidden PPDEV_CAPABLE] that
    by (auto intro!: stays_ret stays_probes [OF probes_add_cap])
  have lp: "stays ?J (if \<not> truth r then check_dev_node E ''lp'' else ret 0)" for r
    by (intro stays_if stays_ret stays_probes [OF probes_dev_node [where c = 0]]) simp
  have proc: "stays ?J (check_proc_type E)"
  proof (rule staysI, rule post_weaken [OF check_proc_type_post])
    fix r and s1 s2 :: "'a lib"
    assume s1: "?J s1" and s2: "still_open s2 = still_open s1 \<and>
      (r = 0 \<or> r = PROC_SYS_DEV_PARPORT_CAPABLE \<or> r = PROC_PARPORT_CAPABLE) \<and>
      capabilities s2 = capabilities s1 OR r"
    then have "r AND NOT (PROC_SYS_DEV_PARPORT_CAPABLE OR PROC_PARPORT_CAPABLE) = 0" by auto
    then have "r AND NOT (may_find forbidden) = 0" unfolding may_find_def by (rule proc_bit)
    with s1 s2 show "?J s2" by (simp add: found_within_def or_within)
  qed
  have start: "?I (s\<lparr>detected := 1, capabilities := 0\<rparr>)" by (simp add: found_within_def)
  have "post (detect_environment E forbidden) s (\<lambda>r s'. r = 0 \<and> ?J s')"
    unfolding detect_environment_def
    by (rule post_bindp, rule post_gets, rule post_if, use assms(2) in simp, rule post_bindp,
        rule post_modify, rule stays_step [OF stays(3) start], rule stays_step [OF add],
        erule node, assumption, rule post_bindp, rule post_weaken [OF io_probe_within], assumption,
        rule stays_step [OF stays(1)], assumption, rule stays_step [OF stays(2)], assumption,
        rule stays_step [OF lp], assumption, rule stays_step [OF proc], assumption, rule post_ret, simp)
  then show ?thesis by (simp add: found_within_def conj_ac)
qed

text \<open>A second call finds the result of the first.\<close>

lemma detect_environment_again:
  "truth (detected s) \<Longrightarrow> detect_environment E 0 s = Some (Ret 0 s)"
  by (simp add: detect_environment_def bindp_def gets_def ret_def truth_def)

text \<open>On Solaris the probe for direct I/O keeps the descriptor of the driver.\<close>

lemma solaris_check_io_leaks:
  assumes "env_build E = Solaris" and "check_io E s = Some (Ret 1 s')"
  shows "still_open s' = still_open s + 1"
  using assms
  by (auto simp: check_io_def sys_open_def lib_call_def add_cap_def modify_def bindp_def ret_def
      Let_def split: prod.splits if_splits)

text \<open>Detection always returns.\<close>

lemma returns_sys [returns_intro]:
  "returns (sys_open E path f)" "returns (sys_close E d)" "returns (sys_read E d n)"
  "returns (sys_ioctl E d r)" "returns (sys_malloc E n)" "returns (sys_stat E path)"
  "returns (sys_ioperm E i j k)" "returns (add_cap c)"
  unfolding sys_defs sys_stat_def sys_ioperm_def add_cap_def by (rule returns_lib_call returns_modify)+

lemma returns_dev_node_loop [returns_intro]: "returns (dev_node_loop E typ i left)"
  by (induction left arbitrary: i) (auto simp: Let_def intro!: returns_intro)

lemma returns_check_io [returns_intro]: "returns (check_io E)"
  unfolding check_io_def sys_defs sys_ioperm_def add_cap_def Let_def case_prod_beta
  by (cases "env_build E") (auto intro!: returns_intro)

lemma returns_detect_environment: "returns (detect_environment E forbidden)"
  unfolding detect_environment_def unless_forbidden_def check_dev_node_def
    check_dev_port_def check_lpt_def check_proc_type_def
  by (intro returns_intro)

end
