(* ===== verification/Ports.thy ===== *)
theory Ports
  imports Detect
begin

section \<open>Finding, counting and freeing ports: \<^verbatim>\<open>src/ports.c\<close>\<close>

text \<open>
  The scanners of \<^verbatim>\<open>/proc\<close> and of the Windows devices, which fill the list of ports; the
  search itself; and the functions that count references to a port and free it, with those
  of \<^verbatim>\<open>src/interface.c\<close> that call them.  A port list is the list of its \<^verbatim>\<open>portc\<close> addresses,
  \<open>None\<close> when \<^verbatim>\<open>portv\<close> is null; the search fills the field \<open>found\<close> of the state.  A character
  array that has not been written is \<open>None\<close>, and copying it is the fault \<open>Uninitialised\<close>;
  \<^verbatim>\<open>sprintf\<close> behind the end of its array is the fault \<open>Out_of_bounds\<close>.
\<close>

definition MAX_PORTS :: nat where "MAX_PORTS = 20"

subsection \<open>Sorting\<close>

text \<open>\<^verbatim>\<open>strcmp (a, b) <= 0\<close>: characters are compared as \<^verbatim>\<open>unsigned char\<close>.\<close>

fun strcmp_le :: "string \<Rightarrow> string \<Rightarrow> bool" where
  "strcmp_le [] b = True"
| "strcmp_le (c # a) [] = False"
| "strcmp_le (c # a) (d # b) =
     (if c = d then strcmp_le a b else (of_char c :: nat) < of_char d)"

definition compare_port :: "(nat \<Rightarrow> string) \<Rightarrow> nat \<Rightarrow> nat \<Rightarrow> bool" where
  "compare_port name p1 p2 = strcmp_le (name p1) (name p2)"

text \<open>\<^verbatim>\<open>qsort\<close>, as an insertion sort (ports with equal names stay in order).\<close>

fun insert_port :: "(nat \<Rightarrow> string) \<Rightarrow> nat \<Rightarrow> nat list \<Rightarrow> nat list" where
  "insert_port name p [] = [p]"
| "insert_port name p (q # qs) =
     (if compare_port name p q then p # q # qs else q # insert_port name p qs)"

definition qsort_ports :: "(nat \<Rightarrow> string) \<Rightarrow> nat list \<Rightarrow> nat list" where
  "qsort_ports name ps = foldr (insert_port name) ps []"

definition name_of :: "'w lib \<Rightarrow> nat \<Rightarrow> string" where
  "name_of s p = (case heap s p of None \<Rightarrow> [] | Some (q, i) \<Rightarrow> pname q)"

definition sort_ports :: "(unit, 'w lib) prog" where
  "sort_ports = (\<lambda>s.
     if list_all (\<lambda>p. heap s p \<noteq> None) (found s)
     then Some (Ret () (s\<lparr>found := qsort_ports (name_of s) (found s)\<rparr>))
     else Some (Fault Use_after_free))"

subsection \<open>Adding a port\<close>

definition strdup :: "'w env \<Rightarrow> string option \<Rightarrow> (string option, 'w lib) prog" where
  "strdup E buf = (case buf of
       None \<Rightarrow> fail Uninitialised
     | Some str \<Rightarrow> bindp (sys_malloc E (int (length str) + 1)) (\<lambda>ok.
         ret (if ok then Some str else None)))"

definition new_port ::
  "string \<Rightarrow> string \<Rightarrow> string option \<Rightarrow> 64 word \<Rightarrow> 64 word \<Rightarrow> int \<Rightarrow> parport \<times> parport_internal" where
  "new_port name dev udev bas hibase irq =
     (\<lparr> pname = name, base_addr = bas, hibase_addr = hibase, filename = Some dev \<rparr>,
      \<lparr> ptype = 0, device = Some dev, udevice = udev, base = bas, base_hi = 0,
        interrupt = (if irq < -1 then -1 else irq), fd = -1, opened = 0, claimed = 0, ctr = 0,
        current_mode = 0, current_channel = 0, current_phase = PH1284_FWD_DATA,
        refcount = 1, fn = null_methods, access_priv = None \<rparr>)"

definition install_port ::
  "string \<Rightarrow> string \<Rightarrow> string option \<Rightarrow> 64 word \<Rightarrow> 64 word \<Rightarrow> int \<Rightarrow> (int, 'w lib) prog" where
  "install_port name dev udev bas hibase irq =
     bindp (modify (\<lambda>s. s\<lparr>heap := (heap s)(next_addr s \<mapsto> new_port name dev udev bas hibase irq),
                          next_addr := next_addr s + 1, found := found s @ [next_addr s]\<rparr>)) (\<lambda>_.
     bindp sort_ports (\<lambda>_. ret 0))"

text \<open>\<open>udev\<close> is \<open>None\<close> for a null pointer.\<close>

definition add_port ::
  "'w env \<Rightarrow> string \<Rightarrow> string option \<Rightarrow> string option option \<Rightarrow> 64 word \<Rightarrow> 64 word \<Rightarrow> int \<Rightarrow>
   (int, 'w lib) prog" where
  "add_port E name dev udev bas hibase irq =
     bindp (gets found) (\<lambda>ports.
     if length ports = MAX_PORTS - 1 then ret E1284_NOMEM
     else
     bindp (sys_malloc E 40) (\<lambda>ok_p.
     if \<not> ok_p then ret E1284_NOMEM
     else
     bindp (strdup E (Some name)) (\<lambda>nam.
     if nam = None then ret E1284_NOMEM
     else
     bindp (strdup E dev) (\<lambda>file.
     if file = None then ret E1284_NOMEM
     else
     bindp (sys_malloc E 112) (\<lambda>ok_priv.
     if \<not> ok_priv then ret E1284_NOMEM
     else
     bindp (sys_malloc E 272) (\<lambda>ok_fn.
     if \<not> ok_fn then ret E1284_NOMEM
     else
     bindp (case udev of
              None \<Rightarrow> ret (Some None)
            | Some buf \<Rightarrow> bindp (strdup E buf) (\<lambda>u. ret (map_option Some u))) (\<lambda>udup.
     case udup of
       None \<Rightarrow> ret E1284_NOMEM
     | Some u \<Rightarrow> install_port name (the file) u bas hibase irq)))))))"

subsection \<open>Character arrays and files\<close>

text \<open>\<^verbatim>\<open>sprintf\<close> into an array of \<open>cap\<close> bytes.\<close>

definition sprintf_into :: "nat \<Rightarrow> string \<Rightarrow> (string, 'w lib) prog" where
  "sprintf_into cap str = (if length str < cap then ret str else fail Out_of_bounds)"

text \<open>
  The contents of a file as the scanners read it: open, read up to \<open>n\<close> bytes, close.  \<open>None\<close>
  if it cannot be opened or has no contents.
\<close>

definition read_file :: "'w env \<Rightarrow> string \<Rightarrow> int \<Rightarrow> (string option, 'w lib) prog" where
  "read_file E path n =
     bindp (sys_open E path O_RDONLY_NOCTTY) (\<lambda>d.
     if 0 \<le> d
     then bindp (sys_read E d n) (\<lambda>(got, bs).
          bindp (sys_close E d) (\<lambda>_.
          ret (if 0 < got then Some (chars_of (take (nat got) bs)) else None)))
     else ret None)"

text \<open>
  Conversion of a number in an array that is not terminated: it reads on into bytes that
  have not been written, if the number or the white space before it reaches the end.
\<close>

definition runs_off :: "string \<Rightarrow> bool" where
  "runs_off s =
     (let t = dropWhile isspace s;
          u = (if t \<noteq> [] \<and> (hd t = CHR ''-'' \<or> hd t = CHR ''+'') then tl t else t)
      in u = [] \<or> (case read_unsigned u of
           None \<Rightarrow> False
         | Some (n, rest) \<Rightarrow> rest = [] \<or>
             (u = CHR ''0'' # rest \<and> length rest = 1 \<and> (hd rest = CHR ''x'' \<or> hd rest = CHR ''X''))))"

definition convert :: "(string \<Rightarrow> 'a) \<Rightarrow> string \<Rightarrow> ('a, 'w lib) prog" where
  "convert conv contents =
     (if CHR 0x00 \<notin> set contents \<and> runs_off contents then fail Uninitialised
      else ret (conv (c_string contents)))"

subsection \<open>\<^verbatim>\<open>/proc/parport\<close>\<close>

definition readdir :: "'w env \<Rightarrow> (string option, 'w lib) prog" where
  "readdir E = lib_call (env_readdir E) (\<lambda>_. [])"

text \<open>The device names for one entry: the second one is not written without ppdev.\<close>

definition parport_devices :: "int \<Rightarrow> string \<Rightarrow> (string option \<times> string option, 'w lib) prog" where
  "parport_devices caps name =
     (if truth (caps AND PPDEV_CAPABLE)
      then bindp (sprintf_into 50 (''/dev/parport'' @ name)) (\<lambda>d.
           bindp (sprintf_into 50 (''/dev/parports/'' @ name)) (\<lambda>u. ret (Some d, Some u)))
      else ret (if truth (caps AND IO_CAPABLE) then Some []
                else if truth (caps AND DEV_PORT_CAPABLE) then Some ''/dev/port'' else None, None))"

definition add_parport_entry :: "'w env \<Rightarrow> string \<Rightarrow> (unit, 'w lib) prog" where
  "add_parport_entry E name =
     bindp (gets capabilities) (\<lambda>caps.
     bindp (parport_devices caps name) (\<lambda>(dev, udev).
     bindp (sprintf_into 50 (''/proc/parport/'' @ name @ ''/hardware'')) (\<lambda>hardware.
     bindp (read_file E hardware 499) (\<lambda>contents.
     let text = (case contents of None \<Rightarrow> [] | Some c \<Rightarrow> c_string (butlast c));
         bas = (case after_match ''base:'' text of None \<Rightarrow> 0 | Some t \<Rightarrow> fst (strtoul t));
         irq = (case after_match ''irq:'' text of None \<Rightarrow> -1 | Some t \<Rightarrow> strtol_int t)
     in bindp (add_port E name dev (Some udev) bas 0 irq) (\<lambda>_. ret ())))))"

text \<open>One round of the loop over a directory: \<open>Some ()\<close> leaves it.\<close>

definition dir_round :: "'w env \<Rightarrow> string set \<Rightarrow> (string \<Rightarrow> (unit, 'w lib) prog) \<Rightarrow> (unit option, 'w lib) prog" where
  "dir_round E skip add =
     bindp (readdir E) (\<lambda>de. case de of
       None \<Rightarrow> ret (Some ())
     | Some name \<Rightarrow> if name \<in> skip then ret None else bindp (add name) (\<lambda>_. ret None))"

definition scan_dir ::
  "'w env \<Rightarrow> string \<Rightarrow> string set \<Rightarrow> (string \<Rightarrow> (unit, 'w lib) prog) \<Rightarrow> (int, 'w lib) prog" where
  "scan_dir E dir skip add =
     bindp (lib_call (env_opendir E dir) (\<lambda>_. [])) (\<lambda>ok.
     if \<not> ok then ret E1284_SYS
     else
     bindp (loop (dir_round E skip add)) (\<lambda>_.
     bindp (lib_call (\<lambda>w. ((), env_closedir E w)) (\<lambda>_. [])) (\<lambda>_. ret 0)))"

definition populate_from_parport :: "'w env \<Rightarrow> (int, 'w lib) prog" where
  "populate_from_parport E =
     scan_dir E ''/proc/parport'' {''.'', ''..''} (add_parport_entry E)"

subsection \<open>\<^verbatim>\<open>/proc/sys/dev/parport\<close>\<close>

text \<open>The loop that goes back over the digits at the end of a name.\<close>

fun before_digits :: "string \<Rightarrow> nat \<Rightarrow> nat" where
  "before_digits name 0 = 0"
| "before_digits name (Suc n) =
     (if isdigit (name ! Suc n) then before_digits name n else Suc n)"

definition sys_dev_devices :: "int \<Rightarrow> string \<Rightarrow> (string option \<times> string option, 'w lib) prog" where
  "sys_dev_devices caps num =
     (if num \<noteq> [] \<and> truth (caps AND PPDEV_CAPABLE)
      then bindp (sprintf_into 50 (''/dev/parport'' @ num)) (\<lambda>d.
           bindp (sprintf_into 50 (''/dev/parports/'' @ num)) (\<lambda>u. ret (Some d, Some u)))
      else ret (if truth (caps AND IO_CAPABLE) then Some []
                else if truth (caps AND DEV_PORT_CAPABLE) then Some ''/dev/port'' else Some [], Some []))"

text \<open>The two numbers of \<^verbatim>\<open>base-addr\<close>: the second is read only if there is a first.\<close>

definition read_base :: "'w env \<Rightarrow> string \<Rightarrow> (64 word \<times> 64 word, 'w lib) prog" where
  "read_base E name =
     bindp (sprintf_into 50 (''/proc/sys/dev/parport/'' @ name @ ''/base-addr'')) (\<lambda>base_file.
     bindp (read_file E base_file 19) (\<lambda>contents.
     case contents of
       None \<Rightarrow> ret (0, 0)
     | Some c \<Rightarrow> bindp (convert id c) (\<lambda>text.
         let bas = fst (strtoul text); endptr = snd (strtoul text) in
         if read_number text = None then ret (bas, 0)
         else bindp (convert (fst \<circ> strtoul) (drop (length text - length endptr) c)) (\<lambda>hibase.
              ret (bas, hibase)))))"

definition read_irq :: "'w env \<Rightarrow> string \<Rightarrow> (int, 'w lib) prog" where
  "read_irq E name =
     bindp (sprintf_into 50 (''/proc/sys/dev/parport/'' @ name @ ''/irq'')) (\<lambda>irq_file.
     bindp (read_file E irq_file 19) (\<lambda>contents.
     case contents of None \<Rightarrow> ret (-1) | Some c \<Rightarrow> convert strtol_int c))"

definition add_sys_dev_entry :: "'w env \<Rightarrow> string \<Rightarrow> (unit, 'w lib) prog" where
  "add_sys_dev_entry E name =
     (if name = [] then fail Out_of_bounds
      else
      bindp (gets capabilities) (\<lambda>caps.
      bindp (sys_dev_devices caps (drop (before_digits name (length name - 1) + 1) name)) (\<lambda>(dev, udev).
      bindp (read_base E name) (\<lambda>(bas, hibase).
      bindp (read_irq E name) (\<lambda>irq.
      bindp (add_port E name dev (Some udev) bas hibase irq) (\<lambda>_. ret ()))))))"

definition populate_from_sys_dev_parport :: "'w env \<Rightarrow> (int, 'w lib) prog" where
  "populate_from_sys_dev_parport E =
     scan_dir E ''/proc/sys/dev/parport'' {''.'', ''..'', ''default''} (add_sys_dev_entry E)"

subsection \<open>Windows, and guessing\<close>

text \<open>The device \<^verbatim>\<open>\\.\$VDMLPTi\<close> and the friendly name \<^verbatim>\<open>LPTi\<close> inside it.\<close>

definition vdmname :: "nat \<Rightarrow> string" where
  "vdmname i = [backslash, backslash, CHR ''.'', backslash] @ ''$VDMLPT'' @ [digit i]"

definition add_nt_port :: "'w env \<Rightarrow> nat \<Rightarrow> (unit, 'w lib) prog" where
  "add_nt_port E i =
     bindp (sys_open E (vdmname i) O_RDWR_NOCTTY) (\<lambda>h.
     if h = -1 then ret ()
     else
     bindp (sys_close E h) (\<lambda>_.
     bindp (add_port E (drop 8 (vdmname i)) (Some (vdmname i)) None 0 0 (-1)) (\<lambda>_. ret ())))"

definition populate_nt_ports :: "'w env \<Rightarrow> (int, 'w lib) prog" where
  "populate_nt_ports E =
     bindp (if have_cygwin (env_build E) then stmts (map (add_nt_port E) [1, 2, 3]) else ret ()) (\<lambda>_. ret 0)"

text \<open>The device that the build names for the three usual addresses.\<close>

fun guess_device :: "build \<Rightarrow> string" where
  "guess_device Linux = ''/dev/port''"
| "guess_device Linux_No_Io = ''/dev/port''"
| "guess_device Cygwin = ''/dev/port''"
| "guess_device MinGW = ''/dev/port''"
| "guess_device OpenBSD = ''/dev/port''"
| "guess_device FreeBSD = ''/dev/io''"
| "guess_device NetBSD = ''/dev/port''"
| "guess_device Solaris = ''/devices/pseudo/iop@0:iop''"

definition add_guess :: "'w env \<Rightarrow> string \<times> 64 word \<Rightarrow> (unit, 'w lib) prog" where
  "add_guess E g =
     bindp (add_port E (fst g) (Some (guess_device (env_build E))) None (snd g) 0 (-1)) (\<lambda>_. ret ())"

definition populate_by_guessing :: "'w env \<Rightarrow> (int, 'w lib) prog" where
  "populate_by_guessing E =
     bindp (stmts (map (add_guess E) [(''0x378'', 0x378), (''0x278'', 0x278), (''0x3bc'', 0x3bc)]))
       (\<lambda>_. ret 0)"

subsection \<open>The search\<close>

definition populate :: "'w env \<Rightarrow> (int, 'w lib) prog" where
  "populate E =
     bindp (gets capabilities) (\<lambda>caps.
     let linux = have_linux (env_build E) in
     if linux \<and> truth (caps AND PROC_SYS_DEV_PARPORT_CAPABLE) then populate_from_sys_dev_parport E
     else if linux \<and> truth (caps AND PROC_PARPORT_CAPABLE) then populate_from_parport E
     else if \<not> linux \<and> truth (caps AND LPT_CAPABLE) then populate_nt_ports E
     else populate_by_guessing E)"

definition ieee1284_find_ports :: "'w env \<Rightarrow> (int \<times> nat list option, 'w lib) prog" where
  "ieee1284_find_ports E =
     bindp (on_conf (read_config_file E)) (\<lambda>_.
     bindp (modify (\<lambda>s. s\<lparr>found := []\<rparr>)) (\<lambda>_.
     bindp (sys_malloc E (8 * int MAX_PORTS)) (\<lambda>ok.
     if \<not> ok then ret (E1284_NOMEM, None)
     else
     bindp (detect_environment E 0) (\<lambda>_.
     bindp (populate E) (\<lambda>_.
     bindp (gets found) (\<lambda>ports.
     ret (0, if ports = [] then None else Some ports)))))))"

subsection \<open>References\<close>

definition on_live :: "nat \<Rightarrow> (parport_internal \<Rightarrow> 'a) \<Rightarrow> ('a, 'w lib) prog" where
  "on_live p f = (\<lambda>s. case heap s p of
      None \<Rightarrow> Some (Fault Use_after_free) | Some (q, i) \<Rightarrow> Some (Ret (f i) s))"

definition deref_port :: "nat \<Rightarrow> (int, 'w lib) prog" where
  "deref_port p =
     bindp (on_port p (upd (\<lambda>i. i\<lparr>refcount := refcount i - 1\<rparr>))) (\<lambda>_.
     bindp (on_live p refcount) (\<lambda>count.
     bindp (if count = 0 then modify (\<lambda>s. s\<lparr>heap := (heap s)(p := None)\<rparr>) else ret ()) (\<lambda>_.
     ret count)))"

definition ieee1284_free_ports :: "nat list option \<Rightarrow> (unit, 'w lib) prog" where
  "ieee1284_free_ports list =
     (case list of None \<Rightarrow> ret () | Some ports \<Rightarrow>
        stmts (map (\<lambda>p. bindp (deref_port p) (\<lambda>_. ret ())) ports))"

definition ieee1284_ref :: "nat \<Rightarrow> (int, 'w lib) prog" where
  "ieee1284_ref p =
     bindp (on_port p (upd (\<lambda>i. i\<lparr>refcount := refcount i + 1\<rparr>))) (\<lambda>_. on_live p refcount)"

definition ieee1284_close :: "'w env \<Rightarrow> nat \<Rightarrow> (int, 'w lib) prog" where
  "ieee1284_close E p =
     bindp (on_live p opened) (\<lambda>op.
     if \<not> truth op then ret E1284_INVALIDPORT
     else
     bindp (on_port p (via_or () m_cleanup (run_cleanup E))) (\<lambda>_.
     bindp (on_port p (upd (\<lambda>i. i\<lparr>opened := 0\<rparr>))) (\<lambda>_.
     bindp (deref_port p) (\<lambda>_. ret E1284_OK))))"

definition ieee1284_unref :: "'w env \<Rightarrow> nat \<Rightarrow> (int, 'w lib) prog" where
  "ieee1284_unref E p =
     bindp (on_live p (\<lambda>i. truth (opened i) \<and> refcount i = 1)) (\<lambda>last.
     if last
     then bindp (ieee1284_close E p) (\<lambda>r. ret (if r = E1284_OK then 0 else 1))
     else deref_port p)"

subsection \<open>The order of the names\<close>

lemma strcmp_le_refl: "strcmp_le a a"
  by (induction a) auto

lemma of_char_linear: "c \<noteq> d \<Longrightarrow> (of_char c :: nat) < of_char d \<or> (of_char d :: nat) < of_char c"
  by (metis char_of_char linorder_neqE_nat)

lemma strcmp_le_total: "strcmp_le a b \<or> strcmp_le b a"
  by (induction a b rule: strcmp_le.induct) (use of_char_linear in auto)

lemma strcmp_le_trans: "strcmp_le a b \<Longrightarrow> strcmp_le b c \<Longrightarrow> strcmp_le a c"
proof (induction a b arbitrary: c rule: strcmp_le.induct)
  case (3 x a y b)
  then show ?case by (cases c) (auto split: if_splits)
qed auto

lemma strcmp_le_antisym: "strcmp_le a b \<Longrightarrow> strcmp_le b a \<Longrightarrow> a = b"
proof (induction a b rule: strcmp_le.induct)
  case (1 b)
  then show ?case by (cases b) auto
qed (auto split: if_splits)

text \<open>
  Port names as C strings: with the order of \<^verbatim>\<open>strcmp\<close> they are a linear order, and \<^verbatim>\<open>qsort\<close> with
  \<^verbatim>\<open>compare_port\<close> is the library's sorting by a key.
\<close>

datatype cname = Cname string

instantiation cname :: linorder
begin

fun less_eq_cname :: "cname \<Rightarrow> cname \<Rightarrow> bool" where
  "less_eq_cname (Cname a) (Cname b) = strcmp_le a b"

definition less_cname :: "cname \<Rightarrow> cname \<Rightarrow> bool" where
  "less_cname a b \<longleftrightarrow> a \<le> b \<and> \<not> b \<le> (a :: cname)"

instance
proof
  fix x y z :: cname
  show "(x < y) = (x \<le> y \<and> \<not> y \<le> x)" by (simp add: less_cname_def)
  show "x \<le> x" by (cases x) (simp add: strcmp_le_refl)
  show "x \<le> y \<Longrightarrow> y \<le> z \<Longrightarrow> x \<le> z"
    by (cases x; cases y; cases z) (auto intro: strcmp_le_trans)
  show "x \<le> y \<Longrightarrow> y \<le> x \<Longrightarrow> x = y"
    by (cases x; cases y) (auto intro: strcmp_le_antisym)
  show "x \<le> y \<or> y \<le> x"
    using strcmp_le_total by (cases x; cases y) simp
qed

end

abbreviation (input) sorted_by :: "(nat \<Rightarrow> string) \<Rightarrow> nat list \<Rightarrow> bool" where
  "sorted_by name ps \<equiv> sorted (map (\<lambda>p. Cname (name p)) ps)"

lemma insert_port_insort: "insert_port name p ps = insort_key (\<lambda>p. Cname (name p)) p ps"
  by (induction ps) (simp_all add: compare_port_def)

lemma qsort_ports_sort_key: "qsort_ports name ps = sort_key (\<lambda>p. Cname (name p)) ps"
  unfolding qsort_ports_def by (induction ps) (simp_all add: insert_port_insort)

lemma qsort_ports_simps [simp]:
  "sorted_by name (qsort_ports name ps)" "set (qsort_ports name ps) = set ps"
  "distinct (qsort_ports name ps) = distinct ps" "length (qsort_ports name ps) = length ps"
  by (simp_all add: qsort_ports_sort_key)

subsection \<open>The list under construction\<close>

text \<open>
  The invariant of a search that began with the heap \<open>h\<close> and the next free address \<open>n\<close>: the
  ports found are the addresses allocated since, each with one reference and never opened;
  they are sorted by name; older ports are as they were.
\<close>

definition listed :: "(parport \<times> parport_internal) option \<Rightarrow> bool" where
  "listed r \<longleftrightarrow> (case r of None \<Rightarrow> False | Some (q, i) \<Rightarrow> fresh_port i \<and> refcount i = 1)"

lemma listedD: "listed r \<Longrightarrow> r \<noteq> None"
  by (cases r) (simp_all add: listed_def)

definition found_inv ::
  "(nat \<Rightarrow> (parport \<times> parport_internal) option) \<Rightarrow> nat \<Rightarrow> 'w lib \<Rightarrow> bool" where
  "found_inv h n s \<longleftrightarrow>
     distinct (found s) \<and> length (found s) < MAX_PORTS \<and>
     n \<le> next_addr s \<and> set (found s) = {n..<next_addr s} \<and>
     (\<forall>p<n. heap s p = h p) \<and> (\<forall>p\<in>set (found s). listed (heap s p)) \<and>
     (\<forall>p\<ge>next_addr s. heap s p = None)"

definition search_inv ::
  "(nat \<Rightarrow> (parport \<times> parport_internal) option) \<Rightarrow> nat \<Rightarrow> 'w lib \<Rightarrow> bool" where
  "search_inv h n s \<longleftrightarrow> found_inv h n s \<and> sorted_by (name_of s) (found s)"

definition port_view :: "'w lib \<Rightarrow> nat list \<times> (nat \<Rightarrow> (parport \<times> parport_internal) option) \<times> nat" where
  "port_view s = (found s, heap s, next_addr s)"

lemma search_inv_view: "port_view s' = port_view s \<Longrightarrow> search_inv h n s' = search_inv h n s"
  by (auto simp: port_view_def search_inv_def found_inv_def name_of_def)

lemma stays_search_inv: "keeps port_view m \<Longrightarrow> stays (search_inv h n) m"
  by (rule stays_keeps) (assumption | rule search_inv_view)+

lemma keeps_view_call [keeps_intro]: "keeps port_view (lib_call f ev)"
  by (rule keeps_lib_call) (simp add: port_view_def)

lemma keeps_view_sys [keeps_intro]:
  "keeps port_view (sys_open E path f)" "keeps port_view (sys_close E d)"
  "keeps port_view (sys_read E d k)" "keeps port_view (sys_ioctl E d r)"
  "keeps port_view (sys_malloc E k)" "keeps port_view (sys_stat E path)"
  "keeps port_view (sys_ioperm E i j k')" "keeps port_view (add_cap c)" "keeps port_view (readdir E)"
  unfolding sys_defs sys_stat_def sys_ioperm_def add_cap_def readdir_def
  by (rule keeps_view_call | rule keeps_modify, simp add: port_view_def)+

lemma keeps_view_conf [keeps_intro]: "keeps port_view (on_conf m)"
  by (auto simp: keeps_def post_def on_conf_Ret port_view_def)

lemma keeps_view_strdup [keeps_intro]: "keeps port_view (strdup E buf)"
  unfolding strdup_def by (intro keeps_intro)

lemma keeps_view_dev_node_loop [keeps_intro]: "keeps port_view (dev_node_loop E typ i left)"
  by (induction left arbitrary: i) (auto simp: Let_def intro!: keeps_intro)

lemma keeps_view_check_io [keeps_intro]: "keeps port_view (check_io E)"
  unfolding check_io_def Let_def case_prod_beta
  by (cases "env_build E") (auto intro!: keeps_intro keeps_view_call)

lemma keeps_view_detect [keeps_intro]: "keeps port_view (detect_environment E forbidden)"
  unfolding detect_environment_def unless_forbidden_def check_dev_node_def
    check_dev_port_def check_lpt_def check_proc_type_def
  by (intro keeps_intro) (simp_all add: port_view_def)

lemma sort_ports_inv:
  assumes "found_inv h n s"
  shows "sound sort_ports s (\<lambda>_. search_inv h n)"
proof -
  have "list_all (\<lambda>p. heap s p \<noteq> None) (found s)"
    using assms listedD by (auto simp: found_inv_def list_all_iff)
  moreover have "name_of (s\<lparr>found := ps\<rparr>) = name_of s" for ps
    by (rule ext) (simp add: name_of_def)
  ultimately show ?thesis
    using assms by (simp add: sound_def sort_ports_def search_inv_def found_inv_def)
qed

lemma new_port_found:
  assumes "search_inv h n s" and "length (found s) \<noteq> MAX_PORTS - 1"
  shows "found_inv h n (s\<lparr>heap := (heap s)(next_addr s \<mapsto> new_port name dev udev bas hibase irq),
     next_addr := next_addr s + 1, found := found s @ [next_addr s]\<rparr>)"
  using assms
  by (auto simp: search_inv_def found_inv_def listed_def new_port_def fresh_port_def)

text \<open>A search with room for one more.\<close>

definition can_add ::
  "(nat \<Rightarrow> (parport \<times> parport_internal) option) \<Rightarrow> nat \<Rightarrow> 'w lib \<Rightarrow> bool" where
  "can_add h n s \<longleftrightarrow> search_inv h n s \<and> length (found s) \<noteq> MAX_PORTS - 1"

lemma can_add_step:
  fixes m :: "('a, 'w lib) prog"
  assumes "keeps port_view m" and "can_add h n s"
    and "\<And>a s'. can_add h n s' \<Longrightarrow> post (k a) s' Q"
  shows "post (bindp m k) s Q"
proof (rule post_step [OF assms(1)])
  fix a and s' :: "'w lib" assume v: "port_view s' = port_view s"
  then have "found s' = found s" by (simp add: port_view_def)
  with assms(2) v show "post (k a) s' Q"
    by (intro assms(3)) (simp add: can_add_def search_inv_view [OF v])
qed

lemma install_port_sound:
  assumes "can_add h n s"
  shows "sound (install_port name dev udev bas hibase irq) s (\<lambda>_. search_inv h n)"
proof -
  have "found_inv h n (s\<lparr>heap := (heap s)(next_addr s \<mapsto> new_port name dev udev bas hibase irq),
     next_addr := next_addr s + 1, found := found s @ [next_addr s]\<rparr>)"
    using assms by (intro new_port_found) (simp_all add: can_add_def)
  from sort_ports_inv [OF this] show ?thesis
    unfolding install_port_def
    by (intro sound_bindp sound_modify, elim sound_weaken) (intro sound_ret)
qed

text \<open>Adding a port keeps the invariant, whether it succeeds or not.\<close>

lemma add_port_inv: "stays (search_inv h n) (add_port E name dev udev bas hibase irq)"
proof (rule staysI)
  fix s :: "'a lib" assume s: "search_inv h n s"
  have nomem: "post (ret E1284_NOMEM) s1 (\<lambda>_. search_inv h n)" if "can_add h n s1" for s1
    using that by (simp add: can_add_def post_ret)
  show "post (add_port E name dev udev bas hibase irq) s (\<lambda>_. search_inv h n)"
    unfolding add_port_def
    by (rule post_bindp, rule post_gets, rule post_if, rule post_ret, rule s)
       (auto simp: s can_add_def [of h n s] intro!: can_add_step [of _ h n] keeps_intro
          post_if nomem sound_post [OF install_port_sound] split: option.split)
qed

subsection \<open>Every scanner keeps the invariant\<close>

lemma keeps_view_sprintf [keeps_intro]: "keeps port_view (sprintf_into k str)"
  unfolding sprintf_into_def by (intro keeps_intro)

lemma keeps_view_convert [keeps_intro]: "keeps port_view (convert conv c)"
  unfolding convert_def by (intro keeps_intro)

lemma keeps_view_read_file [keeps_intro]: "keeps port_view (read_file E path k)"
  unfolding read_file_def by (intro keeps_intro keeps_case_prod)

lemma keeps_view_entries [keeps_intro]:
  "keeps port_view (parport_devices caps name)" "keeps port_view (sys_dev_devices caps num)"
  "keeps port_view (read_base E name)" "keeps port_view (read_irq E name)"
  unfolding parport_devices_def sys_dev_devices_def read_base_def read_irq_def Let_def
  by (intro keeps_intro keeps_case_prod | assumption)+

text \<open>
  What the scan of a directory asks of the function that adds an entry, and what it promises in
  turn; both kinds of entries keep to it.
\<close>

locale entry_adder =
  fixes add :: "string \<Rightarrow> (unit, 'w lib) prog"
  assumes add_inv: "stays (search_inv h n) (add name)"
begin

lemma round_inv: "stays (search_inv h n) (dir_round E skip add)"
  unfolding dir_round_def readdir_def
  by (intro stays_bindp stays_case_option stays_if stays_ret add_inv
      stays_search_inv [OF keeps_view_call])

lemma scan_inv: "stays (search_inv h n) (scan_dir E dir skip add)"
  unfolding scan_dir_def
  by (intro stays_bindp stays_if stays_ret stays_loop round_inv stays_search_inv [OF keeps_view_call])

end

lemmas entry_rules = stays_bindp stays_if stays_ret stays_fail stays_gets stays_case_prod add_port_inv
  stays_search_inv [OF keeps_view_entries(1)] stays_search_inv [OF keeps_view_entries(2)]
  stays_search_inv [OF keeps_view_entries(3)] stays_search_inv [OF keeps_view_entries(4)]
  stays_search_inv [OF keeps_view_sprintf] stays_search_inv [OF keeps_view_read_file]

interpretation proc_entry: entry_adder "add_parport_entry E" for E :: "'w env"
  by unfold_locales (unfold add_parport_entry_def Let_def, intro entry_rules)

interpretation sys_dev_entry: entry_adder "add_sys_dev_entry E" for E :: "'w env"
  by unfold_locales (unfold add_sys_dev_entry_def Let_def, intro entry_rules)

lemma populate_inv: "stays (search_inv h n) (populate E)"
proof -
  have nt: "stays (search_inv h n) (add_nt_port E i)" for i
    unfolding add_nt_port_def sys_defs
    by (intro stays_bindp stays_if stays_ret add_port_inv stays_search_inv [OF keeps_view_call])
  have guess: "stays (search_inv h n) (add_guess E g)" for g
    unfolding add_guess_def by (intro stays_bindp stays_ret add_port_inv)
  show ?thesis
    unfolding populate_def populate_nt_ports_def populate_by_guessing_def
      populate_from_parport_def populate_from_sys_dev_parport_def Let_def
    by (intro stays_bindp stays_if stays_ret stays_gets stays_stmts proc_entry.scan_inv
        sys_dev_entry.scan_inv) (auto intro: nt guess)
qed

text \<open>What the search promises of its list.\<close>

lemma find_ports_post:
  assumes "\<forall>p\<ge>next_addr s. heap s p = None"
  shows "post (ieee1284_find_ports E) s (\<lambda>(r, list) s'.
     (r = 0 \<or> r = E1284_NOMEM \<and> list = None) \<and> search_inv (heap s) (next_addr s) s' \<and>
     (r = 0 \<longrightarrow> list = (if found s' = [] then None else Some (found s'))) \<and>
     (r \<noteq> 0 \<longrightarrow> found s' = []))"
proof -
  let ?I = "search_inv (heap s) (next_addr s)"
  have start: "?I (s1\<lparr>found := []\<rparr>)" if "port_view s1 = port_view s" for s1
    using that assms by (auto simp: port_view_def search_inv_def found_inv_def MAX_PORTS_def)
  have rest: "post (bindp (detect_environment E 0) (\<lambda>_. bindp (populate E) (\<lambda>_. bindp (gets found)
      (\<lambda>ports. ret (0, if ports = [] then None else Some ports))))) s1
      (\<lambda>(r, list) s'. r = 0 \<and> ?I s' \<and> list = (if found s' = [] then None else Some (found s')))"
    if "?I s1" for s1
    by (rule stays_step [OF stays_search_inv [OF keeps_view_detect] that],
        rule stays_step [OF populate_inv], assumption, rule post_bindp, rule post_gets, rule post_ret, simp)
  show ?thesis
    unfolding ieee1284_find_ports_def sys_malloc_def
  proof (rule post_step [OF keeps_view_conf])
    fix s1 :: "'a lib" assume v: "port_view s1 = port_view s"
    let ?s2 = "s1\<lparr>found := []\<rparr>"
    have s2: "?I ?s2" by (rule start [OF v])
    show "post (bindp (modify (\<lambda>s. s\<lparr>found := []\<rparr>)) (\<lambda>_.
        bindp (lib_call (env_malloc E (8 * int MAX_PORTS)) (\<lambda>_. [])) (\<lambda>ok.
          if \<not> ok then ret (E1284_NOMEM, None)
          else bindp (detect_environment E 0) (\<lambda>_. bindp (populate E) (\<lambda>_. bindp (gets found)
            (\<lambda>ports. ret (0, if ports = [] then None else Some ports))))))) s1
      (\<lambda>(r, list) s'.
         (r = 0 \<or> r = E1284_NOMEM \<and> list = None) \<and> ?I s' \<and>
         (r = 0 \<longrightarrow> list = (if found s' = [] then None else Some (found s'))) \<and>
         (r \<noteq> 0 \<longrightarrow> found s' = []))"
    proof (rule post_bindp, rule post_modify, rule post_step [OF keeps_view_call], rule post_if)
      fix s3 :: "'a lib" assume v3: "port_view s3 = port_view ?s2"
      have s3: "?I s3" "found s3 = []"
        using s2 v3 search_inv_view [OF v3] by (simp_all add: port_view_def)
      show "post (ret (E1284_NOMEM, None)) s3 (\<lambda>(r, list) s'.
         (r = 0 \<or> r = E1284_NOMEM \<and> list = None) \<and> ?I s' \<and>
         (r = 0 \<longrightarrow> list = (if found s' = [] then None else Some (found s'))) \<and>
         (r \<noteq> 0 \<longrightarrow> found s' = []))"
        using s3 by (intro post_ret) simp
      show "post (bindp (detect_environment E 0) (\<lambda>_. bindp (populate E) (\<lambda>_. bindp (gets found)
            (\<lambda>ports. ret (0, if ports = [] then None else Some ports))))) s3 (\<lambda>(r, list) s'.
         (r = 0 \<or> r = E1284_NOMEM \<and> list = None) \<and> ?I s' \<and>
         (r = 0 \<longrightarrow> list = (if found s' = [] then None else Some (found s'))) \<and>
         (r \<noteq> 0 \<longrightarrow> found s' = []))"
        by (rule post_weaken [OF rest [OF s3(1)]]) auto
    qed
  qed
qed

subsection \<open>No faults\<close>

text \<open>
  Adding a port does not fault if its arrays have been written, and the scan of
  \<^verbatim>\<open>/proc/sys/dev/parport\<close> does not if the names there are short enough for the path buffers
  (17 characters) and the numbers in the files end before the bytes read do.
\<close>

lemma returns_strdup: "returns (strdup E (Some str))"
  unfolding strdup_def by (auto intro!: returns_intro)

lemma solid_step:
  assumes "solid I m" and "I s" and "\<And>a s'. m s = Some (Ret a s') \<Longrightarrow> I s' \<Longrightarrow> sound (k a) s' Q"
  shows "sound (bindp m k) s Q"
  using solidD [OF assms(1,2)] assms(3)
  by (auto simp: sound_def bindp_def split: option.splits outcome.splits)

lemma solid_can_add:
  fixes m :: "('a, 'w lib) prog"
  assumes "returns m" and "keeps port_view m"
  shows "solid (can_add h n) m"
proof (rule solid_returns [OF assms(1)], rule stays_keeps [OF assms(2)])
  fix s s' :: "'w lib" assume "port_view s' = port_view s"
  then show "can_add h n s' = can_add h n s"
    using search_inv_view [of s' s] by (simp add: can_add_def port_view_def)
qed

lemma add_port_solid:
  assumes "dev \<noteq> None" and "udev \<noteq> Some None"
  shows "solid (search_inv h n) (add_port E name dev udev bas hibase irq)"
proof (rule solidI)
  fix s :: "'a lib" assume s: "search_inv h n s"
  have malloc: "solid (can_add h n) (sys_malloc E k)" for k
    by (intro solid_can_add returns_sys keeps_view_sys)
  have dup: "solid (can_add h n) (strdup E buf)" if "buf \<noteq> None" for buf
    using that by (auto intro!: solid_can_add returns_strdup keeps_view_strdup)
  have udup: "solid (can_add h n) (case udev of None \<Rightarrow> ret (Some None)
      | Some buf \<Rightarrow> bindp (strdup E buf) (\<lambda>u. ret (map_option Some u)))"
    using assms(2) by (cases udev) (auto intro!: solid_bindp solid_ret dup)
  have nomem: "sound (ret E1284_NOMEM) s1 (\<lambda>_. search_inv h n)" if "can_add h n s1" for s1
    using that by (simp add: can_add_def sound_ret)
  show "sound (add_port E name dev udev bas hibase irq) s (\<lambda>_. search_inv h n)"
    unfolding add_port_def
    by (rule sound_bindp, rule sound_gets, rule sound_if, rule sound_ret, rule s,
        rule solid_step [OF malloc], simp add: can_add_def s)
       (rule sound_if nomem solid_step [OF malloc] solid_step [OF dup [OF assms(1)]]
          solid_step [OF dup [OF option.distinct(2)]] solid_step [OF udup] sound_case_option
          install_port_sound | assumption)+
qed

lemma sprintf_ok: "length str < k \<Longrightarrow> sprintf_into k str = ret str"
  by (simp add: sprintf_into_def)

lemma returns_read_file: "returns (read_file E path k)"
  unfolding read_file_def by (intro returns_intro returns_case_prod)

text \<open>The numbers of a file end inside it: one number, and two numbers.\<close>

definition number_line :: "string \<Rightarrow> bool" where
  "number_line c \<longleftrightarrow> CHR 0x00 \<notin> set c \<and> \<not> runs_off c \<and>
     (read_number c \<noteq> None \<longrightarrow> \<not> runs_off (snd (strtoul c)))"

definition proc_ok :: "'w env \<Rightarrow> bool" where
  "proc_ok E \<longleftrightarrow>
     (\<forall>w. case fst (env_readdir E w) of None \<Rightarrow> True | Some name \<Rightarrow> name \<noteq> [] \<and> length name \<le> 17) \<and>
     (\<forall>d w. case fst (env_read E d 19 w) of (got, bs) \<Rightarrow>
        0 < got \<longrightarrow> number_line (chars_of (take (nat got) bs)))"

lemma read_file_number:
  assumes "proc_ok E"
  shows "post (read_file E path 19) s (\<lambda>r _. \<forall>c. r = Some c \<longrightarrow> number_line c)"
proof -
  have *: "number_line (chars_of (take (nat got) bs))"
    if "env_read E d 19 w = ((got, bs), w')" "0 < got" for d w got bs w'
  proof -
    have "case fst (env_read E d 19 w) of (got, bs) \<Rightarrow>
        0 < got \<longrightarrow> number_line (chars_of (take (nat got) bs))"
      by (rule assms [unfolded proc_ok_def, THEN conjunct2, THEN spec, THEN spec])
    with that show ?thesis by simp
  qed
  show ?thesis
    unfolding read_file_def sys_defs
    by (intro wp_intro) (auto intro!: wp_intro dest: * split: if_splits)
qed

text \<open>What is left behind a number is the end of the string.\<close>

lemma read_digits_suffix: "\<exists>p. s = p @ snd (read_digits b acc s)"
proof (induction b acc s rule: read_digits.induct)
  case (2 b acc c s)
  then show ?case
    by (cases "digit_value c < b") (auto intro: exI [of _ "c # p" for p])
qed simp

lemma read_unsigned_suffix:
  assumes "read_unsigned s = Some (n, rest)"
  shows "\<exists>p. s = p @ rest"
proof -
  obtain q t b acc where "s = q @ t" and "rest = snd (read_digits b acc t)"
  proof (cases s)
    case Nil
    with assms show ?thesis by (simp add: read_unsigned_def)
  next
    case (Cons c t)
    consider "rest = snd (read_digits 8 0 t)" | "rest = snd (read_digits 16 0 (tl t))" "t \<noteq> []"
      | "rest = snd (read_digits 10 0 s)"
      using assms Cons by (auto simp: read_unsigned_def split: list.splits if_splits)
    then show ?thesis
      by cases (use Cons that [of "[]" s] that [of "[c]" t] that [of "[c, hd t]" "tl t"] in simp_all)
  qed
  then show ?thesis using read_digits_suffix [of t b acc] by (metis append_assoc)
qed

lemma read_number_suffix:
  assumes "read_number s = Some (neg, n, rest)"
  shows "\<exists>p. s = p @ rest"
proof -
  let ?t = "dropWhile isspace s"
  let ?u = "if ?t \<noteq> [] \<and> (hd ?t = CHR ''-'' \<or> hd ?t = CHR ''+'') then tl ?t else ?t"
  obtain p where p: "?u = p @ rest"
    using assms read_unsigned_suffix [of ?u n rest] by (auto simp: read_number_def Let_def)
  obtain q where q: "?t = q @ ?u"
  proof (cases "?u = ?t")
    case False
    then have "?t = [hd ?t] @ ?u" by (auto split: if_splits)
    then show ?thesis by (rule that)
  qed (use that [of "[]"] in simp)
  have "s = takeWhile isspace s @ ?t" by simp
  also have "\<dots> = (takeWhile isspace s @ q @ p) @ rest" by (simp only: append_assoc p [symmetric] q [symmetric])
  finally show ?thesis by (rule exI)
qed

lemma drop_to_endptr: "drop (length s - length (snd (strtoul s))) s = snd (strtoul s)"
proof (cases "read_number s")
  case (Some r)
  then show ?thesis
    using read_number_suffix [of s "fst r" "fst (snd r)" "snd (snd r)"]
    by (auto simp: strtoul_def split: prod.splits)
qed (simp add: strtoul_def)

lemma convert_line: "number_line c \<Longrightarrow> convert conv c = ret (conv c)"
  by (rule ext) (simp add: convert_def number_line_def c_string_id)

text \<open>Reading a line that is either a number or two gives the numbers.\<close>

lemma convert_rest:
  assumes "number_line c" and "read_number c \<noteq> None"
  shows "convert (fst \<circ> strtoul) (drop (length c - length (snd (strtoul c))) c)
      = ret (fst (strtoul (snd (strtoul c))))"
proof -
  have z: "CHR 0x00 \<notin> set (snd (strtoul c))"
    using assms(1) drop_to_endptr [of c] in_set_dropD by (metis number_line_def)
  with assms show ?thesis
    by (intro ext) (simp add: drop_to_endptr convert_def number_line_def c_string_id)
qed

lemma total_read_file_number:
  assumes "proc_ok E" and "\<And>s1. total (k None) s1 (\<lambda>_ _. True)"
    and "\<And>c s1. number_line c \<Longrightarrow> total (k (Some c)) s1 (\<lambda>_ _. True)"
  shows "total (bindp (read_file E path 19) k) s (\<lambda>_ _. True)"
proof (rule total_bindp, rule total_weaken [OF returns_total [OF returns_read_file read_file_number [OF assms(1)]]])
  fix r :: "string option" and s1 :: "'a lib"
  assume "\<forall>c. r = Some c \<longrightarrow> number_line c"
  then show "total (k r) s1 (\<lambda>_ _. True)" using assms(2,3) by (cases r) auto
qed

lemma returns_read_numbers:
  assumes "proc_ok E" and "length name \<le> 17"
  shows "returns (read_base E name)" and "returns (read_irq E name)"
proof -
  show "returns (read_base E name)"
    using assms unfolding read_base_def returns_def
    by (auto simp: sprintf_ok Let_def convert_line convert_rest intro!: total_read_file_number total_ret)
  show "returns (read_irq E name)"
    using assms unfolding read_irq_def returns_def
    by (auto simp: sprintf_ok convert_line intro!: total_read_file_number total_ret)
qed

lemma sys_dev_devices_ok:
  "length num \<le> 17 \<Longrightarrow> \<exists>d u. sys_dev_devices caps num = ret (Some d, Some u)"
  by (auto simp: sys_dev_devices_def sprintf_ok)

lemma solid_add_sys_dev_entry:
  assumes E: "proc_ok E" and name: "name \<noteq> []" "length name \<le> 17"
  shows "solid (search_inv h n) (add_sys_dev_entry E name)"
proof -
  have reads: "solid (search_inv h n) (read_base E name)" "solid (search_inv h n) (read_irq E name)"
    by (intro solid_returns returns_read_numbers [OF E name(2)] stays_search_inv keeps_intro)+
  let ?num = "drop (before_digits name (length name - 1) + 1) name"
  have "solid (search_inv h n) (bindp (sys_dev_devices caps ?num) (\<lambda>(dev, udev).
      bindp (read_base E name) (\<lambda>(bas, hibase).
      bindp (read_irq E name) (\<lambda>irq.
      bindp (add_port E name dev (Some udev) bas hibase irq) (\<lambda>_. ret ())))))" for caps
  proof -
    have "length ?num \<le> 17" using name(2) by simp
    then have "\<exists>d u. (sys_dev_devices caps ?num :: (_, 'a lib) prog) = ret (Some d, Some u)"
      by (rule sys_dev_devices_ok)
    then show ?thesis
      by (elim exE) (simp only: bindp_ret_left prod.case,
         intro solid_bindp solid_case_prod solid_ret reads add_port_solid; simp)
  qed
  with name(1) show ?thesis
    unfolding add_sys_dev_entry_def by (auto intro: solid_bindp solid_gets)
qed

text \<open>The scan of \<^verbatim>\<open>/proc/sys/dev/parport\<close> does not fault.\<close>

lemma solid_dir:
  assumes "\<And>name. \<exists>w. fst (env_readdir E w) = Some name \<Longrightarrow> solid I (add name)"
    and "\<And>f. solid I (lib_call f (\<lambda>_. []) :: (bool, 'w lib) prog)"
    and "solid I (readdir E)" and "solid I (lib_call (\<lambda>w. ((), env_closedir E w)) (\<lambda>_. []))"
  shows "solid I (scan_dir E dir skip add)"
proof -
  have some: "post (readdir E) s (\<lambda>de _. \<forall>name. de = Some name \<longrightarrow> (\<exists>w. fst (env_readdir E w) = Some name))" for s
    unfolding readdir_def by (rule post_lib_call) (metis fst_conv)
  have "solid I (dir_round E skip add)"
    unfolding dir_round_def
    by (rule solid_bindp_result [OF assms(3) some])
       (auto intro!: solid_case_option solid_ret solid_if solid_bindp assms(1) split: option.split)
  then show ?thesis
    unfolding scan_dir_def by (intro solid_intro assms)
qed

lemma sys_dev_scan_sound:
  fixes E :: "'w env"
  assumes "proc_ok E"
  shows "solid (search_inv h n) (populate_from_sys_dev_parport E)"
proof -
  have calls: "solid (search_inv h n) (lib_call f ev)" for f :: "'w \<Rightarrow> 'b \<times> 'w" and ev
    by (intro solid_returns returns_lib_call stays_search_inv keeps_intro)
  have "name \<noteq> [] \<and> length name \<le> 17" if "fst (env_readdir E w) = Some name" for name w
  proof -
    have "case fst (env_readdir E w) of None \<Rightarrow> True | Some name \<Rightarrow> name \<noteq> [] \<and> length name \<le> 17"
      by (rule assms [unfolded proc_ok_def, THEN conjunct1, THEN spec])
    with that show ?thesis by simp
  qed
  then show ?thesis
    unfolding populate_from_sys_dev_parport_def
    by (intro solid_dir calls) (auto simp: readdir_def intro: calls solid_add_sys_dev_entry [OF assms])
qed

text \<open>A name that is too long for the path buffers overflows them.\<close>

lemma long_name_overflows:
  assumes "18 \<le> length name"
  shows "add_sys_dev_entry E name s = Some (Fault Out_of_bounds)"
proof -
  have base: "read_base E name s1 = Some (Fault Out_of_bounds)" for s1
    using assms by (simp add: read_base_def sprintf_into_def bindp_def fail_def)
  have "name \<noteq> []" using assms by auto
  then show ?thesis
    by (auto simp: add_sys_dev_entry_def bindp_def gets_def sys_dev_devices_def sprintf_into_def fail_def ret_def base)
qed

subsection \<open>Guessing\<close>

lemma total_malloc:
  fixes s :: "'w lib"
  assumes "mallocs E" and "\<And>s1. port_view s1 = port_view s \<Longrightarrow> Q True s1"
  shows "total (sys_malloc E n) s Q"
  unfolding sys_malloc_def
proof (rule total_lib_call)
  fix a w assume "env_malloc E n (lworld s) = (a, w)"
  then have "a = True" using assms(1) unfolding mallocs_def by (metis fst_conv)
  then show "Q a (s\<lparr>lworld := w, ltrace := ltrace s @ []\<rparr>)"
    using assms(2) by (simp add: port_view_def)
qed

lemma total_strdup:
  assumes "mallocs E" and "\<And>s1. port_view s1 = port_view s \<Longrightarrow> Q (Some str) s1"
  shows "total (strdup E (Some str)) s Q"
  unfolding strdup_def
  by (simp, rule total_bindp, rule total_malloc [OF assms(1)]) (simp add: total_ret assms(2))

text \<open>The list of ports after adding one, from the view that the search keeps.\<close>

definition add_view ::
  "string \<Rightarrow> string \<Rightarrow> 64 word \<Rightarrow> nat list \<times> (nat \<Rightarrow> (parport \<times> parport_internal) option) \<times> nat \<Rightarrow>
   nat list \<times> (nat \<Rightarrow> (parport \<times> parport_internal) option) \<times> nat" where
  "add_view name dev bas v = (case v of (ps, h, n) \<Rightarrow>
     let h' = h(n \<mapsto> new_port name dev None bas 0 (-1))
     in (qsort_ports (\<lambda>p. case h' p of None \<Rightarrow> [] | Some (q, i) \<Rightarrow> pname q) (ps @ [n]), h', n + 1))"

lemma add_port_total:
  assumes E: "mallocs E" and room: "length (found s) < 19"
    and live: "list_all (\<lambda>p. heap s p \<noteq> None) (found s)"
  shows "total (add_port E name (Some dev) None bas 0 (-1)) s (\<lambda>r s'. r = 0 \<and>
     port_view s' = add_view name dev bas (port_view s))"
proof -
  let ?Q = "\<lambda>r s'. r = 0 \<and> port_view s' = add_view name dev bas (port_view s)"
  have inst: "total (install_port name dev None bas 0 (-1)) s1 ?Q" if v: "port_view s1 = port_view s" for s1
    using v live
    by (simp add: install_port_def total_def bindp_def modify_def sort_ports_def ret_def port_view_def
        list_all_iff add_view_def Let_def) (auto simp: name_of_def [abs_def])
  have len: "length (found s) \<noteq> MAX_PORTS - 1" using room by (simp add: MAX_PORTS_def)
  show ?thesis
    unfolding add_port_def
    by (rule total_bindp, rule total_gets, rule total_if, use len in simp,
        rule total_bindp, rule total_malloc [OF E], simp, rule total_bindp, rule total_strdup [OF E], simp,
        rule total_bindp, rule total_strdup [OF E], simp, rule total_bindp, rule total_malloc [OF E], simp,
        rule total_bindp, rule total_malloc [OF E], simp add: inst)
qed

text \<open>Without any information of the system: the three usual addresses, sorted by name.\<close>

lemma guess_total:
  assumes E: "mallocs E" and s: "found s = []"
  shows "total (populate_by_guessing E) s (\<lambda>r s'. r = 0 \<and>
     map (\<lambda>p. case heap s' p of None \<Rightarrow> ([], 0) | Some (q, i) \<Rightarrow> (pname q, base_addr q)) (found s') =
       [(''0x278'', 0x278), (''0x378'', 0x378), (''0x3bc'', 0x3bc)])"
proof -
  let ?dev = "guess_device (env_build E)"
  have add: "total (add_guess E g) s1 (\<lambda>_ s2. port_view s2 = add_view (fst g) ?dev (snd g) (port_view s1))"
    if "length (found s1) < 19" "list_all (\<lambda>p. heap s1 p \<noteq> None) (found s1)" for g and s1 :: "'a lib"
    unfolding add_guess_def
    by (rule total_bindp, rule total_weaken [OF add_port_total [OF E that]], rule total_ret) simp
  let ?p = "\<lambda>s g. add_view (fst g) ?dev (snd g) s"
  let ?h = "heap s" and ?n = "next_addr s"
  let ?port = "\<lambda>name a. new_port name ?dev None a 0 (-1)"
  let ?w1 = "([?n], ?h(?n \<mapsto> ?port ''0x378'' 0x378), ?n + 1)"
  let ?w2 = "([?n + 1, ?n], ?h(?n \<mapsto> ?port ''0x378'' 0x378, ?n + 1 \<mapsto> ?port ''0x278'' 0x278), ?n + 2)"
  let ?w3 = "([?n + 1, ?n, ?n + 2], ?h(?n \<mapsto> ?port ''0x378'' 0x378,
      ?n + 1 \<mapsto> ?port ''0x278'' 0x278, ?n + 2 \<mapsto> ?port ''0x3bc'' 0x3bc), ?n + 3)"
  have v1: "?p (port_view s) (''0x378'', 0x378) = ?w1"
    by (simp add: add_view_def port_view_def s qsort_ports_def)
  have v2: "?p ?w1 (''0x278'', 0x278) = ?w2"
    by (simp add: add_view_def qsort_ports_def compare_port_def new_port_def)
  have v3: "?p ?w2 (''0x3bc'', 0x3bc) = ?w3"
    by (simp add: add_view_def qsort_ports_def compare_port_def new_port_def)
  have step: "total (bindp (add_guess E g) k) s1 Q"
    if "?p v g = w" "port_view s1 = v" "length (fst v) < 19" "list_all (\<lambda>p. fst (snd v) p \<noteq> None) (fst v)"
      "\<And>s2. port_view s2 = w \<Longrightarrow> total (k ()) s2 Q"
    for s1 :: "'a lib" and v w g k and Q :: "unit \<Rightarrow> 'a lib \<Rightarrow> bool"
    by (rule total_bindp, rule total_weaken [OF add]) (use that in \<open>auto simp: port_view_def\<close>)
  have "total (stmts (map (add_guess E) [(''0x378'', 0x378), (''0x278'', 0x278), (''0x3bc'', 0x3bc)])) s
      (\<lambda>_ s'. port_view s' = ?w3)"
    unfolding list.map stmts.simps
    by (rule step [OF v1 refl], simp add: port_view_def s, simp add: port_view_def s,
        rule step [OF v2], assumption, simp, simp, rule step [OF v3], assumption, simp, simp, rule total_ret)
  then show ?thesis
    unfolding populate_by_guessing_def
    by (intro total_bindp total_if; simp; elim total_weaken; intro total_ret)
       (simp add: port_view_def new_port_def)
qed

subsection \<open>An entry of \<^verbatim>\<open>/proc/parport\<close> without ppdev\<close>

text \<open>
  The second device name of such an entry is written only if ppdev has been found, and copied
  in any case.
\<close>

lemma bindp_faults: "total m s (\<lambda>a s'. k a s' = Some (Fault f)) \<Longrightarrow> bindp m k s = Some (Fault f)"
  by (auto simp: total_def bindp_def)

lemma add_port_uninitialised:
  assumes E: "mallocs E" and room: "length (found s) < 19"
  shows "add_port E name dev (Some None) bas hibase irq s = Some (Fault Uninitialised)"
proof -
  have len: "length (found s) \<noteq> MAX_PORTS - 1" using room by (simp add: MAX_PORTS_def)
  have strdup: "strdup E None s1 = Some (Fault Uninitialised)" for s1 :: "'a lib"
    by (simp add: strdup_def fail_def)
  have fault: "bindp (strdup E None) k s1 = Some (Fault Uninitialised)"
    for s1 :: "'a lib" and k :: "string option \<Rightarrow> ('b, 'a lib) prog"
    by (simp add: bindp_def strdup)
  show ?thesis
  proof (cases dev)
    case None
    show ?thesis
      unfolding add_port_def None
      by (rule bindp_faults, rule total_gets, simp add: len [simplified], rule bindp_faults,
          rule total_malloc [OF E], simp, rule bindp_faults, rule total_strdup [OF E]) (simp add: fault)
  next
    case (Some d)
    have "bindp (bindp (strdup E None) k) l s1 = Some (Fault Uninitialised)"
      for s1 :: "'a lib" and k :: "string option \<Rightarrow> ('b, 'a lib) prog" and l :: "'b \<Rightarrow> ('c, 'a lib) prog"
      by (simp add: bindp_def strdup)
    then show ?thesis
      unfolding add_port_def Some
      by (intro bindp_faults, intro total_gets) (simp add: len [simplified],
          rule bindp_faults, rule total_malloc [OF E], simp, rule bindp_faults, rule total_strdup [OF E], simp,
          rule bindp_faults, rule total_strdup [OF E], simp, rule bindp_faults, rule total_malloc [OF E], simp,
          rule bindp_faults, rule total_malloc [OF E], simp)
  qed
qed

lemma proc_entry_uninitialised:
  assumes E: "mallocs E" and room: "length (found s) < 19" and name: "length name \<le> 25"
    and caps: "\<not> truth (capabilities s AND PPDEV_CAPABLE)"
  shows "add_parport_entry E name s = Some (Fault Uninitialised)"
proof -
  obtain dev where dev: "(parport_devices (capabilities s) name :: (_, 'a lib) prog) = ret (dev, None)"
    using caps by (simp add: parport_devices_def)
  have hardware: "(sprintf_into 50 (''/proc/parport/'' @ name @ ''/hardware'') :: (_, 'a lib) prog) =
      ret (''/proc/parport/'' @ name @ ''/hardware'')"
    by (rule sprintf_ok) (use name in simp)
  have "total (read_file E path 499) s (\<lambda>_ s1. found s1 = found s)" for path
    by (rule returns_total [OF returns_read_file])
       (rule post_keeps [OF keeps_view_read_file], simp add: port_view_def)
  then have add: "total (read_file E path 499) s (\<lambda>_ s1. \<forall>bas irq.
      add_port E name dev (Some None) bas 0 irq s1 = Some (Fault Uninitialised))" for path
    by (rule total_weaken) (simp add: add_port_uninitialised [OF E] room)
  show ?thesis
    unfolding add_parport_entry_def
    by (rule bindp_faults, rule total_gets, unfold dev hardware bindp_ret_left prod.case,
        rule bindp_faults, rule total_weaken [OF add]) (simp add: Let_def bindp_def)
qed

subsection \<open>The number in a name\<close>

text \<open>
  The loop over the end of a name finds the longest block of digits at its end, except that it
  does not look at the first character.
\<close>

lemma before_digits_le: "before_digits name n \<le> n"
  by (induction n) auto

lemma before_digits_take:
  "n < length name \<Longrightarrow> drop (before_digits name n + 1) (take (n + 1) name) =
     rev (takeWhile isdigit (rev (tl (take (n + 1) name))))"
proof (induction n)
  case 0
  then show ?case by (cases name) simp_all
next
  case (Suc n)
  have take: "take (Suc n + 1) name = take (n + 1) name @ [name ! Suc n]"
    using Suc.prems by (simp add: take_Suc_conv_app_nth)
  have "take (n + 1) name \<noteq> []" using Suc.prems by auto
  then have tl: "tl (take (Suc n + 1) name) = tl (take (n + 1) name) @ [name ! Suc n]"
    unfolding take by (rule tl_append2)
  have len: "length (take (n + 1) name) = n + 1" using Suc.prems by simp
  show ?case
  proof (cases "isdigit (name ! Suc n)")
    case True
    then show ?thesis
      using Suc.IH Suc.prems before_digits_le [of name n] unfolding tl unfolding take
      by (simp add: len [simplified])
  next
    case False
    then show ?thesis using Suc.prems unfolding tl unfolding take by simp
  qed
qed

lemma before_digits_number:
  assumes "name \<noteq> []"
  shows "drop (before_digits name (length name - 1) + 1) name = rev (takeWhile isdigit (rev (tl name)))"
  using before_digits_take [of "length name - 1" name] assms by simp

end
