(* ===== verification/Deviceid.thy ===== *)
theory Deviceid
  imports Ports
begin

section \<open>The device ID: \<^verbatim>\<open>src/deviceid.c\<close>\<close>

text \<open>
  Reading the IEEE 1284 device ID of a port: from the files the kernel keeps of its own probe,
  or from the device itself in nibble mode.  The caller's buffer is the list of its bytes,
  with what the caller left in them; the argument \<open>len\<close> is separate, as in the code.  A store
  behind the end of the list is the fault \<open>Out_of_bounds\<close>.  A function returns its C result and
  the buffer.  The theorems: stores stay inside a buffer of at least three bytes, a cached ID
  leaves the port alone, what an ID from a file looks like, and what happens to the reference
  count of the port.
\<close>

subsection \<open>The buffer\<close>

definition store :: "nat \<Rightarrow> u8 list \<Rightarrow> u8 list \<Rightarrow> (u8 list, 'w lib) prog" where
  "store off bs buf =
     (if off + length bs \<le> length buf
      then ret (take off buf @ bs @ drop (off + length bs) buf)
      else fail Out_of_bounds)"

text \<open>
  \<^verbatim>\<open>buffer[0] * 256 + buffer[1]\<close> with \<^verbatim>\<open>char\<close> signed, converted to \<^verbatim>\<open>size_t\<close>; and \<^verbatim>\<open>len - k\<close>
  as a \<^verbatim>\<open>size_t\<close>.
\<close>

definition id_length :: "u8 \<Rightarrow> u8 \<Rightarrow> 64 word" where
  "id_length hi lo = word_of_int (sint hi * 256 + sint lo)"

definition minus_size :: "nat \<Rightarrow> nat \<Rightarrow> nat" where
  "minus_size len k = unat (of_nat len - of_nat k :: 64 word)"

text \<open>The conversion of a \<^verbatim>\<open>ssize_t\<close> to \<^verbatim>\<open>int\<close>.\<close>

definition to_int :: "int \<Rightarrow> int" where
  "to_int r = sint (word_of_int r :: 32 word)"

definition ETRYNEXT :: int where "ETRYNEXT = 100"
definition ENODEVID :: int where "ENODEVID = 101"

subsection \<open>From the device\<close>

text \<open>\<^verbatim>\<open>if ((size_t) got < len) buffer[got] = 0\<close>: a negative count is a huge one.\<close>

definition terminate_at :: "int \<Rightarrow> nat \<Rightarrow> u8 list \<Rightarrow> (u8 list, 'w lib) prog" where
  "terminate_at got len buf =
     (if 0 \<le> got \<and> got < int len then store (nat got) [0] buf else ret buf)"

definition get_fresh ::
  "'w env \<Rightarrow> nat \<Rightarrow> int \<Rightarrow> u8 list \<Rightarrow> nat \<Rightarrow> (int \<times> u8 list, 'w lib) prog" where
  "get_fresh E p daisy buf len =
     (if -1 < daisy then ret (E1284_NOTIMPL, buf)
      else
      bindp (on_port p (ieee1284_terminate E)) (\<lambda>_.
      bindp (on_port p (ieee1284_negotiate E (M1284_NIBBLE OR M1284_FLAG_DEVICEID))) (\<lambda>r.
      if r \<noteq> E1284_OK then ret (E1284_NOTAVAIL, buf)
      else
      bindp (on_port p (ieee1284_nibble_read E 0 2)) (\<lambda>(got1, bs1).
      bindp (store 0 bs1 buf) (\<lambda>buf1.
      if got1 < 2 then ret (E1284_NOID, buf1)
      else
      let asked = unat (id_length (buf1 ! 0) (buf1 ! 1));
          idlen = (if minus_size len 2 \<le> asked then minus_size len 2 else asked)
      in
      bindp (on_port p (ieee1284_nibble_read E 0 idlen)) (\<lambda>(got2, bs2).
      bindp (store 2 bs2 buf1) (\<lambda>buf2.
      bindp (terminate_at (got1 + got2) len buf2) (\<lambda>buf3.
      bindp (on_port p (ieee1284_terminate E)) (\<lambda>_.
      ret (got1 + got2, buf3))))))))))"

subsection \<open>From the kernel's files\<close>

definition suspicious :: "string \<Rightarrow> bool" where
  "suspicious name \<longleftrightarrow> CHR ''/'' \<in> set name \<or> (name \<noteq> [] \<and> hd name = CHR ''.'')"

definition id_path :: "string \<Rightarrow> string \<Rightarrow> string \<Rightarrow> int \<Rightarrow> string" where
  "id_path dir name file daisy =
     dir @ name @ file @ (if -1 < daisy then print_int daisy else [])"

text \<open>The two length bytes of an ID whose file does not hold them.\<close>

definition store_length :: "int \<Rightarrow> u8 list \<Rightarrow> (u8 list, 'w lib) prog" where
  "store_length got buf = store 0 [uchar (got div 256), uchar (got mod 256)] buf"

definition on_name :: "nat \<Rightarrow> (string, 'w lib) prog" where
  "on_name p = (\<lambda>s. case heap s p of
      None \<Rightarrow> Some (Fault Use_after_free) | Some (q, i) \<Rightarrow> Some (Ret (pname q) s))"

definition get_from_proc_parport ::
  "'w env \<Rightarrow> nat \<Rightarrow> int \<Rightarrow> u8 list \<Rightarrow> nat \<Rightarrow> (int \<times> u8 list, 'w lib) prog" where
  "get_from_proc_parport E p daisy buf len =
     bindp (on_name p) (\<lambda>name0.
     if suspicious name0 then ret (- ETRYNEXT, buf)
     else
     bindp (sys_malloc E (int (length name0) + 50)) (\<lambda>ok.
     if \<not> ok then ret (- ETRYNEXT, buf)
     else
     bindp (sprintf_into (length name0 + 50) (id_path ''/proc/parport/'' name0 ''/autoprobe'' daisy)) (\<lambda>name.
     bindp (sys_open E name O_RDONLY_NOCTTY) (\<lambda>d.
     if 0 \<le> d
     then
       bindp (sys_read E d (int (minus_size len 2))) (\<lambda>(got, bs).
       bindp (store 2 (take (nat got) bs) buf) (\<lambda>buf1.
       bindp (sys_close E d) (\<lambda>_.
       if got < 1 then ret (- ETRYNEXT, buf1)
       else
       bindp (if 2 + got < int len then store (nat (2 + got)) [0] buf1 else ret buf1) (\<lambda>buf2.
       bindp (store_length got buf2) (\<lambda>buf3.
       ret (got, buf3))))))
     else ret (- ETRYNEXT, buf)))))"

definition get_from_sys_dev_parport ::
  "'w env \<Rightarrow> nat \<Rightarrow> int \<Rightarrow> u8 list \<Rightarrow> nat \<Rightarrow> (int \<times> u8 list, 'w lib) prog" where
  "get_from_sys_dev_parport E p daisy buf len =
     bindp (on_name p) (\<lambda>name0.
     if suspicious name0 then ret (- ETRYNEXT, buf)
     else
     bindp (sys_malloc E (int (length name0) + 50)) (\<lambda>ok.
     if \<not> ok then ret (- ETRYNEXT, buf)
     else
     bindp (sprintf_into (length name0 + 50)
        (id_path ''/proc/sys/dev/parport/'' name0 ''/deviceid'' daisy)) (\<lambda>name.
     bindp (sys_open E name O_RDONLY_NOCTTY) (\<lambda>d.
     if 0 \<le> d
     then
       bindp (sys_read E d (int len)) (\<lambda>(got, bs).
       bindp (store 0 (take (nat got) bs) buf) (\<lambda>buf1.
       bindp (sys_close E d) (\<lambda>_.
       if got < 1 then ret (- ETRYNEXT, buf1)
       else bindp (terminate_at got len buf1) (\<lambda>buf2. ret (got, buf2)))))
     else
     bindp (sprintf_into (length name0 + 50)
        (id_path ''/proc/sys/dev/parport/'' name0 ''/autoprobe'' daisy)) (\<lambda>name2.
     bindp (sys_open E name2 O_RDONLY_NOCTTY) (\<lambda>d2.
     if 0 \<le> d2
     then
       bindp (sys_read E d2 (int (minus_size len 3))) (\<lambda>(got, bs).
       bindp (store 2 (take (nat got) bs) buf) (\<lambda>buf1.
       bindp (sys_close E d2) (\<lambda>_.
       if got < 1 then ret (- ETRYNEXT, buf1)
       else
       bindp (store (nat (2 + got)) [0] buf1) (\<lambda>buf2.
       bindp (store_length got buf2) (\<lambda>buf3.
       ret (got, buf3))))))
     else ret (- ETRYNEXT, buf)))))))"

subsection \<open>The public function\<close>

definition cached_deviceid ::
  "'w env \<Rightarrow> nat \<Rightarrow> int \<Rightarrow> u8 list \<Rightarrow> nat \<Rightarrow> (int \<times> u8 list, 'w lib) prog" where
  "cached_deviceid E p daisy buf len =
     bindp (gets capabilities) (\<lambda>caps.
     if truth (caps AND PROC_SYS_DEV_PARPORT_CAPABLE)
     then bindp (get_from_sys_dev_parport E p daisy buf len) (\<lambda>(r, b). ret (to_int r, b))
     else if truth (caps AND PROC_PARPORT_CAPABLE)
     then bindp (get_from_proc_parport E p daisy buf len) (\<lambda>(r, b). ret (to_int r, b))
     else ret (-1, buf))"

definition probe_deviceid ::
  "'w env \<Rightarrow> nat \<Rightarrow> int \<Rightarrow> u8 list \<Rightarrow> nat \<Rightarrow> (int \<times> u8 list, 'w lib) prog" where
  "probe_deviceid E p daisy buf len =
     bindp (on_port p (ieee1284_open E 0 None)) (\<lambda>(r1, _).
     if r1 \<noteq> E1284_OK then ret (r1, buf)
     else
     bindp (on_port p (ieee1284_claim E)) (\<lambda>r2.
     if r2 \<noteq> E1284_OK then ret (r2, buf)
     else
     bindp (get_fresh E p daisy buf len) (\<lambda>(got, buf1).
     bindp (on_port p (ieee1284_release E)) (\<lambda>_.
     bindp (ieee1284_close E p) (\<lambda>_.
     ret (to_int got, buf1))))))"

definition ieee1284_get_deviceid ::
  "'w env \<Rightarrow> nat \<Rightarrow> int \<Rightarrow> int \<Rightarrow> u8 list \<Rightarrow> nat \<Rightarrow> (int \<times> u8 list, 'w lib) prog" where
  "ieee1284_get_deviceid E p daisy flags buf len =
     (if truth (flags AND NOT F1284_FRESH) then ret (E1284_NOTIMPL, buf)
      else if \<not> truth (flags AND F1284_FRESH)
      then
        bindp (cached_deviceid E p daisy buf len) (\<lambda>(r, buf1).
        if -1 < r then ret (r, buf1)
        else if r = - ENODEVID then ret (E1284_NOTAVAIL, buf1)
        else probe_deviceid E p daisy buf1 len)
      else probe_deviceid E p daisy buf len)"

subsection \<open>IDs from files\<close>

text \<open>
  What \<^verbatim>\<open>read\<close> promises: it stores as many bytes as it returns, and no more than it was asked for.
\<close>

definition read_ok :: "'w env \<Rightarrow> bool" where
  "read_ok E \<longleftrightarrow> (\<forall>d n w. 0 \<le> n \<longrightarrow> (case fst (env_read E d n w) of (got, bs) \<Rightarrow>
     got \<le> n \<and> length bs = nat got))"

lemma read_okD:
  assumes "read_ok E" and "0 \<le> n" and "env_read E d n w = ((got, bs), w')"
  shows "got \<le> n" and "length bs = nat got"
proof -
  have "case fst (env_read E d n w) of (got, bs) \<Rightarrow> got \<le> n \<and> length bs = nat got"
    by (rule assms(1) [unfolded read_ok_def, THEN spec, THEN spec, THEN spec, THEN mp, OF assms(2)])
  with assms(3) show "got \<le> n" "length bs = nat got" by simp_all
qed

lemma minus_size: "k \<le> len \<Longrightarrow> len < 2 ^ 31 \<Longrightarrow> minus_size len k = len - k"
proof -
  assume "k \<le> len" "len < 2 ^ 31"
  then have "of_nat len - of_nat k = (of_nat (len - k) :: 64 word)" by simp
  then show ?thesis
    using \<open>len < 2 ^ 31\<close> by (simp add: minus_size_def unat_of_nat)
qed

lemma to_int_small: "\<bar>r\<bar> < 2 ^ 31 \<Longrightarrow> to_int r = r"
  by (simp add: to_int_def sint_sbintrunc' signed_take_bit_int_eq_self)

text \<open>The paths fit their buffers.\<close>

lemma id_path_fits:
  assumes "length dir + length file \<le> 33" and "daisy < 2 ^ 31"
  shows "sprintf_into (length name + 50) (id_path dir name file daisy) =
     ret (id_path dir name file daisy)"
proof -
  have "length (decimal (nat daisy)) \<le> 10"
    using assms(2) by (intro decimal_length) auto
  with assms(1) show ?thesis
    by (intro sprintf_ok) (auto simp: id_path_def print_int_def)
qed

lemma store_fits: "off + length bs \<le> length buf \<Longrightarrow>
    store off bs buf = ret (take off buf @ bs @ drop (off + length bs) buf)"
  by (simp add: store_def)

text \<open>
  An ID put together from an \<^verbatim>\<open>autoprobe\<close> file: the two length bytes hold the size of the file,
  and the bytes of the file follow; the result is the size of the file, two less than the
  number of bytes filled.
\<close>

definition autoprobe_id :: "nat \<Rightarrow> u8 list \<Rightarrow> bool" where
  "autoprobe_id got b \<longleftrightarrow> got + 2 \<le> length b \<and>
     uint (b ! 0) * 256 + uint (b ! 1) = int got mod 65536"

lemma uint_uchar: "uint (uchar i) = i mod 256"
  by (simp add: uchar_def uint_word_of_int)

text \<open>Rules for the steps of the readers, by what they do to the length of the buffer.\<close>

lemma total_on_name:
  "heap s p \<noteq> None \<Longrightarrow> (\<And>name. Q name s) \<Longrightarrow> total (on_name p) s Q"
  by (auto simp: total_def on_name_def)

lemma total_store:
  assumes "off + length bs \<le> length buf" and "\<And>b. length b = length buf \<Longrightarrow> Q b s"
  shows "total (store off bs buf) s Q"
  using assms by (simp add: store_fits total_ret)

lemma total_store_length:
  assumes "nat got + 2 \<le> length buf" and "1 \<le> got"
    and "\<And>b. length b = length buf \<Longrightarrow> autoprobe_id (nat got) b \<Longrightarrow> Q b s"
  shows "total (store_length got buf) s Q"
proof -
  have "(got div 256) mod 256 * 256 + got mod 256 = got mod 65536"
    using zmod_zmult2_eq [of 256 got 256] by simp
  then show ?thesis
    using assms by (simp add: store_length_def store_fits total_ret autoprobe_id_def uint_uchar)
qed

lemma total_sys_read:
  assumes "read_ok E" and "0 \<le> n"
    and "\<And>got bs s1. got \<le> n \<Longrightarrow> length bs = nat got \<Longrightarrow> Q (got, bs) s1"
  shows "total (sys_read E d n) s Q"
  unfolding sys_read_def
  by (rule total_lib_call) (use assms(3) read_okD [OF assms(1,2)] in \<open>metis surj_pair\<close>)

lemma total_sys:
  "(\<And>a s1. Q a s1) \<Longrightarrow> total (sys_open E path f) s Q"
  "(\<And>a s1. Q' a s1) \<Longrightarrow> total (sys_close E d) s Q'"
  "(\<And>a s1. Q'' a s1) \<Longrightarrow> total (sys_malloc E n) s Q''"
  unfolding sys_open_def sys_close_def sys_malloc_def by (intro total_lib_call; assumption)+

lemma total_case_prod: "(\<And>a b. x = (a, b) \<Longrightarrow> total (f a b) s Q) \<Longrightarrow> total (case x of (a, b) \<Rightarrow> f a b) s Q"
  by (cases x) simp

lemma total_id_path:
  assumes "length dir + length file \<le> 33" and "daisy < 2 ^ 31" and "\<And>path. Q path s"
  shows "total (sprintf_into (length name + 50) (id_path dir name file daisy)) s Q"
  using assms(3) unfolding id_path_fits [OF assms(1,2)] by (rule total_ret)

lemmas reader_rules = total_bindp total_if total_ret total_sys total_case_prod total_store
  total_store_length total_id_path

lemma proc_parport_total:
  assumes E: "read_ok E" and p: "heap s p \<noteq> None" and daisy: "daisy < 2 ^ 31"
    and len: "3 \<le> len" "len \<le> length buf" "len < 2 ^ 31"
  shows "total (get_from_proc_parport E p daisy buf len) s (\<lambda>(r, b) _. length b = length buf \<and>
     (r = - ETRYNEXT \<or> 1 \<le> r \<and> r \<le> int len - 2 \<and> autoprobe_id (nat r) b))"
proof -
  have "int (minus_size len 2) = int len - 2" using len by (simp add: minus_size)
  with len daisy show ?thesis
    unfolding get_from_proc_parport_def
    by (intro reader_rules total_on_name [OF p] total_sys_read [OF E]; clarsimp; linarith?)
qed

lemma sys_dev_parport_total:
  assumes E: "read_ok E" and p: "heap s p \<noteq> None" and daisy: "daisy < 2 ^ 31"
    and len: "3 \<le> len" "len \<le> length buf" "len < 2 ^ 31"
  shows "total (get_from_sys_dev_parport E p daisy buf len) s (\<lambda>(r, b) _. length b = length buf \<and>
     (r = - ETRYNEXT \<or> 1 \<le> r \<and> r \<le> int len))"
proof -
  have "int (minus_size len 3) = int len - 3" using len by (simp add: minus_size)
  with len daisy show ?thesis
    unfolding get_from_sys_dev_parport_def terminate_at_def
    by (intro reader_rules total_on_name [OF p] total_sys_read [OF E]; clarsimp; linarith?)
qed

text \<open>
  Asking for the ID without \<^verbatim>\<open>F1284_FRESH\<close> when the kernel has one: nothing is stored outside the
  buffer, and the port is not touched.
\<close>

lemma keeps_view_store [keeps_intro]:
  "keeps port_view (store off bs buf)" "keeps port_view (terminate_at got len buf)"
  "keeps port_view (store_length got buf)" "keeps port_view (on_name p)"
  unfolding store_def terminate_at_def store_length_def
  by (intro keeps_intro)+ (auto simp: keeps_def post_def on_name_def split: option.splits)

lemma keeps_view_cached [keeps_intro]: "keeps port_view (cached_deviceid E p daisy buf len)"
  unfolding cached_deviceid_def get_from_sys_dev_parport_def get_from_proc_parport_def
  by (intro keeps_intro keeps_case_prod)

lemma cached_total:
  assumes E: "read_ok E" and p: "heap s p \<noteq> None" and daisy: "daisy < 2 ^ 31"
    and len: "3 \<le> len" "len \<le> length buf" "len < 2 ^ 31"
  shows "total (cached_deviceid E p daisy buf len) s (\<lambda>(r, b) s'. length b = length buf \<and>
     (r = - ETRYNEXT \<or> r = -1 \<or> 1 \<le> r \<and> r \<le> int len) \<and> port_view s' = port_view s)"
proof -
  have small: "to_int r = r" if "r = - ETRYNEXT \<or> 1 \<le> r \<and> r \<le> int len" for r
    using that len by (intro to_int_small) (auto simp: ETRYNEXT_def)
  have "total (cached_deviceid E p daisy buf len) s (\<lambda>(r, b) _. length b = length buf \<and>
     (r = - ETRYNEXT \<or> r = -1 \<or> 1 \<le> r \<and> r \<le> int len))"
    unfolding cached_deviceid_def
    by (intro total_bindp total_gets total_if total_weaken [OF sys_dev_parport_total [OF E p daisy len]]
        total_weaken [OF proc_parport_total [OF E p daisy len]])
       (auto intro!: total_ret simp: small)
  from total_conj [OF this keepsD [OF keeps_view_cached]] show ?thesis
    by (rule total_weaken) auto
qed

text \<open>Unknown flags are refused before anything is done.\<close>

lemma get_deviceid_flags:
  "truth (flags AND NOT F1284_FRESH) \<Longrightarrow>
     ieee1284_get_deviceid E p daisy flags buf len s = Some (Ret (E1284_NOTIMPL, buf) s)"
  by (simp add: ieee1284_get_deviceid_def ret_def)

lemma get_deviceid_cached:
  assumes "cached_deviceid E p daisy buf len s = Some (Ret (r, b) s')" and "-1 < r"
    and "flags = 0"
  shows "ieee1284_get_deviceid E p daisy flags buf len s = Some (Ret (r, b) s')"
  using assms by (simp add: ieee1284_get_deviceid_def truth_def bindp_def ret_def)

text \<open>A probe that cannot claim the port returns the error and leaves the port open.\<close>

lemma probe_claim_fails:
  assumes "on_port p (ieee1284_open E 0 None) s = Some (Ret (E1284_OK, c) s1)"
    and "on_port p (ieee1284_claim E) s1 = Some (Ret r s2)" and "r \<noteq> E1284_OK"
  shows "probe_deviceid E p daisy buf len s = Some (Ret (r, buf) s2)"
  using assms by (simp add: probe_deviceid_def bindp_def ret_def)

end
