(* ===== verification/Lifecycle.thy ===== *)
theory Lifecycle
  imports Deviceid "HOL-Library.Multiset"
begin

section \<open>The life of a port in the hands of a client\<close>

text \<open>
  A port is freed by the call that gives up the last reference to it: a reference is held by
  each list of ports it is in, by each \<^verbatim>\<open>ieee1284_ref\<close>, and by the port itself while it is
  open.  The theory keeps, next to the state of the library, the multiset of the references
  the client holds, lets the client make any sequence of calls on ports it may use, and
  proves that the reference count of every port in the heap is the number of references:
  a port the client may use is never freed, and one it has given up is.
\<close>

subsection \<open>Expected counts\<close>

definition is_open :: "'w lib \<Rightarrow> nat \<Rightarrow> bool" where
  "is_open s p \<longleftrightarrow> (case heap s p of None \<Rightarrow> False | Some (q, i) \<Rightarrow> truth (opened i))"

definition expected :: "'w lib \<Rightarrow> nat multiset \<Rightarrow> nat \<Rightarrow> nat" where
  "expected s H p = count H p + (if is_open s p then 1 else 0)"

definition count_ok :: "'w lib \<Rightarrow> nat multiset \<Rightarrow> nat \<Rightarrow> bool" where
  "count_ok s H p \<longleftrightarrow> (case heap s p of
       None \<Rightarrow> count H p = 0
     | Some (q, i) \<Rightarrow> 0 < refcount i \<and> refcount i = int (expected s H p))"

definition counted :: "'w lib \<Rightarrow> nat multiset \<Rightarrow> bool" where
  "counted s H \<longleftrightarrow> (\<forall>p. count_ok s H p) \<and> (\<forall>p\<ge>next_addr s. heap s p = None)"

lemma count_ok_cong:
  "heap s' p = heap s p \<Longrightarrow> count H' p = count H p \<Longrightarrow> count_ok s' H' p = count_ok s H p"
  by (simp add: count_ok_def expected_def is_open_def split: option.split)

lemma count_ok_Some:
  "heap s p = Some (q, i) \<Longrightarrow> count_ok s H p \<longleftrightarrow> 0 < refcount i \<and>
     refcount i = int (count H p) + (if truth (opened i) then 1 else 0)"
  by (simp add: count_ok_def expected_def is_open_def)

lemma count_ok_None: "heap s p = None \<Longrightarrow> count_ok s H p \<longleftrightarrow> count H p = 0"
  by (simp add: count_ok_def)

text \<open>The ports a client may use: those it holds a reference to, and those it has open.\<close>

definition usable :: "'w lib \<Rightarrow> nat multiset \<Rightarrow> nat \<Rightarrow> bool" where
  "usable s H p \<longleftrightarrow> p \<in># H \<or> is_open s p"

lemma countedD:
  assumes "counted s H" and "heap s p = Some (q, i)"
  shows "0 < refcount i" and "refcount i = int (count H p) + (if truth (opened i) then 1 else 0)"
  using assms count_ok_Some [OF assms(2), of H] unfolding counted_def by blast+

lemma usable_live:
  assumes "counted s H" and "usable s H p"
  obtains q i where "heap s p = Some (q, i)"
proof (cases "heap s p")
  case None
  with assms(1) count_ok_None [of s p H] have "count H p = 0" by (simp add: counted_def)
  with None assms(2) show ?thesis
    by (simp add: usable_def is_open_def count_eq_zero_iff)
qed auto

lemma live_usable:
  assumes "counted s H" and "heap s p = Some (q, i)"
  shows "usable s H p"
  using countedD [OF assms] assms(2) count_greater_zero_iff [of H p]
  by (auto simp: usable_def is_open_def split: if_splits)

text \<open>Programs on one port, by what they do to its state.\<close>

abbreviation (input) port_state :: "'w lib \<Rightarrow> parport \<Rightarrow> parport_internal \<Rightarrow> 'w sys" where
  "port_state s q i \<equiv> \<lparr> pub = q, prt = i,
     glob = \<lparr> g_capabilities = capabilities s, disallow_ppdev = lib_disallow s \<rparr>,
     world = lworld s, trace = ltrace s \<rparr>"

abbreviation (input) put_port :: "'w lib \<Rightarrow> nat \<Rightarrow> 'w sys \<Rightarrow> 'w lib" where
  "put_port s p t \<equiv> s\<lparr>heap := (heap s)(p \<mapsto> (pub t, prt t)), lworld := world t, ltrace := trace t\<rparr>"

lemma post_on_port:
  assumes "\<And>q i. heap s p = Some (q, i) \<Longrightarrow>
     post m (port_state s q i) (\<lambda>a t. Q a (put_port s p t))"
  shows "post (on_port p m) s Q"
  using assms by (auto simp: post_def on_port_Ret)

lemma total_on_port:
  assumes "heap s p = Some (q, i)" and "total m (port_state s q i) (\<lambda>a t. Q a (put_port s p t))"
  shows "total (on_port p m) s Q"
  using assms by (auto simp: total_def on_port_def)

lemma total_on_live:
  assumes "heap s p = Some (q, i)" and "Q (f i) s"
  shows "total (on_live p f) s Q"
  using assms by (simp add: total_def on_live_def)

lemma counted_put_port:
  assumes c: "counted s H" and h: "heap s p = Some (q, i)"
    and H: "\<And>r. r \<noteq> p \<Longrightarrow> count H' r = count H r"
    and pos: "0 < refcount (prt t)"
    and refs: "refcount (prt t) = int (count H' p) + (if truth (opened (prt t)) then 1 else 0)"
  shows "counted (put_port s p t) H'"
  unfolding counted_def
proof (intro conjI allI impI)
  fix r
  show "count_ok (put_port s p t) H' r"
  proof (cases "r = p")
    case True
    with pos refs show ?thesis by (subst count_ok_Some [where q = "pub t" and i = "prt t"]) auto
  next
    case False
    with c H show ?thesis by (subst count_ok_cong [of _ _ s _ H]) (simp_all add: counted_def)
  qed
  assume "next_addr (put_port s p t) \<le> r"
  with c h show "heap (put_port s p t) r = None" by (auto simp: counted_def)
qed

text \<open>Giving up a reference: the port is freed with the last one.\<close>

lemma deref_port_total:
  assumes h: "heap s p = Some (q, i)"
  shows "total (deref_port p) s (\<lambda>r s'. r = refcount i - 1 \<and> next_addr s' = next_addr s \<and>
     heap s' = (heap s)(p := if refcount i = 1 then None
                             else Some (q, i\<lparr>refcount := refcount i - 1\<rparr>)))"
  unfolding deref_port_def
  using assms
  by (simp add: total_def bindp_def on_port_def on_live_def upd_def modify_def ret_def)

lemma counted_drop:
  fixes s :: "'w lib"
  assumes c: "\<And>r. r \<noteq> p \<Longrightarrow> count_ok s H r"
    and next_addr: "\<And>r. next_addr s \<le> r \<Longrightarrow> heap s r = None"
    and h: "heap s p = Some (q, i)"
    and refs: "refcount i - 1 = int (count H p) + (if truth (opened i) then 1 else 0)"
  shows "total (deref_port p) s (\<lambda>r s'. counted s' H \<and> r = refcount i - 1 \<and>
     (usable s' H p \<longleftrightarrow> r \<noteq> 0))"
proof (rule total_weaken [OF deref_port_total [OF h]])
  fix r and s' :: "'w lib"
  assume s': "r = refcount i - 1 \<and> next_addr s' = next_addr s \<and>
     heap s' = (heap s)(p := if refcount i = 1 then None
                             else Some (q, i\<lparr>refcount := refcount i - 1\<rparr>))"
  have "count_ok s' H x" for x
  proof (cases "x = p")
    case True
    then show ?thesis
      using s' refs
      by (auto simp: count_ok_def expected_def is_open_def simp del: count_greater_zero_iff split: if_splits)
  next
    case False
    with s' c show ?thesis by (subst count_ok_cong [of _ _ s _ H]) simp_all
  qed
  moreover have "\<forall>x\<ge>next_addr s'. heap s' x = None"
    using s' next_addr h by auto
  ultimately have "counted s' H" by (simp add: counted_def)
  moreover have "usable s' H p \<longleftrightarrow> r \<noteq> 0"
    using refs s' unfolding usable_def count_greater_zero_iff [symmetric]
    by (auto simp: is_open_def simp del: count_greater_zero_iff split: if_splits)
  ultimately show "counted s' H \<and> r = refcount i - 1 \<and> (usable s' H p \<longleftrightarrow> r \<noteq> 0)"
    using s' by simp
qed

subsection \<open>Taking and giving up references\<close>

lemma ref_total:
  assumes c: "counted s H" and u: "usable s H p"
  shows "total (ieee1284_ref p) s (\<lambda>_ s'. counted s' (add_mset p H))"
proof -
  obtain q i where h: "heap s p = Some (q, i)" using usable_live [OF c u] .
  let ?t = "(port_state s q i)\<lparr>prt := i\<lparr>refcount := refcount i + 1\<rparr>\<rparr>"
  have "counted (put_port s p ?t) (add_mset p H)"
    by (rule counted_put_port [OF c h]) (use countedD [OF c h] in simp_all)
  then show ?thesis
    unfolding ieee1284_ref_def using h
    by (simp add: total_def bindp_def on_port_def on_live_def upd_def modify_def)
qed

lemma deref_total:
  assumes c: "counted s H" and p: "p \<in># H"
  shows "total (deref_port p) s (\<lambda>r s'. counted s' (H - {#p#}) \<and> (usable s' (H - {#p#}) p \<longleftrightarrow> r \<noteq> 0))"
proof -
  have "usable s H p" using p by (simp add: usable_def)
  then obtain q i where h: "heap s p = Some (q, i)" using usable_live [OF c] by blast
  have "total (deref_port p) s (\<lambda>r s'. counted s' (H - {#p#}) \<and> r = refcount i - 1 \<and>
     (usable s' (H - {#p#}) p \<longleftrightarrow> r \<noteq> 0))"
  proof (rule counted_drop [OF _ _ h])
    show "count_ok s (H - {#p#}) r" if "r \<noteq> p" for r
      using c that by (subst count_ok_cong [of _ _ s _ H]) (simp_all add: counted_def)
    show "heap s r = None" if "next_addr s \<le> r" for r
      using c that by (simp add: counted_def)
    show "refcount i - 1 = int (count (H - {#p#}) p) + (if truth (opened i) then 1 else 0)"
      using countedD (2) [OF c h] p by (simp add: of_nat_diff Suc_leI)
  qed
  then show ?thesis by (rule total_weaken) simp
qed

lemma free_ports_total:
  assumes "counted s H" and "mset ps \<subseteq># H"
  shows "total (ieee1284_free_ports (Some ps)) s (\<lambda>_ s'. counted s' (H - mset ps))"
  using assms
proof (induction ps arbitrary: s H)
  case (Cons p ps)
  from Cons.prems(2) have p: "p \<in># H" and ps: "mset ps \<subseteq># H - {#p#}"
    by (simp_all add: insert_subset_eq_iff)
  show ?case
    using Cons.IH [OF _ ps]
    by (auto simp: ieee1284_free_ports_def
        intro!: total_bindp total_ret total_weaken [OF deref_total [OF Cons.prems(1) p]])
qed (simp add: ieee1284_free_ports_def total_ret)

text \<open>Closing: the cleanup of every method returns.\<close>

lemma returns_env [returns_intro]: "returns (env_call f ev)" "returns (env_do g es)" "returns (upd h)"
  by (auto simp: returns_def intro!: wp_intro)

lemma returns_run_cleanup: "returns (run_cleanup E f)"
  by (cases f) (auto simp: io_cleanup_def ppdev_cleanup_def lpt_cleanup_def dev_close_def
      intro!: returns_intro)

lemma keeps_run_cleanup: "keeps life (run_cleanup E f)"
  by (cases f) (auto simp: io_cleanup_def ppdev_cleanup_def lpt_cleanup_def life_def
      intro!: keeps_intro)

lemma cleanup_total:
  "total (via_or () m_cleanup (run_cleanup E)) t (\<lambda>_ t'. life t' = life t)"
proof -
  have "returns (via_or () m_cleanup (run_cleanup E))"
    unfolding via_or_def slot_def by (intro returns_intro returns_run_cleanup)
  moreover have "post (via_or () m_cleanup (run_cleanup E)) t (\<lambda>_ t'. life t' = life t)"
    by (intro keepsD keeps_via_or keeps_run_cleanup)
  ultimately show ?thesis by (rule returns_total)
qed

lemma close_total:
  assumes c: "counted s H" and u: "usable s H p"
  shows "total (ieee1284_close E p) s (\<lambda>r s'. counted s' H \<and> \<not> is_open s' p \<and>
     r = (if is_open s p then E1284_OK else E1284_INVALIDPORT))"
proof -
  obtain q i where h: "heap s p = Some (q, i)" using usable_live [OF c u] .
  show ?thesis
  proof (cases "truth (opened i)")
    case False
    with h c show ?thesis
      by (simp add: ieee1284_close_def total_def bindp_def on_live_def ret_def is_open_def)
  next
    case True
    have refs: "refcount i = int (count H p) + 1" using countedD(2) [OF c h] True by simp
    have drop: "total (deref_port p) s2 (\<lambda>r s'. counted s' H \<and> \<not> is_open s' p)"
      if s2: "heap s2 = (heap s)(p \<mapsto> (q2, i2))" "next_addr s2 = next_addr s"
        and i2: "opened i2 = 0" "refcount i2 = refcount i" for s2 :: "'a lib" and q2 i2
    proof (rule total_weaken [OF total_conj [OF counted_drop]])
      show "count_ok s2 H r" if "r \<noteq> p" for r
        using c s2 that by (subst count_ok_cong [of _ _ s _ H]) (simp_all add: counted_def)
      show "heap s2 r = None" if "next_addr s2 \<le> r" for r
        using c s2 h that by (auto simp: counted_def)
      show h2: "heap s2 p = Some (q2, i2)" using s2 by simp
      show "refcount i2 - 1 = int (count H p) + (if truth (opened i2) then 1 else 0)"
        using i2 refs by (simp add: truth_def)
      show "post (deref_port p) s2 (\<lambda>_ s'. \<not> is_open s' p)"
        by (rule post_weaken [OF total_post [OF deref_port_total [OF h2]]])
           (use i2 in \<open>auto simp: is_open_def truth_def split: if_splits\<close>)
    qed simp
    show ?thesis
      unfolding ieee1284_close_def
    proof (rule total_bindp, rule total_on_live [OF h], rule total_if)
      show "total (bindp (on_port p (via_or () m_cleanup (run_cleanup E)))
          (\<lambda>_. bindp (on_port p (upd (\<lambda>i. i\<lparr>opened := 0\<rparr>))) (\<lambda>_. bindp (deref_port p) (\<lambda>_. ret E1284_OK)))) s
         (\<lambda>r s'. counted s' H \<and> \<not> is_open s' p \<and> r = (if is_open s p then E1284_OK else E1284_INVALIDPORT))"
      proof (rule total_bindp, rule total_on_port [OF h], rule total_weaken [OF cleanup_total], rule total_bindp,
          rule total_on_port, simp, rule total_upd, rule total_bindp, rule total_weaken [OF drop])
        fix u t
        assume "life t = life (port_state s q i)"
        then show "refcount (prt t\<lparr>opened := 0\<rparr>) = refcount i" by (simp add: life_def)
      qed (use h True in \<open>auto simp: is_open_def intro: total_ret\<close>)
    qed (use True in simp)
  qed
qed

lemma unref_total:
  assumes c: "counted s H" and u: "usable s H p"
  shows "total (ieee1284_unref E p) s (\<lambda>_ s'. counted s' (H - {#p#}))"
proof -
  obtain q i where h: "heap s p = Some (q, i)" using usable_live [OF c u] .
  note refs = countedD [OF c h]
  show ?thesis
  proof (cases "truth (opened i) \<and> refcount i = 1")
    case True
    with refs have "H - {#p#} = H" by (simp add: diff_single_trivial count_eq_zero_iff [symmetric])
    with True show ?thesis
      unfolding ieee1284_unref_def
      by (auto intro!: total_bindp total_on_live [OF h] total_ret total_weaken [OF close_total [OF c u]])
  next
    case False
    with refs have p: "p \<in># H"
      using count_greater_zero_iff [of H p] by (auto split: if_splits)
    from False show ?thesis
      unfolding ieee1284_unref_def
      by (auto intro!: total_bindp total_on_live [OF h] total_weaken [OF deref_total [OF c p]])
  qed
qed

subsection \<open>Calls on one port, and the device ID\<close>

text \<open>What any public call on a port does to its reference count: opening takes a reference.\<close>

definition own_refs :: "'w sys \<Rightarrow> int" where
  "own_refs t = refcount (prt t) - (if truth (opened (prt t)) then 1 else 0)"

definition refs_step :: "'w sys \<Rightarrow> 'w sys \<Rightarrow> bool" where
  "refs_step t t' \<longleftrightarrow> own_refs t' = own_refs t \<and> refcount (prt t) \<le> refcount (prt t')"

lemma refs_step_life: "life t' = life t \<Longrightarrow> refs_step t t'"
  by (simp add: refs_step_def own_refs_def life_def)

lemma open_refs: "post (ieee1284_open E flags caps) t (\<lambda>_. refs_step t)"
  by (rule post_weaken [OF ieee1284_open_post])
     (auto simp: refs_step_def own_refs_def life_rest_def truth_def split: if_splits)

lemma claim_refs: "post (ieee1284_claim E) t (\<lambda>_. refs_step t)"
  by (rule post_weaken [OF claim_post]) (simp add: refs_step_def own_refs_def)

lemma release_refs: "post (ieee1284_release E) t (\<lambda>_. refs_step t)"
  by (rule post_weaken [OF release_post]) (simp add: refs_step_def own_refs_def)

lemma life_refs: "keeps life m \<Longrightarrow> post m t (\<lambda>_. refs_step t)"
  by (erule post_keeps) (rule refs_step_life)

lemma run_api_refs: "post (run_api E c) t (\<lambda>_. refs_step t)"
proof (cases "guarded c")
  case True
  then show ?thesis by (intro life_refs guarded_life)
next
  case False
  then show ?thesis
    by (cases c) (simp_all add: post_result_iff open_refs claim_refs release_refs life_refs unguarded_life)
qed

lemma counted_on_port:
  assumes c: "counted s H" and m: "\<And>t. post m t (\<lambda>_. refs_step t)"
  shows "post (on_port p m) s (\<lambda>_ s'. counted s' H)"
proof (rule post_on_port)
  fix q i assume h: "heap s p = Some (q, i)"
  show "post m (port_state s q i) (\<lambda>_ t. counted (put_port s p t) H)"
    by (rule post_weaken [OF m], rule counted_put_port [OF c h])
       (use countedD [OF c h] in \<open>auto simp: refs_step_def own_refs_def split: if_splits\<close>)
qed

lemma stays_counted_on_port:
  "(\<And>t. post m t (\<lambda>_. refs_step t)) \<Longrightarrow> stays (\<lambda>s. counted s H) (on_port p m)"
  by (rule staysI) (rule counted_on_port)

text \<open>What leaves the ports alone leaves the counts alone.\<close>

lemma counted_view:
  assumes "port_view s' = port_view s"
  shows "counted s' H = counted s H"
proof -
  have "count_ok s' H = count_ok s H"
    by (rule ext, rule count_ok_cong) (use assms in \<open>simp_all add: port_view_def\<close>)
  with assms show ?thesis by (simp add: port_view_def counted_def)
qed

lemma stays_counted_view: "keeps port_view m \<Longrightarrow> stays (\<lambda>s. counted s H) m"
  by (erule stays_keeps) (rule counted_view)

lemma stays_counted_close: "stays (\<lambda>s. counted s H) (ieee1284_close E p)"
proof (rule staysI)
  fix s :: "'a lib" assume c: "counted s H"
  show "post (ieee1284_close E p) s (\<lambda>_ s'. counted s' H)"
  proof (cases "usable s H p")
    case True
    from total_post [OF close_total [OF c True]] show ?thesis by (rule post_weaken) simp
  next
    case False
    then have "heap s p = None" using live_usable [OF c] by (cases "heap s p") auto
    then show ?thesis by (simp add: ieee1284_close_def post_def bindp_def on_live_def)
  qed
qed

lemma stays_counted_fresh: "stays (\<lambda>s. counted s H) (get_fresh E p daisy buf len)"
  unfolding get_fresh_def Let_def
  by (intro stays_if stays_bindp stays_ret stays_case_prod stays_counted_on_port life_refs
      stays_counted_view [OF keeps_view_store(1)] stays_counted_view [OF keeps_view_store(2)])
     (simp_all add: api_defs keeps_if_claimed keeps_via life_intro)

lemma stays_counted_deviceid: "stays (\<lambda>s. counted s H) (ieee1284_get_deviceid E p daisy flags buf len)"
  unfolding ieee1284_get_deviceid_def probe_deviceid_def
  by (intro stays_if stays_bindp stays_ret stays_case_prod stays_counted_on_port stays_counted_close
      stays_counted_fresh open_refs claim_refs release_refs stays_counted_view [OF keeps_view_cached])

subsection \<open>Searching\<close>

definition list_refs :: "nat list option \<Rightarrow> nat multiset" where
  "list_refs list = (case list of None \<Rightarrow> {#} | Some ps \<Rightarrow> mset ps)"

lemma find_ports_counted:
  assumes c: "counted s H"
  shows "post (ieee1284_find_ports E) s (\<lambda>(r, list) s'. counted s' (H + list_refs list))"
proof -
  have free: "\<forall>p\<ge>next_addr s. heap s p = None" using c by (simp add: counted_def)
  have step: "counted s' (H + list_refs list)"
    if "search_inv (heap s) (next_addr s) s'" and "list_refs list = mset (found s')" for list and s' :: "'a lib"
    unfolding counted_def
  proof (intro conjI allI impI)
    note inv = that(1) [unfolded search_inv_def found_inv_def, THEN conjunct1]
    fix p
    show "count_ok s' (H + list_refs list) p"
    proof (cases "p < next_addr s")
      case True
      with inv have "p \<notin> set (found s')" by auto
      with True inv c that(2) show ?thesis
        by (subst count_ok_cong [of _ _ s _ H]) (simp_all add: counted_def count_mset_0_iff)
    next
      case False
      with free c count_ok_None [of s p H] have H: "count H p = 0" by (simp add: counted_def)
      show ?thesis
      proof (cases "p \<in> set (found s')")
        case True
        with inv have "listed (heap s' p)" by blast
        then obtain q i where "heap s' p = Some (q, i)" "fresh_port i" "refcount i = 1"
          by (auto simp: listed_def split: option.splits)
        moreover have "count (mset (found s')) p = 1"
          using inv True by (metis count_mset_set(1) distinct_count_atmost_1 set_mset_mset)
        ultimately show ?thesis
          using H that(2) by (simp add: count_ok_Some fresh_port_def truth_def)
      next
        case out: False
        with inv False have "heap s' p = None" by auto
        with out H that(2) show ?thesis by (simp add: count_ok_None count_mset_0_iff)
      qed
    qed
    show "next_addr s' \<le> p \<Longrightarrow> heap s' p = None" using inv by simp
  qed
  show ?thesis
  proof (rule post_weaken [OF find_ports_post [OF free]], clarify)
    fix r list and s' :: "'a lib"
    assume "search_inv (heap s) (next_addr s) s'"
      and "r = 0 \<longrightarrow> list = (if found s' = [] then None else Some (found s'))"
      and "r \<noteq> 0 \<longrightarrow> found s' = []" and "r = 0 \<or> r = E1284_NOMEM \<and> list = None"
    then show "counted s' (H + list_refs list)"
      by (intro step) (auto simp: list_refs_def split: if_splits)
  qed
qed

subsection \<open>Runs of a client\<close>

text \<open>
  What a client may do, and how each call changes the references it holds.  It frees lists it
  holds, and uses ports it holds or has open; between the calls the world may change.
\<close>

inductive client_step ::
  "'w env \<Rightarrow> 'w lib \<times> nat multiset \<Rightarrow> 'w lib \<times> nat multiset \<Rightarrow> bool" for E where
  step_find: "ieee1284_find_ports E s = Some (Ret (r, list) s') \<Longrightarrow>
     client_step E (s, H) (s', H + list_refs list)"
| step_free: "list_refs list \<subseteq># H \<Longrightarrow> ieee1284_free_ports list s = Some (Ret () s') \<Longrightarrow>
     client_step E (s, H) (s', H - list_refs list)"
| step_ref: "usable s H p \<Longrightarrow> ieee1284_ref p s = Some (Ret r s') \<Longrightarrow>
     client_step E (s, H) (s', add_mset p H)"
| step_unref: "usable s H p \<Longrightarrow> ieee1284_unref E p s = Some (Ret r s') \<Longrightarrow>
     client_step E (s, H) (s', H - {#p#})"
| step_close: "usable s H p \<Longrightarrow> ieee1284_close E p s = Some (Ret r s') \<Longrightarrow>
     client_step E (s, H) (s', H)"
| step_call: "usable s H p \<Longrightarrow> on_port p (run_api E c) s = Some (Ret r' s') \<Longrightarrow>
     client_step E (s, H) (s', H)"
| step_id: "usable s H p \<Longrightarrow> ieee1284_get_deviceid E p daisy flags buf len s = Some (Ret r'' s') \<Longrightarrow>
     client_step E (s, H) (s', H)"
| step_world: "client_step E (s, H) (s\<lparr>lworld := w, ltrace := tr\<rparr>, H)"

inductive client_run ::
  "'w env \<Rightarrow> 'w lib \<times> nat multiset \<Rightarrow> 'w lib \<times> nat multiset \<Rightarrow> bool" for E where
  run_start: "client_run E c c"
| run_step: "client_run E c c1 \<Longrightarrow> client_step E c1 c2 \<Longrightarrow> client_run E c c2"

lemma client_step_counted:
  assumes "client_step E c c'" and "counted (fst c) (snd c)"
  shows "counted (fst c') (snd c')"
  using assms
proof (induction rule: client_step.induct)
  case (step_find s r list s' H)
  then show ?case using postD [OF find_ports_counted] by fastforce
next
  case (step_free list H s s')
  show ?case
  proof (cases list)
    case None
    with step_free show ?thesis by (simp add: list_refs_def ieee1284_free_ports_def ret_def)
  next
    case (Some ps)
    with step_free show ?thesis
      using postD [OF total_post [OF free_ports_total]] by (fastforce simp: list_refs_def)
  qed
next
  case (step_ref s H p r s')
  then show ?case using postD [OF total_post [OF ref_total]] by fastforce
next
  case (step_unref s H p r s')
  then show ?case using postD [OF total_post [OF unref_total]] by fastforce
next
  case (step_close s H p r s')
  then show ?case using postD [OF total_post [OF close_total]] by fastforce
next
  case (step_call s H p c r' s')
  then show ?case using postD [OF counted_on_port [OF _ run_api_refs]] by fastforce
next
  case (step_id s H p daisy flags buf len r'' s')
  then show ?case using postD [OF staysD [OF stays_counted_deviceid]] by fastforce
next
  case (step_world s H tr w)
  then show ?case using counted_view [of "s\<lparr>lworld := w, ltrace := tr\<rparr>" s] by (simp add: port_view_def)
qed

lemma client_run_counted:
  "client_run E c c' \<Longrightarrow> counted (fst c) (snd c) \<Longrightarrow> counted (fst c') (snd c')"
  by (induction rule: client_run.induct) (blast dest: client_step_counted)+

lemma client_run_trans: "client_run E c c1 \<Longrightarrow> client_run E c1 c2 \<Longrightarrow> client_run E c c2"
  by (rotate_tac, induction rule: client_run.induct) (blast intro: run_step)+

lemmas client_run_steps = client_run_trans [OF run_step [OF run_start]]

lemma counted_start: "heap s = (\<lambda>_. None) \<Longrightarrow> counted s {#}"
  by (simp add: counted_def count_ok_def)

text \<open>In a run from the empty heap the ports in the heap are exactly the ports the client may use.\<close>

lemma client_run_live:
  assumes "client_run E (s, {#}) (s', H)" and "heap s = (\<lambda>_. None)"
  shows "heap s' p \<noteq> None \<longleftrightarrow> usable s' H p"
proof -
  have c: "counted s' H" using client_run_counted [OF assms(1)] counted_start [OF assms(2)] by simp
  show ?thesis
  proof
    assume "usable s' H p"
    then obtain q i where "heap s' p = Some (q, i)" using usable_live [OF c] by blast
    then show "heap s' p \<noteq> None" by simp
  qed (use live_usable [OF c] in auto)
qed

subsection \<open>What closing and a failed probe leave behind\<close>

text \<open>
  Closing does not clear \<^verbatim>\<open>claimed\<close>: a port that is closed while claimed, with a reference left,
  still passes the guard of the transfer functions.
\<close>

lemma close_keeps_claim:
  assumes h: "heap s p = Some (q, i)" and op: "truth (opened i)" and refs: "1 < refcount i"
  shows "total (ieee1284_close E p) s (\<lambda>r s'. r = E1284_OK \<and>
     (\<exists>q' i'. heap s' p = Some (q', i') \<and> opened i' = 0 \<and> claimed i' = claimed i \<and> fn i' = fn i))"
proof -
  let ?Q = "\<lambda>r s'. r = E1284_OK \<and>
     (\<exists>q' i'. heap s' p = Some (q', i') \<and> opened i' = 0 \<and> claimed i' = claimed i \<and> fn i' = fn i)"
  have drop: "total (bindp (deref_port p) (\<lambda>_. ret E1284_OK)) s2 ?Q"
    if t: "life t = life (port_state s q i)" and h2: "heap s2 p = Some (pub t, (prt t)\<lparr>opened := 0\<rparr>)"
    for s2 :: "'a lib" and t
    by (rule total_bindp, rule total_weaken [OF deref_port_total [OF h2]], rule total_ret)
       (use t refs in \<open>simp add: life_def\<close>)
  show ?thesis
    unfolding ieee1284_close_def
    by (rule total_bindp, rule total_on_live [OF h], rule total_if, use op in simp, rule total_bindp,
        rule total_on_port [OF h], rule total_weaken [OF cleanup_total], rule total_bindp,
        rule total_on_port, simp, rule total_upd, rule drop, assumption)
       simp
qed

lemma deviceid_claim_leak:
  assumes op: "on_port p (ieee1284_open E 0 None) s = Some (Ret (E1284_OK, c) s1)"
    and cl: "on_port p (ieee1284_claim E) s1 = Some (Ret r s2)" "r \<noteq> E1284_OK"
    and h: "heap s p = Some (q, i)"
  shows "ieee1284_get_deviceid E p daisy F1284_FRESH buf len s = Some (Ret (r, buf) s2) \<and>
     (\<exists>q' i'. heap s2 p = Some (q', i') \<and> opened i' = 1 \<and> refcount i' = refcount i + 1)"
proof -
  from op h have o: "\<exists>q' i'. heap s1 p = Some (q', i') \<and> opened i' = 1 \<and> refcount i' = refcount i + 1"
    using postD [OF ieee1284_open_post] by (fastforce simp: on_port_Ret)
  with cl(1) have "\<exists>q' i'. heap s2 p = Some (q', i') \<and> opened i' = 1 \<and> refcount i' = refcount i + 1"
    using postD [OF claim_post] by (fastforce simp: on_port_Ret)
  then show ?thesis
    using probe_claim_fails [OF op cl] by (simp add: ieee1284_get_deviceid_def truth_def)
qed

end
