(* ===== verification/Open_Ports.thy ===== *)
theory Open_Ports
  imports Lifecycle Port_Soundness
begin

section \<open>Open ports in the hands of a client\<close>

text \<open>
  The soundness of the calls on one port, carried to the whole library: in every state that a
  client can reach, each open port has a table that its private data match, and no call that the
  client makes on it faults.  The functions that count references, close the port or read its
  device ID take the address of the port, so they are calls of the library, not of one port.
\<close>

subsection \<open>Types of ports\<close>

text \<open>The port has an access method whose functions find the private data they need.\<close>

definition working :: "parport_internal \<Rightarrow> bool" where
  "working i \<longleftrightarrow> truth (opened i) \<and>
     (fn i = io_access_methods \<or> fn i = dev_port_methods \<or>
      (fn i = ppdev_access_methods \<or>
       fn i = ppdev_access_methods\<lparr>m_do_nack_handshake := Some Default_do_nack_handshake\<rparr>) \<and>
      access_priv i \<noteq> None)"

definition in_service :: "'w lib \<Rightarrow> nat \<Rightarrow> bool" where
  "in_service s p \<longleftrightarrow> (case heap s p of None \<Rightarrow> False | Some (q, i) \<Rightarrow> working i)"

text \<open>An open port works, or it has the table of the Windows NT driver.\<close>

definition typed :: "parport_internal \<Rightarrow> bool" where
  "typed i \<longleftrightarrow> truth (opened i) \<longrightarrow> working i \<or> fn i = lpt_access_methods"

lemma well_typed_working: "well_typed s = working (prt s)"
  by (auto simp: well_typed_def working_def io_ready_def ppdev_ok_def ppdev_table_def)

lemma working_typed: "working i \<Longrightarrow> typed i"
  by (simp add: typed_def)

lemma closed_typed: "opened i = 0 \<Longrightarrow> typed i"
  by (simp add: typed_def truth_def)

subsection \<open>Calls on one port\<close>

lemma open_keeps_typed:
  assumes "typed (prt s)"
  shows "post (ieee1284_open E flags caps) s (\<lambda>_ s'. typed (prt s'))"
proof (cases "truth (opened (prt s))")
  case True
  with assms show ?thesis by (simp add: ieee1284_open_twice post_def)
next
  case False
  then have "life_rest s' = life_rest s \<Longrightarrow> typed (prt s')" for s' :: "'a sys"
    by (simp add: typed_def life_rest_def)
  then show ?thesis
    by (intro post_weaken [OF post_conj [OF open_typed ieee1284_open_post]])
       (auto simp: well_typed_working lpt_port_def typed_def split: prod.splits if_splits)
qed

lemma run_api_fn:
  fixes s :: "'w sys"
  assumes "\<And>f n. c \<noteq> Open f n"
  shows "post (run_api E c) s (\<lambda>_ s'. fn (prt s') = fn (prt s) \<and> opened (prt s') = opened (prt s))"
proof -
  have life: "post m s (\<lambda>_ s'. fn (prt s') = fn (prt s) \<and> opened (prt s') = opened (prt s))"
    if "keeps life m" for m :: "('b, 'w sys) prog"
    by (rule post_weaken [OF keepsD [OF that]]) (simp add: life_def)
  show ?thesis
  proof (cases "guarded c")
    case False
    show ?thesis
    proof (cases c)
      case (Open f n)
      with assms show ?thesis by blast
    qed (use False in \<open>simp_all add: post_result_iff life unguarded_life post_weaken [OF claim_post]
          post_weaken [OF release_post]\<close>)
  qed (intro life guarded_life)
qed

lemma run_api_keeps_typed:
  assumes "typed (prt s)"
  shows "post (run_api E c) s (\<lambda>_ s'. typed (prt s'))"
proof (cases "\<exists>f n. c = Open f n")
  case True
  with open_keeps_typed [OF assms] show ?thesis by (auto simp: post_result_iff)
next
  case False
  show ?thesis
  proof (cases "working (prt s)")
    case True
    then have "sound (run_api E c) s (\<lambda>_. well_typed)"
      by (intro well_typed_sound) (simp add: well_typed_working)
    then show ?thesis
      by (rule post_weaken [OF sound_post]) (simp add: well_typed_working working_typed)
  next
    case other: False
    show ?thesis
      by (rule post_weaken [OF run_api_fn]) (use False other assms in \<open>auto simp: typed_def\<close>)
  qed
qed

subsection \<open>The heap\<close>

definition typed_but :: "nat set \<Rightarrow> 'w lib \<Rightarrow> bool" where
  "typed_but P s \<longleftrightarrow> (\<forall>p q i. p \<notin> P \<longrightarrow> heap s p = Some (q, i) \<longrightarrow> typed i)"

abbreviation typed_heap :: "'w lib \<Rightarrow> bool" where
  "typed_heap \<equiv> typed_but {}"

lemma typed_heapD: "typed_heap s \<Longrightarrow> heap s p = Some (q, i) \<Longrightarrow> typed i"
  by (simp add: typed_but_def)

lemma typed_on_port:
  assumes "typed_but P s" and "\<And>q i. heap s p = Some (q, i) \<Longrightarrow> typed_but P s \<Longrightarrow> (p \<notin> P \<longrightarrow> typed i) \<Longrightarrow>
     post m (port_state s q i) (\<lambda>_ t. p \<notin> Q \<longrightarrow> typed (prt t))" and "P \<subseteq> insert p Q"
  shows "post (on_port p m) s (\<lambda>_. typed_but Q)"
proof (rule post_on_port)
  fix q i assume h: "heap s p = Some (q, i)"
  have "p \<notin> P \<longrightarrow> typed i" using assms(1) h by (auto simp: typed_but_def)
  from assms(2) [OF h assms(1) this]
  show "post m (port_state s q i) (\<lambda>_ t. typed_but Q (put_port s p t))"
    by (rule post_weaken) (use assms(1,3) in \<open>auto simp: typed_but_def\<close>)
qed

lemma stays_typed_on_port:
  assumes "\<And>t. typed (prt t) \<Longrightarrow> post m t (\<lambda>_ t'. typed (prt t'))"
  shows "stays typed_heap (on_port p m)"
  by (rule staysI, erule typed_on_port) (auto intro: post_weaken [OF assms])

lemma stays_typed_view: "keeps port_view m \<Longrightarrow> stays typed_heap m"
  by (erule stays_keeps) (simp add: port_view_def typed_but_def)

lemma stays_on_live: "stays I (on_live p f)"
  by (rule staysI) (auto simp: post_def on_live_def split: option.splits)

lemma typed_upd_refs: "typed (i\<lparr>refcount := n\<rparr>) = typed i"
  by (simp add: typed_def working_def)

lemma stays_typed_counts:
  "stays typed_heap (deref_port p)" "stays typed_heap (ieee1284_ref p)"
proof -
  have free: "stays typed_heap (modify (\<lambda>s. s\<lparr>heap := (heap s)(p := None)\<rparr>))"
    by (rule staysI) (auto simp: post_modify typed_but_def)
  show "stays typed_heap (deref_port p)" "stays typed_heap (ieee1284_ref p)"
    unfolding deref_port_def ieee1284_ref_def
    by (intro stays_bindp stays_on_live stays_if stays_ret free stays_typed_on_port post_upd;
        simp add: typed_upd_refs)+
qed

text \<open>Between the clean-up and the reset of \<^verbatim>\<open>opened\<close> the port itself has no type.\<close>

lemma stays_typed_close: "stays typed_heap (ieee1284_close E p)"
proof (rule staysI)
  fix s :: "'a lib" assume s: "typed_heap s"
  have clean: "post (on_port p m) s1 (\<lambda>_. typed_but {p})" if "typed_heap s1"
    for m :: "(unit, 'a sys) prog" and s1 :: "'a lib"
    by (rule typed_on_port [OF that]) (auto simp: post_def)
  have reset: "post (on_port p (upd (\<lambda>i. i\<lparr>opened := 0\<rparr>))) s1 (\<lambda>_. typed_heap)"
    if "typed_but {p} s1" for s1 :: "'a lib"
    by (rule typed_on_port [OF that]) (auto intro!: post_upd closed_typed)
  have finish: "post (bindp (deref_port p) (\<lambda>_. ret E1284_OK)) s1 (\<lambda>_. typed_heap)"
    if "typed_heap s1" for s1 :: "'a lib"
  proof -
    have "stays typed_heap (bindp (deref_port p) (\<lambda>_. ret E1284_OK) :: (int, 'a lib) prog)"
      by (intro stays_bindp stays_typed_counts stays_ret)
    from staysD [OF this that] show ?thesis .
  qed
  show "post (ieee1284_close E p) s (\<lambda>_. typed_heap)"
    unfolding ieee1284_close_def
    by (rule post_bindp, rule post_weaken [OF staysD [OF stays_on_live [where I = typed_heap] s]], rule post_if, rule post_ret,
        assumption, rule post_bindp, rule post_weaken [OF clean], assumption, rule post_bindp,
        rule post_weaken [OF reset], assumption, rule finish, assumption)
qed

lemma stays_typed_unref: "stays typed_heap (ieee1284_unref E p)"
  unfolding ieee1284_unref_def
  by (intro stays_bindp stays_on_live stays_if stays_ret stays_typed_close stays_typed_counts)

lemma stays_typed_free: "stays typed_heap (ieee1284_free_ports list)"
  unfolding ieee1284_free_ports_def
  by (intro stays_case_option stays_ret stays_stmts) (auto intro: stays_bindp stays_ret stays_typed_counts)


subsection \<open>Runs of a client\<close>

lemma calls_keep_typed:
  assumes "typed (prt t)"
  shows "post (ieee1284_terminate E) t (\<lambda>_ t'. typed (prt t'))"
    "post (ieee1284_negotiate E mode) t (\<lambda>_ t'. typed (prt t'))"
    "post (ieee1284_nibble_read E flags len) t (\<lambda>_ t'. typed (prt t'))"
    "post (ieee1284_claim E) t (\<lambda>_ t'. typed (prt t'))"
    "post (ieee1284_release E) t (\<lambda>_ t'. typed (prt t'))"
  using run_api_keeps_typed [OF assms, of E Terminate] run_api_keeps_typed [OF assms, of E "Negotiate mode"]
    run_api_keeps_typed [OF assms, of E "Nibble_read flags len"]
    run_api_keeps_typed [OF assms, of E Claim] run_api_keeps_typed [OF assms, of E Release]
  by (simp_all add: post_result_iff)

lemma stays_typed_deviceid: "stays typed_heap (ieee1284_get_deviceid E p daisy flags buf len)"
proof -
  have "stays typed_heap (get_fresh E p daisy buf len)" for buf
    unfolding get_fresh_def Let_def
    by (intro stays_if stays_bindp stays_ret stays_case_prod stays_typed_on_port calls_keep_typed
        stays_typed_view [OF keeps_view_store(1)] stays_typed_view [OF keeps_view_store(2)])
  then show ?thesis
    unfolding ieee1284_get_deviceid_def probe_deviceid_def
    by (intro stays_if stays_bindp stays_ret stays_case_prod stays_typed_on_port stays_typed_close
        open_keeps_typed calls_keep_typed stays_typed_view [OF keeps_view_cached])
qed

text \<open>The ports that a search adds are closed.\<close>

lemma find_ports_typed:
  assumes "counted s H" and "typed_heap s"
  shows "post (ieee1284_find_ports E) s (\<lambda>_. typed_heap)"
proof -
  have free: "\<forall>p\<ge>next_addr s. heap s p = None" using assms(1) by (simp add: counted_def)
  have "post (ieee1284_find_ports E) s (\<lambda>_. found_inv (heap s) (next_addr s))"
    by (rule post_weaken [OF find_ports_post [OF free]]) (auto simp: search_inv_def)
  then show ?thesis
  proof (rule post_weaken)
    fix s' :: "'a lib"
    assume inv: "found_inv (heap s) (next_addr s) s'"
    show "typed_heap s'"
      unfolding typed_but_def
    proof (intro allI impI)
      fix p q i assume i: "heap s' p = Some (q, i)"
      show "typed i"
      proof (cases "p < next_addr s")
        case True
        with inv i have "heap s p = Some (q, i)" by (simp add: found_inv_def)
        with assms(2) show ?thesis by (rule typed_heapD)
      next
        case False
        with inv i have "p \<in> set (found s')"
          by (cases "p < next_addr s'") (auto simp: found_inv_def)
        with inv have "listed (heap s' p)" by (simp add: found_inv_def)
        with i show ?thesis by (auto simp: listed_def fresh_port_def intro: closed_typed)
      qed
    qed
  qed
qed

lemma client_step_typed:
  assumes "client_step E c c'" and "counted (fst c) (snd c)" and "typed_heap (fst c)"
  shows "typed_heap (fst c')"
  using assms
proof (induction rule: client_step.induct)
  case (step_find s r list s' H)
  then show ?case using postD [OF find_ports_typed] by fastforce
next
  case (step_free list H s s')
  then show ?case using postD [OF staysD [OF stays_typed_free]] by fastforce
next
  case (step_ref s H p r s')
  then show ?case using postD [OF staysD [OF stays_typed_counts(2)]] by fastforce
next
  case (step_unref s H p r s')
  then show ?case using postD [OF staysD [OF stays_typed_unref]] by fastforce
next
  case (step_close s H p r s')
  then show ?case using postD [OF staysD [OF stays_typed_close]] by fastforce
next
  case (step_call s H p c r' s')
  then show ?case using postD [OF staysD [OF stays_typed_on_port [OF run_api_keeps_typed]]] by fastforce
next
  case (step_id s H p daisy flags buf len r'' s')
  then show ?case using postD [OF staysD [OF stays_typed_deviceid]] by fastforce
qed (simp add: typed_but_def)

lemma client_run_typed:
  assumes "client_run E (s, {#}) c" and "heap s = (\<lambda>_. None)"
  shows "counted (fst c) (snd c) \<and> typed_heap (fst c)"
  using assms
proof (induction "(s, {#} :: nat multiset)" c rule: client_run.induct)
  case run_start
  then show ?case by (simp add: counted_start typed_but_def)
next
  case (run_step c1 c2)
  then show ?case using client_step_counted client_step_typed by blast
qed

subsection \<open>The calls on an open port\<close>

lemma in_serviceD:
  assumes "in_service s p"
  obtains q i where "heap s p = Some (q, i)" and "working i"
  using assms by (auto simp: in_service_def split: option.splits)

lemma in_service_open: "in_service s p \<Longrightarrow> is_open s p"
  by (auto simp: is_open_def working_def elim!: in_serviceD)

lemma open_in_service:
  assumes "typed_heap s" and "is_open s p" and "\<And>q i. heap s p = Some (q, i) \<Longrightarrow> fn i \<noteq> lpt_access_methods"
  shows "in_service s p"
  using assms typed_heapD [OF assms(1), of p]
  by (auto simp: is_open_def in_service_def typed_def split: option.splits)

lemma sound_on_port:
  assumes "heap s p = Some (q, i)" and "sound m (port_state s q i) (\<lambda>a t. Q a (put_port s p t))"
  shows "sound (on_port p m) s Q"
  using assms by (auto simp: sound_def on_port_def split: option.splits outcome.splits)

lemma in_service_call:
  assumes "in_service s p"
  shows "sound (on_port p (run_api E c)) s (\<lambda>_ s'. in_service s' p)"
proof -
  obtain q i where h: "heap s p = Some (q, i)" and i: "working i" using assms by (rule in_serviceD)
  from i have "well_typed (port_state s q i)" by (simp add: well_typed_working)
  then show ?thesis
    by (intro sound_on_port [OF h] sound_weaken [OF well_typed_sound])
       (auto simp: in_service_def well_typed_working)
qed

lemma in_service_refs:
  assumes "in_service s p"
  shows "total (ieee1284_ref p) s (\<lambda>_ s'. in_service s' p)"
    and "counted s H \<Longrightarrow> total (ieee1284_unref E p) s (\<lambda>_ s'.
      if p \<in># H then in_service s' p else heap s' p = None)"
proof -
  obtain q i where h: "heap s p = Some (q, i)" and i: "working i" using assms by (rule in_serviceD)
  show "total (ieee1284_ref p) s (\<lambda>_ s'. in_service s' p)"
    unfolding ieee1284_ref_def using h i
    by (simp add: total_def bindp_def on_port_def on_live_def upd_def modify_def in_service_def working_def)
  assume c: "counted s H"
  have op: "truth (opened i)" using i by (simp add: working_def)
  with countedD [OF c h] have refs: "refcount i = int (count H p) + 1" by simp
  show "total (ieee1284_unref E p) s (\<lambda>_ s'. if p \<in># H then in_service s' p else heap s' p = None)"
  proof (cases "p \<in># H")
    case True
    then have "0 < count H p" by simp
    with refs have "refcount i \<noteq> 1" by linarith
    with True i h show ?thesis
      unfolding ieee1284_unref_def
      by (auto intro!: total_bindp total_on_live [OF h] total_weaken [OF deref_port_total [OF h]]
          simp: in_service_def working_def)
  next
    case False
    then have "count H p = 0" by (simp add: count_eq_zero_iff)
    have u: "usable s H p" using h op by (simp add: usable_def is_open_def)
    have diff: "H - {#p#} = H" using False by (simp add: diff_single_trivial)
    have "refcount i = 1" using refs \<open>count H p = 0\<close> by simp
    have gone: "heap s' p = None" if "counted s' H" and "\<not> is_open s' p" for s' :: "'a lib"
      using that False live_usable [OF that(1)] by (cases "heap s' p") (auto simp: usable_def)
    from \<open>refcount i = 1\<close> False op show ?thesis
      unfolding ieee1284_unref_def
      by (auto intro!: total_bindp total_on_live [OF h] total_ret total_weaken [OF close_total [OF c u]] gone)
  qed
qed

text \<open>The device ID of a port that is open already: the kernel's, or the probe is refused.\<close>

lemma in_service_view: "port_view s' = port_view s \<Longrightarrow> in_service s' p = in_service s p"
  by (simp add: port_view_def in_service_def)

lemma probe_open_refused:
  assumes "in_service s p"
  shows "probe_deviceid E p daisy buf len s = Some (Ret (E1284_INVALIDPORT, buf) s)"
proof -
  obtain q i where h: "heap s p = Some (q, i)" and i: "working i" using assms by (rule in_serviceD)
  then have "truth (opened (prt (port_state s q i)))" by (simp add: working_def)
  from ieee1284_open_twice [OF this, of E 0 None] h
  have "on_port p (ieee1284_open E 0 None) s = Some (Ret (E1284_INVALIDPORT, None) s)"
    by (simp add: on_port_def fun_upd_idem)
  then show ?thesis by (simp add: probe_deviceid_def bindp_def ret_def)
qed

lemma in_service_deviceid:
  assumes E: "read_ok E" and s: "in_service s p" and daisy: "daisy < 2 ^ 31"
    and len: "3 \<le> len" "len \<le> length buf" "len < 2 ^ 31"
  shows "total (ieee1284_get_deviceid E p daisy flags buf len) s (\<lambda>(_, b) s'.
     length b = length buf \<and> in_service s' p)"
proof -
  have p: "heap s p \<noteq> None" using s by (auto elim: in_serviceD)
  have probe: "total (probe_deviceid E p daisy b len) s1 (\<lambda>(_, b) s'. length b = length buf \<and> in_service s' p)"
    if "in_service s1 p" "length b = length buf" for b and s1 :: "'a lib"
    using probe_open_refused [OF that(1)] that by (simp add: total_def)
  have cached: "total (cached_deviceid E p daisy buf len) s (\<lambda>(r, b) s'. length b = length buf \<and> in_service s' p)"
    by (rule total_weaken [OF cached_total [OF E p daisy len]]) (auto dest: in_service_view [THEN iffD2, OF _ s])
  have "total (if -1 < r then ret (r, b) else if r = - ENODEVID then ret (E1284_NOTAVAIL, b)
      else probe_deviceid E p daisy b len) s1 (\<lambda>(_, b) s'. length b = length buf \<and> in_service s' p)"
    if "length b = length buf \<and> in_service s1 p" for r b and s1 :: "'a lib"
    using that by (intro total_if total_ret probe) simp_all
  with probe [OF s] s show ?thesis
    unfolding ieee1284_get_deviceid_def
    by (intro total_if total_bindp total_weaken [OF cached]) (simp_all add: total_ret split_beta)
qed

end
