(* ===== verification/Observer.thy ===== *)
theory Observer
  imports Port_Registers
begin

section \<open>Devices that watch the registers\<close>

text \<open>
  What a device at the other end of the cable makes of a run is a fold over the trace of accesses
  to the three registers. The locale takes the step of the device, and says what every operation
  of direct I/O by the instructions feeds it: a write of the data lines, one write of the control
  register, any number of readings of the status, nothing. The devices of \<open>Receiver\<close>
  and \<open>Sender\<close> are of this kind.
\<close>

definition observe :: "(u16 \<Rightarrow> event \<Rightarrow> 'x \<Rightarrow> 'x) \<Rightarrow> 'x \<Rightarrow> 'w sys \<Rightarrow> 'x" where
  "observe step start s = fold (step (ucast (base (prt s)))) (trace s) start"

text \<open>The fields of the port that decide how it is reached.\<close>

definition footing :: "'w sys \<Rightarrow> parport_access_methods \<times> 64 word \<times> u8" where
  "footing s = (fn (prt s), base (prt s), ctr (prt s))"

lemma footingD:
  assumes "footing s' = footing s"
  shows "fn (prt s') = fn (prt s)" "base (prt s') = base (prt s)" "ctr (prt s') = ctr (prt s)"
    "raw_io_port s' = raw_io_port s"
  using assms by (simp_all add: footing_def raw_io_port_def)

text \<open>The lines nStrobe and nAutoFd, which the register holds inverted, after a change.\<close>

lemma line_bit:
  assumes "i = 0 \<or> i = 1"
  shows "bit (frob c m (v XOR (m AND C1284_INVERTED))) i \<longleftrightarrow>
     (if bit m i then \<not> bit v i else bit c i \<noteq> bit v i)"
  using assms by (auto simp: frob_def bit_simps C1284_INVERTED_val)

lemma bit_control_lines: "i = 0 \<or> i = 1 \<Longrightarrow> bit control_lines i"
  by (auto simp: control_lines_val)

lemma post_via_raw:
  "raw_io_port s \<Longrightarrow> sel io_access_methods = Some f \<Longrightarrow> post (run f) s Q \<Longrightarrow> post (via sel run) s Q"
  by (rule post_via) (simp add: raw_io_port_def)

text \<open>Whatever an operation of direct I/O does, the device goes on from what it has seen.\<close>

lemma observe_goes_on:
  fixes s :: "'w sys"
  assumes "\<And>a d tr. solid (within a d tr) m" and "io_ready s"
  shows "post m s (\<lambda>_ s'. \<exists>evs. observe step start s' =
     fold (step (ucast (base (prt s)))) evs (observe step start s))"
proof -
  have "within (base (prt s)) (fd (prt s)) (trace s) s" by (simp add: within_def assms(2))
  from sound_post [OF solidD [OF assms(1) this]] show ?thesis
    by (rule post_weaken) (auto simp: within_def observe_def)
qed

fun register_access :: "event \<Rightarrow> bool" where
  "register_access (Inb p b) = True"
| "register_access (Outb b p) = True"
| "register_access e = False"

locale observer =
  fixes step :: "u16 \<Rightarrow> event \<Rightarrow> 'x \<Rightarrow> 'x" and start :: 'x
  assumes unseen: "\<not> register_access e \<Longrightarrow> step a e x = x"
begin

lemma pause_unseen: "step a (Pause v) x = x"
  by (rule unseen) simp

lemma observe_events:
  "observe step start (s\<lparr>world := w, trace := trace s @ ev\<rparr>) =
     fold (step (ucast (base (prt s)))) ev (observe step start s)"
  by (simp add: observe_def)

lemma observe_prt:
  "base p = base (prt s) \<Longrightarrow> observe step start (s\<lparr>prt := p\<rparr>) = observe step start s"
  by (simp add: observe_def)

text \<open>The clock is not seen.\<close>

lemma keeps_unseen:
  "(\<And>r e. e \<in> set (ev r) \<Longrightarrow> \<not> register_access e) \<Longrightarrow>
     keeps (\<lambda>s. (footing s, observe step start s)) (env_call f ev)"
proof (intro keepsI post_env_call)
  fix s :: "'w sys" and r w
  assume ev: "\<And>r e. e \<in> set (ev r) \<Longrightarrow> \<not> register_access e"
  have "fold (step a) es x = x" if "\<And>e. e \<in> set es \<Longrightarrow> \<not> register_access e" for a es x
    using that by (induction es) (simp_all add: unseen)
  with ev show "(footing (s\<lparr>world := w, trace := trace s @ ev r\<rparr>),
      observe step start (s\<lparr>world := w, trace := trace s @ ev r\<rparr>)) = (footing s, observe step start s)"
    by (simp add: footing_def observe_events)
qed

lemma keeps_unseen_do:
  "(\<And>e. e \<in> set ev \<Longrightarrow> \<not> register_access e) \<Longrightarrow>
     keeps (\<lambda>s. (footing s, observe step start s)) (env_do f ev)"
  using keeps_unseen [of "\<lambda>_ :: unit. ev" "\<lambda>w. ((), f w)"]
  by (simp add: keeps_def post_def env_call_def env_do_def modify_def)

lemma clock_unseen: "keeps_clock (\<lambda>s. (footing s, observe step start s)) E"
  unfolding keeps_clock_def gettimeofday_def ftime_def
  by (intro conjI allI keeps_unseen keeps_unseen_do) auto

lemma time_unseen:
  "keeps (\<lambda>s. (footing s, observe step start s)) (delay E d)"
  "keeps (\<lambda>s. (footing s, observe step start s)) (udelay E n)"
  by (intro keeps_delay_quiet keeps_udelay_quiet clock_unseen)+

text \<open>A write of a register.\<close>

lemma outb_observed:
  assumes "raw_io_port s" and "in_out_build (env_build E)"
  shows "post (do_outb E c p) s (\<lambda>_ s'. prt s' = prt s \<and>
     observe step start s' = step (ucast (base (prt s))) (Outb c (ucast p)) (observe step start s))"
proof -
  have "post (raw_outb E c p) s (\<lambda>_ s'. prt s' = prt s \<and>
     observe step start s' = step (ucast (base (prt s))) (Outb c (ucast p)) (observe step start s))"
    using assms(2) unfolding raw_outb_def io_h_outb_p_def
    by (auto simp: observe_def pause_unseen intro!: post_bindp post_env_do)
  moreover have "m_do_outb (fn (prt s)) = Some Io_raw_outb"
    using assms(1) by (simp add: raw_io_port_def io_access_methods_def)
  ultimately show ?thesis
    unfolding do_outb_def slot_def by (intro post_bindp post_gets) (simp add: call_def)
qed

lemma write_data_observed:
  assumes "raw_io_port s" and "in_out_build (env_build E)"
  shows "post (p_write_data (port_pins E) b) s (\<lambda>_ s'. footing s' = footing s \<and>
     observe step start s' = step (ucast (base (prt s))) (Outb b (ucast (base (prt s)))) (observe step start s))"
  unfolding port_pins_def pins.simps
proof (rule post_via_raw [OF assms(1)])
  show "m_write_data io_access_methods = Some Io_write_data" by (simp add: io_access_methods_def)
  show "post (run_write_data E b Io_write_data) s (\<lambda>_ s'. footing s' = footing s \<and>
     observe step start s' = step (ucast (base (prt s))) (Outb b (ucast (base (prt s)))) (observe step start s))"
    unfolding run_write_data.simps io_write_data_def
    by (intro post_bindp post_gets post_weaken [OF outb_observed [OF assms]]) (simp add: footing_def)
qed

text \<open>A change of the control lines is one write of the register, of what the soft copy holds then.\<close>

definition control_written :: "'w sys \<Rightarrow> 'w sys \<Rightarrow> bool" where
  "control_written s s' \<longleftrightarrow> fn (prt s') = fn (prt s) \<and> base (prt s') = base (prt s) \<and>
     observe step start s' = step (ucast (base (prt s)))
       (Outb (ctr (prt s')) (ucast (base (prt s)) + 2)) (observe step start s)"

lemma raw_frob_observed:
  assumes "raw_io_port s" and "in_out_build (env_build E)"
  shows "post (io_raw_frob_control E m v) s (\<lambda>_ s'. control_written s s' \<and>
     ctr (prt s') = frob (ctr (prt s)) m (v XOR (m AND C1284_INVERTED)))"
  unfolding io_raw_frob_control_def Let_def
  by (intro post_bindp [of "gets _"] post_gets post_bindp [of "do_outb _ _ _"]
      post_weaken [OF outb_observed [OF assms]] post_upd)
     (simp add: control_written_def observe_prt ucast_offset)

lemma write_control_observed:
  assumes "raw_io_port s" and "in_out_build (env_build E)" and "c AND 0x20 = 0"
  shows "post (p_write_control (port_pins E) c) s (\<lambda>_ s'. control_written s s' \<and>
     bit (ctr (prt s')) 0 = (\<not> bit c 0) \<and> bit (ctr (prt s')) 1 = (\<not> bit c 1))"
  unfolding port_pins_def pins.simps
proof (rule post_via_raw [OF assms(1)])
  show "m_write_control io_access_methods = Some Io_write_control" by (simp add: io_access_methods_def)
  show "post (run_write_control E c Io_write_control) s (\<lambda>_ s'. control_written s s' \<and>
     bit (ctr (prt s')) 0 = (\<not> bit c 0) \<and> bit (ctr (prt s')) 1 = (\<not> bit c 1))"
    unfolding run_write_control.simps io_write_control_def
    by (simp only: assms(3) if_False simp_thms bindp_ret_left,
        rule post_weaken [OF raw_frob_observed [OF assms(1,2)]])
       (simp add: line_bit bit_and_iff bit_control_lines)
qed

lemma frob_control_observed:
  assumes "raw_io_port s" and "in_out_build (env_build E)" and "m AND 0x20 = 0"
  shows "post (p_frob_control (port_pins E) m v) s (\<lambda>_ s'. control_written s s' \<and>
     (\<forall>i. i = 0 \<or> i = 1 \<longrightarrow>
        bit (ctr (prt s')) i = (if bit m i then \<not> bit v i else bit (ctr (prt s)) i \<noteq> bit v i)))"
  unfolding port_pins_def pins.simps
proof (rule post_via_raw [OF assms(1)])
  show "m_frob_control io_access_methods = Some Io_frob_control" by (simp add: io_access_methods_def)
  show "post (run_frob_control E m v Io_frob_control) s (\<lambda>_ s'. control_written s s' \<and>
     (\<forall>i. i = 0 \<or> i = 1 \<longrightarrow>
        bit (ctr (prt s')) i = (if bit m i then \<not> bit v i else bit (ctr (prt s)) i \<noteq> bit v i)))"
    unfolding run_frob_control.simps io_frob_control_def
    by (simp only: assms(3) if_False simp_thms bindp_ret_left,
        rule post_weaken [OF raw_frob_observed [OF assms(1,2)]])
       (auto simp: line_bit bit_and_iff bit_control_lines)
qed

lemma data_dir_observed:
  assumes "raw_io_port s" and "in_out_build (env_build E)"
  shows "post (p_data_dir (port_pins E) r) s (\<lambda>_ s'. control_written s s' \<and>
     bit (ctr (prt s')) 0 = bit (ctr (prt s)) 0 \<and> bit (ctr (prt s')) 1 = bit (ctr (prt s)) 1)"
  unfolding port_pins_def pins.simps
proof (rule post_via_raw [OF assms(1)])
  show "m_data_dir io_access_methods = Some Io_data_dir" by (simp add: io_access_methods_def)
  show "post (run_data_dir E r Io_data_dir) s (\<lambda>_ s'. control_written s s' \<and>
     bit (ctr (prt s')) 0 = bit (ctr (prt s)) 0 \<and> bit (ctr (prt s')) 1 = bit (ctr (prt s)) 1)"
    unfolding run_data_dir.simps io_data_dir_def
    by (rule post_bindp, rule post_weaken [OF raw_frob_observed [OF assms]])
       (auto simp: line_bit intro!: post_ret)
qed

text \<open>A reading of a register.\<close>

lemma inb_observed:
  assumes "raw_io_port s" and "in_out_build (env_build E)"
  shows "post (do_inb E p) s (\<lambda>b s'. prt s' = prt s \<and>
     observe step start s' = step (ucast (base (prt s))) (Inb (ucast p) b) (observe step start s))"
proof -
  have "post (raw_inb E p) s (\<lambda>b s'. prt s' = prt s \<and>
     observe step start s' = step (ucast (base (prt s))) (Inb (ucast p) b) (observe step start s))"
    using assms(2) unfolding raw_inb_def io_h_inb_def
    by (auto simp: observe_def intro!: post_env_call)
  moreover have "m_do_inb (fn (prt s)) = Some Io_raw_inb"
    using assms(1) by (simp add: raw_io_port_def io_access_methods_def)
  ultimately show ?thesis
    unfolding do_inb_def slot_def by (intro post_bindp post_gets) (simp add: call_def)
qed

lemma io_status_observed:
  assumes "raw_io_port s" and "in_out_build (env_build E)"
  shows "post (io_read_status E) s (\<lambda>st s'. footing s' = footing s \<and>
     (\<exists>b. st = uint (b XOR S1284_INVERTED) \<and> observe step start s' =
        step (ucast (base (prt s))) (Inb (ucast (base (prt s)) + 1) b) (observe step start s)))"
  unfolding io_read_status_def
  by (intro post_bindp [of "gets _"] post_gets post_bindp [of "do_inb _ _"]
      post_weaken [OF inb_observed [OF assms]] post_ret)
     (auto simp: footing_def ucast_offset)

lemma read_status_observed:
  assumes "raw_io_port s" and "in_out_build (env_build E)"
  shows "post (p_read_status (port_pins E)) s (\<lambda>st s'. footing s' = footing s \<and>
     (\<exists>b. st = uint (b XOR S1284_INVERTED) \<and> observe step start s' =
        step (ucast (base (prt s))) (Inb (ucast (base (prt s)) + 1) b) (observe step start s)))"
  unfolding port_pins_def pins.simps
  by (rule post_via_raw [OF assms(1)], simp add: io_access_methods_def)
     (simp add: io_status_observed [OF assms])

lemma read_data_observed:
  assumes "raw_io_port s" and "in_out_build (env_build E)"
  shows "post (p_read_data (port_pins E)) s (\<lambda>d s'. footing s' = footing s \<and>
     (\<exists>b. d = uint b \<and> observe step start s' =
        step (ucast (base (prt s))) (Inb (ucast (base (prt s))) b) (observe step start s)))"
  unfolding port_pins_def pins.simps
proof (rule post_via_raw [OF assms(1)])
  show "m_read_data io_access_methods = Some Io_read_data" by (simp add: io_access_methods_def)
  show "post (run_read_data E Io_read_data) s (\<lambda>d s'. footing s' = footing s \<and>
     (\<exists>b. d = uint b \<and> observe step start s' =
        step (ucast (base (prt s))) (Inb (ucast (base (prt s))) b) (observe step start s)))"
    unfolding run_read_data.simps io_read_data_def
    by (intro post_bindp [of "gets _"] post_gets post_bindp [of "do_inb _ _"]
        post_weaken [OF inb_observed [OF assms]] post_ret)
       (auto simp: footing_def)
qed

text \<open>
  Waiting reads the status until a reading shows what is waited for; \<open>g\<close> is what the
  readings before that leave of the state of the device.
\<close>

lemma keeps_view:
  "keeps (\<lambda>s. (footing s, observe step start s)) m \<Longrightarrow> keeps (\<lambda>s. (footing s, g (observe step start s))) m"
  by (rule keepsI, erule post_weaken [OF keepsD]) simp

lemma wait_status_observed:
  assumes "raw_io_port s" and E: "in_out_build (env_build E)"
    and miss: "\<And>b x. g x = g (observe step start s) \<Longrightarrow> (b XOR S1284_INVERTED) AND m \<noteq> v \<Longrightarrow>
      g (step (ucast (base (prt s))) (Inb (ucast (base (prt s)) + 1) b) x) = g (observe step start s)"
  shows "post (p_wait_status (port_pins E) m v t) s (\<lambda>r s'. footing s' = footing s \<and>
     (r = E1284_OK \<and> (\<exists>b x. (b XOR S1284_INVERTED) AND m = v \<and> g x = g (observe step start s) \<and>
        observe step start s' = step (ucast (base (prt s))) (Inb (ucast (base (prt s)) + 1) b) x) \<or>
      r = E1284_TIMEDOUT \<and> g (observe step start s') = g (observe step start s)))"
  unfolding port_pins_def pins.simps
proof (rule post_via_raw [OF assms(1)])
  let ?v = "\<lambda>s. (footing s, g (observe step start s))"
  let ?hit = "bindp (io_read_status E) (\<lambda>st. ret (uchar st AND m = v))"
  let ?read = "\<lambda>h s'. footing s' = footing s \<and> (\<exists>b x. h = ((b XOR S1284_INVERTED) AND m = v) \<and>
     g x = g (observe step start s) \<and>
     observe step start s' = step (ucast (base (prt s))) (Inb (ucast (base (prt s)) + 1) b) x)"
  show "m_wait_status io_access_methods = Some Io_wait_status" by (simp add: io_access_methods_def)
  have read: "post ?hit s1 ?read" if "?v s1 = ?v s" for s1
  proof -
    from that have s1: "footing s1 = footing s" "g (observe step start s1) = g (observe step start s)"
      by simp_all
    have "raw_io_port s1" using footingD(4) [OF s1(1)] assms(1) by simp
    show ?thesis
    proof (rule post_bindp, rule post_weaken [OF io_status_observed [OF \<open>raw_io_port s1\<close> E]], rule post_ret)
      fix st s2
      assume s2: "footing s2 = footing s1 \<and> (\<exists>b. st = uint (b XOR S1284_INVERTED) \<and> observe step start s2 =
         step (ucast (base (prt s1))) (Inb (ucast (base (prt s1)) + 1) b) (observe step start s1))"
      then obtain b where b: "st = uint (b XOR S1284_INVERTED)" "observe step start s2 =
         step (ucast (base (prt s))) (Inb (ucast (base (prt s)) + 1) b) (observe step start s1)"
        unfolding footingD(2) [OF s1(1)] by blast
      have "(uchar st AND m = v) = ((b XOR S1284_INVERTED) AND m = v)" by (simp only: b(1) uchar_uint)
      moreover have "footing s2 = footing s" using s2 unfolding s1(1) by (rule conjunct1)
      ultimately show "?read (uchar st AND m = v) s2" using s1(2) b(2) by blast
    qed
  qed
  have clock: "keeps_clock ?v E"
    using clock_unseen [of E] unfolding keeps_clock_def by (auto intro: keeps_view)
  have missed: "post ?hit s1 (\<lambda>b s'. \<not> b \<longrightarrow> ?v s' = ?v s)" if "?v s1 = ?v s" for s1
    by (rule post_weaken [OF read [OF that]]) (auto simp: miss)
  show "post (run_wait_status E m v t Io_wait_status) s (\<lambda>r s'. footing s' = footing s \<and>
     (r = E1284_OK \<and> (\<exists>b x. (b XOR S1284_INVERTED) AND m = v \<and> g x = g (observe step start s) \<and>
        observe step start s' = step (ucast (base (prt s))) (Inb (ucast (base (prt s)) + 1) b) x) \<or>
      r = E1284_TIMEDOUT \<and> g (observe step start s') = g (observe step start s)))"
    unfolding run_wait_status.simps io_wait_status_def
  proof (rule post_weaken [OF poll_until_post_miss [OF clock missed]], assumption, elim disjE conjE exE)
    fix r s' s1 assume "?v s1 = ?v s" "?hit s1 = Some (Ret True s')" and r: "r = E1284_OK"
    from postD [OF read [OF this(1)] this(2)] obtain b x where
      "footing s' = footing s" "(b XOR S1284_INVERTED) AND m = v" "g x = g (observe step start s)"
      "observe step start s' = step (ucast (base (prt s))) (Inb (ucast (base (prt s)) + 1) b) x"
      by blast
    with r show "footing s' = footing s \<and>
     (r = E1284_OK \<and> (\<exists>b x. (b XOR S1284_INVERTED) AND m = v \<and> g x = g (observe step start s) \<and>
        observe step start s' = step (ucast (base (prt s))) (Inb (ucast (base (prt s)) + 1) b) x) \<or>
      r = E1284_TIMEDOUT \<and> g (observe step start s') = g (observe step start s))" by blast
  qed simp
qed

end

end
