(* ===== verification/Receiver.thy ===== *)
theory Receiver
  imports Observer Wire
begin

section \<open>A receiver at the other end of the cable\<close>

text \<open>
  What the writing modes promise, from the side of the peripheral: a device that takes the byte on
  the data lines whenever its strobe line goes low. It is a fold over the trace of the
  instructions on the three registers, and knows nothing of the library. The theorems: a write in
  compatibility mode, EPP or ECP through direct I/O makes the device receive the first bytes of
  the buffer, each once and in order; in compatibility mode exactly those the library counts, and
  never while it is busy.
\<close>

subsection \<open>The receiver\<close>

text \<open>
  The strobe line is nStrobe (bit 0) in compatibility mode and in ECP, and nAutoFd (bit 1), as
  nDStrb, in EPP; the register inverts both. \<open>strobe\<close> is set while the line is low,
  \<open>ready\<close> when Busy has been read as low since the last byte.
\<close>

record receiver =
  latch :: u8
  strobe :: bool
  ready :: bool
  received :: "u8 list"
  overrun :: bool

definition drive :: "bool \<Rightarrow> receiver \<Rightarrow> receiver" where
  "drive low x =
     (if low \<and> \<not> strobe x
      then x\<lparr>strobe := True, received := received x @ [latch x],
             overrun := overrun x \<or> \<not> ready x, ready := False\<rparr>
      else x\<lparr>strobe := low\<rparr>)"

fun receiver_step :: "nat \<Rightarrow> u16 \<Rightarrow> event \<Rightarrow> receiver \<Rightarrow> receiver" where
  "receiver_step i a (Outb v p) x =
     (if p = a then x\<lparr>latch := v\<rparr> else if p = a + 2 then drive (bit v i) x else x)"
| "receiver_step i a (Inb p v) x = (if p = a + 1 then x\<lparr>ready := bit v 7\<rparr> else x)"
| "receiver_step i a e x = x"

definition receiver_start :: receiver where
  "receiver_start = \<lparr> latch = 0, strobe = False, ready = False, received = [], overrun = False \<rparr>"

text \<open>The receiver on the port of a state, after all that has happened on it.\<close>

abbreviation receiver_of :: "nat \<Rightarrow> 'w sys \<Rightarrow> receiver" where
  "receiver_of i s \<equiv> observe (receiver_step i) receiver_start s"

abbreviation printer_of :: "'w sys \<Rightarrow> receiver" where
  "printer_of s \<equiv> receiver_of 0 s"

interpretation receiver: observer "receiver_step i" receiver_start for i
proof
  show "receiver_step i a e x = x" if "\<not> register_access e" for a e x
    using that by (cases e) simp_all
qed

text \<open>What reading the status leaves.\<close>

definition sheet :: "receiver \<Rightarrow> u8 \<times> bool \<times> u8 list \<times> bool" where
  "sheet x = (latch x, strobe x, received x, overrun x)"

lemma sheet_ready [simp]: "sheet (x\<lparr>ready := b\<rparr>) = sheet x"
  by (simp add: sheet_def)

lemma sheetD:
  assumes "sheet x = sheet y"
  shows "latch x = latch y" "strobe x = strobe y" "received x = received y" "overrun x = overrun y"
  using assms by (simp_all add: sheet_def)

lemma drive_simps [simp]:
  "strobe (drive b x) = b" "latch (drive b x) = latch x" "received (drive False x) = received x"
  "overrun (drive False x) = overrun x"
  "\<not> strobe x \<Longrightarrow> received (drive True x) = received x @ [latch x]"
  "strobe x \<Longrightarrow> received (drive True x) = received x"
  "\<not> strobe x \<Longrightarrow> overrun (drive True x) = (overrun x \<or> \<not> ready x)"
  "strobe x \<Longrightarrow> overrun (drive True x) = overrun x"
  by (simp_all add: drive_def)

subsection \<open>One operation\<close>

text \<open>\<open>wired i s\<close>: the port is reached by the instructions, and the copy of the control register is
  right about the strobe line.\<close>

definition wired :: "nat \<Rightarrow> 'w sys \<Rightarrow> bool" where
  "wired i s \<longleftrightarrow> raw_io_port s \<and> strobe (receiver_of i s) = bit (ctr (prt s)) i"

lemma wired_raw: "wired i s \<Longrightarrow> raw_io_port s"
  by (simp add: wired_def)

lemma wired_footing:
  "wired i s \<Longrightarrow> footing s' = footing s \<Longrightarrow> strobe (receiver_of i s') = strobe (receiver_of i s) \<Longrightarrow>
     wired i s'"
  using footingD [of s' s] by (simp add: wired_def)

lemma receive_data_step:
  assumes "wired i s" and "in_out_build (env_build E)"
    and "\<And>u s'. wired i s' \<Longrightarrow> receiver_of i s' = (receiver_of i s)\<lparr>latch := b\<rparr> \<Longrightarrow> post (k u) s' Q"
  shows "post (bindp (p_write_data (port_pins E) b) k) s Q"
  by (rule post_bindp, rule post_weaken [OF receiver.write_data_observed [OF wired_raw [OF assms(1)] assms(2), where i = i]])
     (elim conjE, rule assms(3), rule wired_footing [OF assms(1)], simp_all)

text \<open>Any change of the control lines.\<close>

lemma control_driven:
  assumes "raw_io_port s" and "receiver.control_written i s s'"
  shows "wired i s' \<and> receiver_of i s' = drive (bit (ctr (prt s')) i) (receiver_of i s)"
  using assms by (simp add: receiver.control_written_def wired_def raw_io_port_def)

lemma receive_control_step:
  assumes "wired i s" and "in_out_build (env_build E)" and "c AND 0x20 = 0" and "i = 0 \<or> i = 1"
    and "\<And>u s'. wired i s' \<Longrightarrow> receiver_of i s' = drive (\<not> bit c i) (receiver_of i s) \<Longrightarrow> post (k u) s' Q"
  shows "post (bindp (p_write_control (port_pins E) c) k) s Q"
  by (rule post_bindp, rule post_weaken [OF receiver.write_control_observed [OF wired_raw [OF assms(1)] assms(2,3), where i = i]])
     (elim conjE, drule control_driven [OF wired_raw [OF assms(1)]], rule assms(5), use assms(4) in auto)

lemma receive_frob_step:
  assumes "wired i s" and "in_out_build (env_build E)" and "m AND 0x20 = 0" and "i = 0 \<or> i = 1"
    and "\<And>u s'. wired i s' \<Longrightarrow> receiver_of i s' = drive (if bit m i then \<not> bit v i
        else strobe (receiver_of i s) \<noteq> bit v i) (receiver_of i s) \<Longrightarrow> post (k u) s' Q"
  shows "post (bindp (p_frob_control (port_pins E) m v) k) s Q"
proof (rule post_bindp, rule post_weaken [OF receiver.frob_control_observed [OF wired_raw [OF assms(1)] assms(2,3), where i = i]])
  fix u and s' :: "'a sys"
  assume s': "receiver.control_written i s s' \<and> (\<forall>j. j = 0 \<or> j = 1 \<longrightarrow>
     bit (ctr (prt s')) j = (if bit m j then \<not> bit v j else bit (ctr (prt s)) j \<noteq> bit v j))"
  with assms(4) have "bit (ctr (prt s')) i = (if bit m i then \<not> bit v i else bit (ctr (prt s)) i \<noteq> bit v i)"
    by blast
  then have c: "bit (ctr (prt s')) i = (if bit m i then \<not> bit v i else strobe (receiver_of i s) \<noteq> bit v i)"
    using assms(1) by (simp add: wired_def)
  from control_driven [OF wired_raw [OF assms(1)] conjunct1 [OF s']] show "post (k u) s' Q"
    unfolding c by (elim conjE, intro assms(5))
qed

lemma receive_dir_step:
  assumes "wired i s" and "in_out_build (env_build E)" and "i = 0 \<or> i = 1"
    and "\<And>u s'. wired i s' \<Longrightarrow> receiver_of i s' = receiver_of i s \<Longrightarrow> post (k u) s' Q"
  shows "post (bindp (p_data_dir (port_pins E) r) k) s Q"
proof (rule post_bindp, rule post_weaken [OF receiver.data_dir_observed [OF wired_raw [OF assms(1)] assms(2), where i = i]])
  fix u and s' :: "'a sys"
  assume s': "receiver.control_written i s s' \<and> bit (ctr (prt s')) 0 = bit (ctr (prt s)) 0 \<and>
     bit (ctr (prt s')) 1 = bit (ctr (prt s)) 1"
  with assms(1,3) have "bit (ctr (prt s')) i = strobe (receiver_of i s)" by (auto simp: wired_def)
  with control_driven [OF wired_raw [OF assms(1)] conjunct1 [OF s']] show "post (k u) s' Q"
    by (intro assms(4)) (auto simp: drive_def)
qed

text \<open>The clock, and readings of the status.\<close>

lemma receive_time_step:
  assumes "wired i s" and "\<And>u s'. wired i s' \<Longrightarrow> receiver_of i s' = receiver_of i s \<Longrightarrow> post (k u) s' Q"
  shows "post (bindp (delay E d) k) s Q" "post (bindp (udelay E n) k) s Q"
proof -
  have k: "post (k u) s' Q"
    if "(footing s', receiver_of i s') = (footing s, receiver_of i s)" for u and s' :: "'a sys"
    using that by (intro assms(2) wired_footing [OF assms(1)]) simp_all
  show "post (bindp (delay E d) k) s Q" by (rule post_step [OF receiver.time_unseen(1) k])
  show "post (bindp (udelay E n) k) s Q" by (rule post_step [OF receiver.time_unseen(2) k])
qed

lemma receive_status_step:
  assumes "wired i s" and "in_out_build (env_build E)"
    and "\<And>st s'. wired i s' \<Longrightarrow> sheet (receiver_of i s') = sheet (receiver_of i s) \<Longrightarrow> post (k st) s' Q"
  shows "post (bindp (p_read_status (port_pins E)) k) s Q"
  by (rule post_bindp, rule post_weaken [OF receiver.read_status_observed [OF wired_raw [OF assms(1)] assms(2), where i = i]])
     (elim conjE exE, rule assms(3), rule wired_footing [OF assms(1)], simp_all add: sheet_def)

text \<open>A wait; when it has seen Busy low the receiver is ready.\<close>

lemma not_busy_bit: "((v :: u8) XOR S1284_INVERTED) AND S1284_BUSY = 0 \<Longrightarrow> bit v 7"
  using and_exp_eq_0_iff_not_bit [of "v XOR 0x80" 7] by (simp add: bit_xor_iff)

lemma receive_wait:
  assumes "wired i s" and "in_out_build (env_build E)"
  shows "post (p_wait_status (port_pins E) m v t) s (\<lambda>r s'. wired i s' \<and>
     sheet (receiver_of i s') = sheet (receiver_of i s) \<and>
     (r = E1284_OK \<and> m = S1284_BUSY \<and> v = 0 \<longrightarrow> ready (receiver_of i s')))"
proof (rule post_weaken [OF receiver.wait_status_observed
      [OF wired_raw [OF assms(1)] assms(2), where g = sheet and i = i]])
  let ?a = "ucast (base (prt s)) :: u16" and ?x = "receiver_of i s"
  show "sheet (receiver_step i ?a (Inb (?a + 1) b) x) = sheet ?x" if "sheet x = sheet ?x" for b x
    using that by simp
  fix r and s' :: "'a sys"
  assume s': "footing s' = footing s \<and>
     (r = E1284_OK \<and> (\<exists>b x. (b XOR S1284_INVERTED) AND m = v \<and> sheet x = sheet ?x \<and>
        receiver_of i s' = receiver_step i ?a (Inb (?a + 1) b) x) \<or>
      r = E1284_TIMEDOUT \<and> sheet (receiver_of i s') = sheet ?x)"
  then have "sheet (receiver_of i s') = sheet ?x" by auto
  moreover have "ready (receiver_of i s')" if "r = E1284_OK" "m = S1284_BUSY" "v = 0"
    using s' that by (auto simp: not_busy_bit)
  moreover have "wired i s'"
    using s' sheetD(2) [OF calculation(1)] by (intro wired_footing [OF assms(1)]) simp_all
  ultimately show "wired i s' \<and> sheet (receiver_of i s') = sheet ?x \<and>
     (r = E1284_OK \<and> m = S1284_BUSY \<and> v = 0 \<longrightarrow> ready (receiver_of i s'))" by blast
qed

lemma receive_wait_step:
  assumes "wired i s" and "in_out_build (env_build E)"
    and "\<And>r s'. wired i s' \<Longrightarrow> sheet (receiver_of i s') = sheet (receiver_of i s) \<Longrightarrow>
        (r = E1284_OK \<Longrightarrow> m = S1284_BUSY \<Longrightarrow> v = 0 \<Longrightarrow> ready (receiver_of i s')) \<Longrightarrow> post (k r) s' Q"
  shows "post (bindp (p_wait_status (port_pins E) m v t) k) s Q"
  by (rule post_bindp, rule post_weaken [OF receive_wait [OF assms(1,2)]]) (use assms(3) in simp)

subsection \<open>Operations that leave the strobe high\<close>

text \<open>\<open>resting i x\<close>: the strobe is high, and the receiver is as \<open>x\<close> says.\<close>

definition resting :: "nat \<Rightarrow> u8 \<times> bool \<times> u8 list \<times> bool \<Rightarrow> 'w sys \<Rightarrow> bool" where
  "resting i x s \<longleftrightarrow> wired i s \<and> \<not> strobe (receiver_of i s) \<and> sheet (receiver_of i s) = x"

lemma restingI:
  "resting i x s \<Longrightarrow> wired i s' \<Longrightarrow> sheet (receiver_of i s') = sheet (receiver_of i s) \<Longrightarrow> resting i x s'"
  using sheetD(2) [of "receiver_of i s'" "receiver_of i s"] by (simp add: resting_def)

lemma sheet_drive: "\<not> strobe x \<Longrightarrow> sheet (drive False x) = sheet x"
  by (simp add: drive_def sheet_def)

lemma resting_drive:
  "resting i x s \<Longrightarrow> wired i s' \<Longrightarrow> receiver_of i s' = drive False (receiver_of i s) \<Longrightarrow> resting i x s'"
  by (rule restingI, assumption+) (auto simp: resting_def sheet_drive)

lemma resting_wired: "resting i x s \<Longrightarrow> wired i s"
  by (simp add: resting_def)

lemma stays_pins:
  assumes "in_out_build (env_build E)" and "i = 0 \<or> i = 1"
  shows "stays (resting i x) (p_wait_status (port_pins E) m v t)"
    and "stays (resting i x) (p_data_dir (port_pins E) r)"
    and "c AND 0x20 = 0 \<Longrightarrow> bit c i \<Longrightarrow> stays (resting i x) (p_write_control (port_pins E) c)"
    and "m AND 0x20 = 0 \<Longrightarrow> (bit m i \<longleftrightarrow> bit v i) \<Longrightarrow> stays (resting i x) (p_frob_control (port_pins E) m v)"
proof -
  show "stays (resting i x) (p_wait_status (port_pins E) m v t)"
    by (rule staysI, rule post_weaken [OF receive_wait [OF resting_wired assms(1)]])
       (auto intro: restingI)
  show "stays (resting i x) (p_data_dir (port_pins E) r)"
    by (rule staysI, subst bindp_ret_right [symmetric], rule receive_dir_step [OF resting_wired assms])
       (auto intro!: post_ret intro: restingI)
  show "stays (resting i x) (p_write_control (port_pins E) c)" if "c AND 0x20 = 0" "bit c i"
    by (rule staysI, subst bindp_ret_right [symmetric],
        rule receive_control_step [OF resting_wired assms(1) that(1) assms(2)])
       (use that(2) in \<open>auto intro!: post_ret intro: resting_drive\<close>)
  show "stays (resting i x) (p_frob_control (port_pins E) m v)"
    if m: "m AND 0x20 = 0" and eq: "bit m i \<longleftrightarrow> bit v i"
  proof (rule staysI, subst bindp_ret_right [symmetric],
      rule receive_frob_step [OF resting_wired assms(1) m assms(2)])
    fix u and s s' :: "'a sys" assume s: "resting i x s" and w: "wired i s'"
      and r: "receiver_of i s' = drive (if bit m i then \<not> bit v i else strobe (receiver_of i s) \<noteq> bit v i)
        (receiver_of i s)"
    have "(if bit m i then \<not> bit v i else strobe (receiver_of i s) \<noteq> bit v i) = False"
      using eq s by (simp add: resting_def)
    with r have "receiver_of i s' = drive False (receiver_of i s)" by simp
    then show "post (ret u) s' (\<lambda>_. resting i x)" by (intro post_ret resting_drive [OF s w])
  qed
qed

lemma stays_soft:
  "stays (resting i x) (upd (\<lambda>p. p\<lparr>current_mode := m\<rparr>))" "stays (resting i x) (upd (\<lambda>p. p\<lparr>current_phase := ph\<rparr>))"
  "stays (resting i x) (upd (\<lambda>p. p\<lparr>current_channel := ch\<rparr>))"
  by (rule staysI, rule post_upd, auto simp: resting_def wired_def raw_io_port_def receiver.observe_prt)+

lemma stays_read_status:
  assumes "in_out_build (env_build E)"
  shows "stays (resting i x) (p_read_status (port_pins E))"
  by (rule staysI, subst bindp_ret_right [symmetric], rule receive_status_step [OF resting_wired assms])
     (auto intro!: post_ret intro: restingI)

lemma stays_via_raw:
  fixes run :: "'f \<Rightarrow> ('a, 'w sys) prog"
  assumes "sel io_access_methods = Some f" and "stays (resting i x) (run f)"
  shows "stays (resting i x) (via sel run)"
proof (rule staysI)
  fix s :: "'w sys" assume s: "resting i x s"
  show "post (via sel run) s (\<lambda>_. resting i x)"
    by (rule post_via_raw, rule wired_raw [OF resting_wired [OF s]], rule assms(1), rule staysD [OF assms(2) s])
qed

lemma stays_rev_to_fwd:
  assumes "in_out_build (env_build E)"
  shows "stays (resting 0 x) (via m_ecp_rev_to_fwd (run_ecp_rev_to_fwd E))"
proof (rule stays_via_raw)
  show "m_ecp_rev_to_fwd io_access_methods = Some Default_ecp_rev_to_fwd"
    by (simp add: io_access_methods_def)
  note pins = stays_pins [OF assms, where i = 0, simplified]
  show "stays (resting 0 x) (run_ecp_rev_to_fwd E Default_ecp_rev_to_fwd)"
    unfolding run_ecp_rev_to_fwd.simps default_ecp_rev_to_fwd_def
    by (intro stays_bindp stays_if stays_ret stays_soft pins) simp_all
qed

lemma stays_terminate:
  assumes "in_out_build (env_build E)"
  shows "stays (resting 0 x) (via m_terminate (run_terminate E))"
proof (rule stays_via_raw)
  show "m_terminate io_access_methods = Some Default_terminate" by (simp add: io_access_methods_def)
  note pins = stays_pins [OF assms, where i = 0, simplified]
  show "stays (resting 0 x) (run_terminate E Default_terminate)"
    unfolding run_terminate.simps default_terminate_def terminate_handshake_def port_dir_pins_simps
    by (intro stays_bindp stays_if stays_ret stays_gets stays_soft pins stays_rev_to_fwd assms) simp_all
qed

subsection \<open>Taking bytes\<close>

definition takes :: "nat \<Rightarrow> 'w sys \<Rightarrow> u8 list \<Rightarrow> 'w sys \<Rightarrow> bool" where
  "takes i s bs s' \<longleftrightarrow> wired i s' \<and> \<not> strobe (receiver_of i s') \<and>
     received (receiver_of i s') = received (receiver_of i s) @ bs"

definition prints :: "'w sys \<Rightarrow> u8 list \<Rightarrow> 'w sys \<Rightarrow> bool" where
  "prints s bs s' \<longleftrightarrow> takes 0 s bs s' \<and> overrun (printer_of s') = overrun (printer_of s)"

lemma takes_trans: "takes i s bs s1 \<Longrightarrow> takes i s1 cs s2 \<Longrightarrow> takes i s (bs @ cs) s2"
  by (simp add: takes_def)

lemma prints_trans: "prints s bs s1 \<Longrightarrow> prints s1 cs s2 \<Longrightarrow> prints s (bs @ cs) s2"
  by (simp add: prints_def takes_def)

lemma prints_resting: "resting 0 (sheet (printer_of s)) s' \<Longrightarrow> prints s [] s'"
  using sheetD [of "printer_of s'" "printer_of s"] by (auto simp: resting_def prints_def takes_def)

lemma prints_rests: "prints s bs s' \<Longrightarrow> resting 0 (sheet (printer_of s')) s'"
  by (simp add: prints_def takes_def resting_def)

subsection \<open>A compatibility mode write\<close>

lemma print_byte:
  assumes s: "prints s [] s1" "ready (printer_of s1)" and E: "in_out_build (env_build E)"
    and k: "\<And>u s'. prints s [b] s' \<Longrightarrow> post (k u) s' Q"
  shows "post (bindp (delay E TIMEVAL_STROBE_DELAY) (\<lambda>_.
     bindp (p_write_data (port_pins E) b) (\<lambda>_.
     bindp (p_write_control (port_pins E) (C1284_NINIT OR C1284_NAUTOFD)) (\<lambda>_.
     bindp (delay E TIMEVAL_STROBE_DELAY) (\<lambda>_.
     bindp (p_write_control (port_pins E) (C1284_NINIT OR C1284_NAUTOFD OR C1284_NSTROBE)) (\<lambda>_.
     bindp (delay E TIMEVAL_STROBE_DELAY) k)))))) s1 Q"
proof -
  have w: "wired 0 s1" using s(1) by (simp add: prints_def takes_def)
  show ?thesis
    by (rule receive_time_step [OF w], rule receive_data_step [OF _ E], assumption,
        rule receive_control_step [OF _ E], assumption, simp, simp,
        rule receive_time_step, assumption,
        rule receive_control_step [OF _ E], assumption, simp, simp,
        rule receive_time_step, assumption, rule k)
       (use s in \<open>simp add: prints_def takes_def\<close>)
qed

text \<open>What a loop over the buffer does: the bytes before the end, and the count.\<close>

definition printed :: "'w sys \<Rightarrow> nat \<Rightarrow> u8 list \<Rightarrow> int \<Rightarrow> 'w sys \<Rightarrow> bool" where
  "printed s count bs r s' \<longleftrightarrow> (\<exists>n \<le> length bs. r = int (count + n) \<and> prints s (take n bs) s')"

lemma printed_Cons:
  assumes "prints s [b] s1" and "printed s1 (count + 1) bs r s'"
  shows "printed s count (b # bs) r s'"
proof -
  obtain n where "n \<le> length bs" "r = int (count + 1 + n)" "prints s1 (take n bs) s'"
    using assms(2) by (auto simp: printed_def)
  with prints_trans [OF assms(1), of "take n bs" s'] show ?thesis
    unfolding printed_def by (intro exI [of _ "Suc n"]) simp
qed

lemma compat_loop_prints:
  assumes "prints s [] s" and E: "in_out_build (env_build E)"
  shows "post (compat_loop E (port_mode_pins E) (count + length bs) count bs) s (printed s count bs)"
  using assms(1)
proof (induction bs arbitrary: count s)
  case Nil
  then show ?case by (simp add: post_ret printed_def)
next
  case (Cons b bs)
  have rest: "post (compat_loop E (port_mode_pins E) (count + length (b # bs)) (count + 1) bs) s2
      (printed s count (b # bs))" if "prints s [b] s2" for s2 :: "'a sys"
  proof -
    have "prints s2 [] s2" using that by (simp add: prints_def takes_def)
    from Cons.IH [OF this, of "count + 1"] show ?thesis
      by simp (erule post_weaken, rule printed_Cons [OF that], simp)
  qed
  have stop: "post (bindp (p_terminate (port_mode_pins E)) (\<lambda>_. ret (int count))) s1 (printed s count (b # bs))"
    if s1: "prints s [] s1" for s1 :: "'a sys"
  proof (rule post_bindp, rule post_weaken)
    show "post (p_terminate (port_mode_pins E)) s1 (\<lambda>_. resting 0 (sheet (printer_of s1)))"
      unfolding port_mode_pins_simps by (rule staysD [OF stays_terminate [OF E] prints_rests [OF s1]])
    fix u and s2 :: "'a sys" assume "resting 0 (sheet (printer_of s1)) s2"
    from prints_trans [OF s1 prints_resting [OF this]] show "post (ret (int count)) s2 (printed s count (b # bs))"
      by (intro post_ret) (auto simp: printed_def intro!: exI [of _ 0])
  qed
  have w: "wired 0 s" using Cons.prems by (simp add: prints_def takes_def)
  show ?case
    unfolding compat_loop.simps port_mode_pins_simps(2,5,6)
  proof (rule receive_wait_step [OF w E], rule post_if)
    fix r and s1 :: "'a sys" assume s1: "wired 0 s1" "sheet (printer_of s1) = sheet (printer_of s)"
      and ready: "r = E1284_OK \<Longrightarrow> (S1284_BUSY :: u8) = S1284_BUSY \<Longrightarrow> (0 :: u8) = 0 \<Longrightarrow> ready (printer_of s1)"
    have p: "prints s [] s1"
      using Cons.prems s1 sheetD [OF s1(2)] by (simp add: prints_def takes_def)
    then show "post (bindp (p_terminate (port_mode_pins E)) (\<lambda>_. ret (int count))) s1 (printed s count (b # bs))"
      by (rule stop)
    assume "\<not> r \<noteq> E1284_OK"
    with ready have "ready (printer_of s1)" by simp
    then show "post (bindp (delay E TIMEVAL_STROBE_DELAY) (\<lambda>_.
        bindp (p_write_data (port_pins E) b) (\<lambda>_.
        bindp (p_write_control (port_pins E) (C1284_NINIT OR C1284_NAUTOFD)) (\<lambda>_.
        bindp (delay E TIMEVAL_STROBE_DELAY) (\<lambda>_.
        bindp (p_write_control (port_pins E) (C1284_NINIT OR C1284_NAUTOFD OR C1284_NSTROBE)) (\<lambda>_.
        bindp (delay E TIMEVAL_STROBE_DELAY) (\<lambda>_.
        compat_loop E (port_mode_pins E) (count + length (b # bs)) (count + 1) bs))))))) s1
        (printed s count (b # bs))"
      by (rule print_byte [OF p _ E]) (rule rest)
  qed
qed

lemma compat_write_prints:
  assumes "prints s [] s" and "in_out_build (env_build E)"
  shows "post (default_compat_write E (port_mode_pins E) buffer) s (printed s 0 buffer)"
  using compat_loop_prints [OF assms, of 0 buffer] by (simp add: default_compat_write_def)

subsection \<open>Writes that a failed handshake ends\<close>

text \<open>
  In EPP and ECP the byte of a cycle that fails has been offered to the peripheral, but is not
  counted; the strobe may be left low.
\<close>

definition taken :: "nat \<Rightarrow> 'w sys \<Rightarrow> nat \<Rightarrow> u8 list \<Rightarrow> int \<Rightarrow> 'w sys \<Rightarrow> bool" where
  "taken i s count bs r s' \<longleftrightarrow> (\<exists>n \<le> length bs. received (receiver_of i s') = received (receiver_of i s) @ take n bs \<and>
     (r = int (count + n) \<and> \<not> strobe (receiver_of i s') \<or> r = int (count + n) - 1))"

lemma taken_same:
  "received (receiver_of i s1) = received (receiver_of i s) \<Longrightarrow> taken i s1 = taken i s"
  by (intro ext) (simp add: taken_def)

lemma taken_Cons:
  assumes "takes i s [b] s1" and "taken i s1 (count + 1) bs r s'"
  shows "taken i s count (b # bs) r s'"
proof -
  obtain n where "n \<le> length bs" "received (receiver_of i s') = received (receiver_of i s1) @ take n bs"
     "r = int (count + 1 + n) \<and> \<not> strobe (receiver_of i s') \<or> r = int (count + 1 + n) - 1"
    using assms(2) by (auto simp: taken_def)
  with assms(1) show ?thesis
    unfolding taken_def by (intro exI [of _ "Suc n"]) (auto simp: takes_def)
qed

lemma taken_one:
  "received (receiver_of i s') = received (receiver_of i s) @ [b] \<Longrightarrow> taken i s count (b # bs) (int count) s'"
  unfolding taken_def by (intro exI [of _ 1]) simp

text \<open>\<open>facing i x\<close>: the receiver is as \<open>x\<close> says, be the strobe low or high.\<close>

definition facing :: "nat \<Rightarrow> u8 \<times> bool \<times> u8 list \<times> bool \<Rightarrow> 'w sys \<Rightarrow> bool" where
  "facing i x s \<longleftrightarrow> wired i s \<and> sheet (receiver_of i s) = x"

lemma stays_facing:
  assumes "in_out_build (env_build E)"
  shows "stays (facing i x) (p_read_status (port_pins E))"
    and "stays (facing i x) (p_wait_status (port_pins E) m v t)"
    and "stays (facing i x) (udelay E n)"
proof -
  show "stays (facing i x) (p_read_status (port_pins E))"
    by (rule staysI, subst bindp_ret_right [symmetric], rule receive_status_step [OF _ assms])
       (auto simp: facing_def intro!: post_ret)
  show "stays (facing i x) (p_wait_status (port_pins E) m v t)"
    by (rule staysI, rule post_weaken [OF receive_wait [OF _ assms]]) (auto simp: facing_def)
  show "stays (facing i x) (udelay E n)"
    by (rule staysI, subst bindp_ret_right [symmetric], rule receive_time_step(2))
       (auto simp: facing_def intro!: post_ret)
qed

lemma facing_step:
  assumes "stays (facing i (sheet (receiver_of i s))) m" and "wired i s"
    and "\<And>a s'. wired i s' \<Longrightarrow> sheet (receiver_of i s') = sheet (receiver_of i s) \<Longrightarrow> post (k a) s' Q"
  shows "post (bindp m k) s Q"
  by (rule stays_step [OF assms(1)]) (use assms(2,3) in \<open>auto simp: facing_def\<close>)

lemma stays_facing_frob:
  assumes "in_out_build (env_build E)" and "i = 0 \<or> i = 1" and "m AND 0x20 = 0" and "\<not> bit m i" "\<not> bit v i"
  shows "stays (facing i x) (p_frob_control (port_pins E) m v)"
proof (rule staysI, subst bindp_ret_right [symmetric], rule receive_frob_step [OF _ assms(1,3,2)])
  fix u and s s' :: "'a sys" assume s: "facing i x s" and s': "wired i s'" "receiver_of i s' =
     drive (if bit m i then \<not> bit v i else strobe (receiver_of i s) \<noteq> bit v i) (receiver_of i s)"
  have "sheet (drive (strobe y) y) = sheet y" for y by (simp add: drive_def sheet_def)
  with s s' assms(4,5) show "post (ret u) s' (\<lambda>_. facing i x)"
    by (intro post_ret) (simp add: facing_def)
qed (simp add: facing_def)

lemma stays_facing_soft:
  "stays (facing i x) (upd (\<lambda>p. p\<lparr>current_phase := ph\<rparr>))"
  by (rule staysI, rule post_upd) (auto simp: facing_def wired_def raw_io_port_def receiver.observe_prt)

lemma stays_poll_port:
  assumes "in_out_build (env_build E)"
  shows "stays (facing i x) (poll_port E (port_pins E) m v usec)"
proof -
  have "stays (facing i x) (poll_port_loop E (port_pins E) m v j left)" for j left
    by (induction left arbitrary: j) (auto intro!: stays_bindp stays_if stays_ret stays_facing assms)
  then show ?thesis by (simp add: poll_port_def)
qed

lemma stays_ecp_waits:
  assumes "in_out_build (env_build E)"
  shows "stays (facing 0 x) (event_36_loop (port_dir_pins E) retries)"
    and "stays (facing 0 x) (host_transfer_recovery E (port_dir_pins E))"
proof -
  show "stays (facing 0 x) (event_36_loop (port_dir_pins E) retries)"
    by (induction retries) (auto intro!: stays_bindp stays_if stays_ret stays_facing assms)
  show "stays (facing 0 x) (host_transfer_recovery E (port_dir_pins E))"
    unfolding host_transfer_recovery_def port_dir_pins_simps
    by (intro stays_bindp stays_if stays_ret stays_facing stays_facing_frob assms) simp_all
qed

subsection \<open>An EPP write\<close>

lemma epp_loop_taken:
  assumes "wired 1 s" and "\<not> strobe (receiver_of 1 s)" and E: "in_out_build (env_build E)"
  shows "post (epp_write_loop E (port_pins E) count bs) s (taken 1 s count bs)"
  using assms(1,2)
proof (induction bs arbitrary: count s)
  case Nil
  then show ?case by (simp add: post_ret taken_def)
next
  case (Cons b bs)
  note frob = receive_frob_step [OF _ E, where i = 1]
  have rest: "post (epp_write_loop E (port_pins E) (count + 1) bs) s1 (taken 1 s count (b # bs))"
    if "takes 1 s [b] s1" for s1 :: "'a sys"
  proof -
    have "wired 1 s1" "\<not> strobe (receiver_of 1 s1)" using that by (simp_all add: takes_def)
    from Cons.IH [OF this, of "count + 1"] show ?thesis by (rule post_weaken) (rule taken_Cons [OF that])
  qed
  show ?case
    unfolding epp_write_loop.simps
    by (rule receive_data_step [OF Cons.prems(1) E], rule frob, assumption, simp, simp,
        rule facing_step [OF stays_poll_port [OF E]], assumption, rule post_if,
        rule post_ret, rule taken_one, drule sheetD(3), use Cons.prems(2) in simp,
        rule frob, assumption, simp, simp,
        rule facing_step [OF stays_poll_port [OF E]], assumption, rule post_if,
        rule post_ret, rule taken_one, (drule sheetD(3))+, use Cons.prems(2) in simp,
        rule rest, (frule sheetD(2), drule sheetD(3))+, use Cons.prems(2) in \<open>simp add: takes_def\<close>)
qed

text \<open>The idle state that the call puts on the lines first raises the strobe.\<close>

lemma epp_write_taken:
  fixes s :: "'w sys"
  assumes "raw_io_port s" and E: "in_out_build (env_build E)"
  shows "post (default_epp_write_data E (port_pins E) buffer) s (taken 1 s 0 buffer)"
proof -
  let ?m = "C1284_NSTROBE OR C1284_NAUTOFD OR C1284_NSELECTIN OR C1284_NINIT :: u8"
  let ?v = "C1284_NAUTOFD OR C1284_NSELECTIN OR C1284_NINIT :: u8"
  have loop: "post (epp_write_loop E (port_pins E) 0 buffer) s2 (taken 1 s 0 buffer)"
    if "wired 1 s2" "receiver_of 1 s2 = drive False (receiver_of 1 s)" for s2 :: "'w sys"
    using epp_loop_taken [OF that(1) _ E, of 0 buffer] that(2) taken_same [of 1 s2 s] by simp
  have idle: "post (p_frob_control (port_pins E) ?m ?v) s
     (\<lambda>_ s1. wired 1 s1 \<and> receiver_of 1 s1 = drive False (receiver_of 1 s))"
  proof (rule post_weaken [OF receiver.frob_control_observed [OF assms, where i = 1]])
    fix u and s1 :: "'w sys"
    assume s1: "receiver.control_written 1 s s1 \<and> (\<forall>j. j = 0 \<or> j = 1 \<longrightarrow>
       bit (ctr (prt s1)) j = (if bit ?m j then \<not> bit ?v j else bit (ctr (prt s)) j \<noteq> bit ?v j))"
    then have "bit (ctr (prt s1)) 1 = False" by simp
    with control_driven [OF assms(1) conjunct1 [OF s1]]
    show "wired 1 s1 \<and> receiver_of 1 s1 = drive False (receiver_of 1 s)" by simp
  qed simp
  show ?thesis
    unfolding default_epp_write_data_def
  proof (rule post_bindp, rule post_weaken [OF idle])
    fix u and s1 :: "'w sys" assume "wired 1 s1 \<and> receiver_of 1 s1 = drive False (receiver_of 1 s)"
    then show "post (bindp (p_data_dir (port_pins E) 0) (\<lambda>_. epp_write_loop E (port_pins E) 0 buffer)) s1
        (taken 1 s 0 buffer)"
      by (elim conjE) (rule receive_dir_step [OF _ E], assumption, simp, rule loop, assumption, erule trans)
  qed
qed

subsection \<open>An ECP write\<close>

text \<open>A byte may be put on the lines again after a recovery, but the strobe stays low: it is taken once.\<close>

lemma ecp_offer_taken:
  fixes s :: "'w sys"
  assumes "wired 0 s" and "\<not> strobe (printer_of s)" and E: "in_out_build (env_build E)"
  shows "post (ecp_offer_byte E (port_dir_pins E) b) s (\<lambda>_ s'. wired 0 s' \<and> strobe (printer_of s') \<and>
     received (printer_of s') = received (printer_of s) @ [b])"
proof -
  let ?low = "\<lambda>s'. wired 0 s' \<and> strobe (printer_of s') \<and> received (printer_of s') = received (printer_of s) @ [b]"
  let ?I = "\<lambda>s'. wired 0 s' \<and> \<not> strobe (printer_of s') \<and> received (printer_of s') = received (printer_of s) \<or> ?low s'"
  have low: "?low s2" if "?low s1" "wired 0 s2" "sheet (printer_of s2) = sheet (printer_of s1)" for s1 s2 :: "'w sys"
    using that sheetD [OF that(3)] by simp
  show ?thesis
    unfolding ecp_offer_byte_def port_dir_pins_simps
  proof (rule loop_post [where I = ?I])
    fix s0 :: "'w sys" assume s0: "?I s0"
    then have w: "wired 0 s0" by blast
    show "post (bindp (p_write_data (port_pins E) b) (\<lambda>_.
       bindp (p_frob_control (port_pins E) C1284_NSTROBE 0) (\<lambda>_.
       bindp (udelay E 5) (\<lambda>_.
       bindp (event_36_loop (port_dir_pins E) 100) (\<lambda>success.
       if success then ret (Some True)
       else bindp (host_transfer_recovery E (port_dir_pins E)) (\<lambda>again.
            ret (if again then None else Some False))))))) s0
       (\<lambda>r s'. (r = None \<longrightarrow> ?I s') \<and> (\<forall>a. r = Some a \<longrightarrow> ?low s'))"
    proof (rule receive_data_step [OF w E], rule receive_frob_step [OF _ E, where i = 0], assumption, simp, simp)
      fix u v and s1 s2 :: "'w sys"
      assume s1: "wired 0 s1" "printer_of s1 = (printer_of s0)\<lparr>latch := b\<rparr>" and s2: "wired 0 s2"
        "printer_of s2 = drive (if bit C1284_NSTROBE 0 then \<not> bit (0 :: u8) 0
           else strobe (printer_of s1) \<noteq> bit (0 :: u8) 0) (printer_of s1)"
      have l2: "?low s2" using s0 s1 s2 by auto
      have over: "post (ret r) s' (\<lambda>r s'. (r = None \<longrightarrow> ?I s') \<and> (\<forall>a. r = Some a \<longrightarrow> ?low s'))"
        if "?low s'" for r :: "bool option" and s' :: "'w sys"
        using that by (intro post_ret) blast
      show "post (bindp (udelay E 5) (\<lambda>_.
         bindp (event_36_loop (port_dir_pins E) 100) (\<lambda>success.
         if success then ret (Some True)
         else bindp (host_transfer_recovery E (port_dir_pins E)) (\<lambda>again.
              ret (if again then None else Some False))))) s2
         (\<lambda>r s'. (r = None \<longrightarrow> ?I s') \<and> (\<forall>a. r = Some a \<longrightarrow> ?low s'))"
        by (rule facing_step [OF stays_facing(3) [OF E] s2(1)],
            rule facing_step [OF stays_ecp_waits(1) [OF E]], assumption, rule post_if,
            rule over, rule low, rule low, rule l2, assumption+,
            rule facing_step [OF stays_ecp_waits(2) [OF E]], assumption,
            rule over, rule low, rule low, rule low, rule l2, assumption+)
    qed
  qed (use assms in simp)
qed

lemma ecp_loop_taken:
  assumes "wired 0 s" and "\<not> strobe (printer_of s)" and E: "in_out_build (env_build E)"
  shows "post (ecp_write_loop E (port_dir_pins E) count bs) s (taken 0 s count bs)"
  using assms(1,2)
proof (induction bs arbitrary: count s)
  case Nil
  then show ?case by (simp add: post_ret taken_def)
next
  case (Cons b bs)
  note frob = receive_frob_step [OF _ E, where i = 0]
  have rest: "post (ecp_write_loop E (port_dir_pins E) (count + 1) bs) s1 (taken 0 s count (b # bs))"
    if "takes 0 s [b] s1" for s1 :: "'a sys"
  proof -
    have "wired 0 s1" "\<not> strobe (printer_of s1)" using that by (simp_all add: takes_def)
    from Cons.IH [OF this, of "count + 1"] show ?thesis by (rule post_weaken) (rule taken_Cons [OF that])
  qed
  show ?case
    unfolding ecp_write_loop.simps port_dir_pins_simps
  proof (rule post_bindp, rule post_weaken [OF ecp_offer_taken [OF Cons.prems E]], elim conjE)
    fix success and s1 :: "'a sys"
    assume s1: "wired 0 s1" "strobe (printer_of s1)" "received (printer_of s1) = received (printer_of s) @ [b]"
    show "post (if \<not> success then ret (int count)
        else bindp (p_frob_control (port_pins E) C1284_NSTROBE C1284_NSTROBE) (\<lambda>_.
          bindp (udelay E 5) (\<lambda>_.
          bindp (p_wait_status (port_pins E) S1284_BUSY 0 signal_timeout) (\<lambda>r.
          if truth r then ret (int count) else ecp_write_loop E (port_dir_pins E) (count + 1) bs)))) s1
        (taken 0 s count (b # bs))"
      by (rule post_if, rule post_ret, rule taken_one, rule s1(3),
          rule frob, rule s1(1), simp, simp,
          rule facing_step [OF stays_facing(3) [OF E]], assumption,
          rule facing_step [OF stays_facing(2) [OF E]], assumption, rule post_if,
          rule post_ret, rule taken_one, (drule sheetD(3))+, simp add: s1,
          rule rest, (frule sheetD(2), drule sheetD(3))+, simp add: takes_def s1)
  qed
qed

text \<open>Turning the bus round does not touch the strobe.\<close>

lemma ecp_write_taken:
  fixes s :: "'w sys"
  assumes "wired 0 s" and "\<not> strobe (printer_of s)" and E: "in_out_build (env_build E)"
    and "\<not> bit level 0"
  shows "post (ecp_write E (port_dir_pins E) level buffer) s (taken 0 s 0 buffer)"
proof -
  let ?x = "sheet (printer_of s)"
  have rest: "resting 0 ?x s" using assms(1,2) by (simp add: resting_def)
  have turn: "stays (resting 0 ?x) (if b then p_ecp_rev_to_fwd (port_dir_pins E) else ret 0)" for b
    unfolding port_dir_pins_simps by (intro stays_if stays_ret stays_rev_to_fwd E)
  have loop: "post (ecp_write_loop E (port_dir_pins E) 0 buffer) s1 (taken 0 s 0 buffer)"
    if "resting 0 ?x s1" for s1 :: "'w sys"
  proof -
    have s1: "wired 0 s1" "\<not> strobe (printer_of s1)" "received (printer_of s1) = received (printer_of s)"
      using that sheetD(3) [of "printer_of s1" "printer_of s"] by (auto simp: resting_def)
    from ecp_loop_taken [OF s1(1,2) E, of 0 buffer] show ?thesis unfolding taken_same [OF s1(3)] .
  qed
  have phase: "post (bindp (upd (\<lambda>p. p\<lparr>current_phase := ph\<rparr>)) (\<lambda>_. ret r)) s1 (taken 0 s 0 buffer)"
    if "taken 0 s 0 buffer r s1" for r ph and s1 :: "'w sys"
    using that by (intro post_bindp post_upd post_ret) (simp add: taken_def receiver.observe_prt)
  have frob: "stays (resting 0 ?x) (p_frob_control (port_pins E) (C1284_NAUTOFD OR C1284_NINIT) level)"
    by (rule stays_pins(4) [OF E]) (use assms(4) in simp_all)
  have none: "taken 0 s 0 buffer 0 s1" if "resting 0 ?x s1" for s1 :: "'w sys"
    using that sheetD(3) [of "printer_of s1" "printer_of s"]
    unfolding taken_def by (intro exI [of _ 0]) (auto simp: resting_def)
  show ?thesis
    unfolding ecp_write_def port_dir_pins_simps(7)
    by (rule post_bindp, rule post_gets, rule stays_step [OF turn rest], rule post_if,
        rule post_ret, erule none, rule stays_step [OF stays_soft(2)], assumption,
        rule stays_step [OF frob], assumption, rule post_bindp, rule post_weaken [OF loop], assumption,
        erule phase)
qed

subsection \<open>Negotiation\<close>

text \<open>The request byte of a negotiation is taken once, or not at all when the negotiation fails.\<close>

definition requested :: "'w sys \<Rightarrow> u8 \<Rightarrow> int \<Rightarrow> 'w sys \<Rightarrow> bool" where
  "requested s b r s' \<longleftrightarrow> takes 0 s [b] s' \<or> takes 0 s [] s' \<and> r = E1284_NEGFAILED"

lemma takes_resting: "takes 0 s bs s1 \<Longrightarrow> resting 0 (sheet (printer_of s1)) s2 \<Longrightarrow> takes 0 s bs s2"
  using sheetD(3) [of "printer_of s2" "printer_of s1"] by (auto simp: takes_def resting_def)

lemma takes_rests: "takes 0 s bs s1 \<Longrightarrow> resting 0 (sheet (printer_of s1)) s1"
  by (simp add: takes_def resting_def)

lemma takes_step:
  assumes "takes 0 s bs s1" and "\<And>x. stays (resting 0 x) m" and "\<And>a s'. takes 0 s bs s' \<Longrightarrow> post (k a) s' Q"
  shows "post (bindp m k) s1 Q"
  by (rule stays_step [OF assms(2) takes_rests [OF assms(1)]]) (intro assms(3) takes_resting [OF assms(1)])

lemma abort_takes:
  assumes "takes 0 s bs s1" and "in_out_build (env_build E)" and "\<And>s'. takes 0 s bs s' \<Longrightarrow> Q r s'"
  shows "post (negotiate_abort (port_mode_pins E) r) s1 Q"
  unfolding negotiate_abort_def port_mode_pins_simps
  by (rule takes_step [OF assms(1) stays_terminate [OF assms(2)]]) (intro post_ret assms(3))

lemma negotiate_requests:
  fixes s :: "'w sys"
  assumes s: "takes 0 s [] s" and E: "in_out_build (env_build E)"
    and "mode \<noteq> current_mode (prt s)" and "mode \<noteq> M1284_COMPAT"
  shows "post (default_negotiate E (port_mode_pins E) mode) s
     (requested s (uchar (extensibility_request mode)))"
proof -
  let ?b = "uchar (extensibility_request mode)"
  note pins = stays_pins [OF E, where i = 0, simplified]
  have wired: "wired 0 s" using s by (simp add: takes_def)
  have after: "takes 0 s [?b] s2" if "resting 0 (?b, False, received (printer_of s), ov) s1" "wired 0 s2"
    "printer_of s2 = drive False x" "x = drive True (printer_of s1)" for s1 s2 :: "'w sys" and x ov
    using that by (auto simp: takes_def resting_def sheet_def)
  let ?x = "(?b, False, received (printer_of s), overrun (printer_of s))"
  have before: "resting 0 ?x s1" if "wired 0 s1" "printer_of s1 = (printer_of s)\<lparr>latch := ?b\<rparr>" for s1 :: "'w sys"
    using that s by (simp add: resting_def takes_def sheet_def)
  have early: "takes 0 s [] s1" if "resting 0 ?x s1" for s1 :: "'w sys"
    using that by (auto simp: resting_def takes_def sheet_def)
  have accepted: "post (bindp (p_wait_status (port_pins E) S1284_NACK S1284_NACK signal_timeout) (\<lambda>r6.
     if truth r6 then negotiate_abort (port_mode_pins E) E1284_NEGFAILED
     else
     bindp (upd (\<lambda>p. p\<lparr>current_mode := c_not mode\<rparr>)) (\<lambda>_.
     bindp (p_read_status (port_pins E)) (\<lambda>st.
     if (st AND S1284_SELECT) \<noteq> (if truth mode then S1284_SELECT else 0)
     then negotiate_abort (port_mode_pins E) E1284_REJECTED
     else
     bindp (upd (\<lambda>p. p\<lparr>current_mode := mode\<rparr>)) (\<lambda>_.
     if truth (extensibility_request mode AND M1284_ECP) then
       bindp (p_frob_control (port_pins E) C1284_NAUTOFD 0) (\<lambda>_.
       bindp (p_wait_status (port_pins E) S1284_PERROR S1284_PERROR signal_timeout) (\<lambda>r31.
       if truth r31 then negotiate_abort (port_mode_pins E) E1284_NEGFAILED
       else bindp (upd (\<lambda>p. p\<lparr>current_channel := 0\<rparr>)) (\<lambda>_.
            bindp (upd (\<lambda>p. p\<lparr>current_phase := PH1284_FWD_IDLE\<rparr>)) (\<lambda>_.
            ret E1284_OK))))
     else ret E1284_OK))))) s1 (requested s ?b)" if "takes 0 s [?b] s1" for s1 :: "'w sys"
    by (rule takes_step [OF that pins(1)], rule post_if, rule abort_takes [OF _ E], assumption, simp add: requested_def,
        rule takes_step [OF _ stays_soft(1)], assumption,
        rule takes_step [OF _ stays_read_status [OF E]], assumption,
        rule post_if, rule abort_takes [OF _ E], assumption, simp add: requested_def,
        rule takes_step [OF _ stays_soft(1)], assumption, rule post_if,
        rule takes_step [OF _ pins(4)], assumption, simp, simp, rule takes_step [OF _ pins(1)], assumption,
        rule post_if, rule abort_takes [OF _ E], assumption, simp add: requested_def,
        rule takes_step [OF _ stays_soft(3)], assumption, rule takes_step [OF _ stays_soft(2)], assumption,
        rule post_ret, simp add: requested_def, rule post_ret, simp add: requested_def)
  show ?thesis
    unfolding default_negotiate_def Let_def port_mode_pins_simps
    by (rule post_bindp, rule post_gets, simp only: assms(3,4) if_False,
        rule receive_data_step [OF wired E],
        rule stays_step [OF pins(4)], simp, simp, erule before, assumption,
        rule stays_step [OF pins(1)], assumption,
        rule post_if,
        rule abort_takes [OF early E], assumption, simp add: requested_def,
        rule receive_frob_step [OF resting_wired E, where i = 0], assumption, simp, simp,
        rule receive_time_step, assumption,
        rule receive_frob_step [OF _ E, where i = 0], assumption, simp, simp,
        rule accepted, rule after, assumption, assumption, simp, simp)
qed


end
