(* ===== verification/Sender.thy ===== *)
theory Sender
  imports Observer Wire
begin

section \<open>A sender at the other end of the cable\<close>

text \<open>
  What the reading modes promise, from the side of the peripheral. In nibble, byte and ECP mode
  and in EPP the host pulls nAutoFd low, the peripheral answers on a status line once it has put
  its next item on the lines, the host reads the item and raises nAutoFd. A sender is a fold over
  the trace of the instructions on the three registers. It counts the items that have been fetched
  from it this way, and says whether the peripheral has been \<open>honest\<close>: whenever its
  answer was read the item was there, and it stayed there until nAutoFd was raised. The theorems:
  what a read through direct I/O from an honest peripheral stores are the items from the first on
  that has not been fetched yet, in order.
\<close>

subsection \<open>The sender\<close>

text \<open>
  \<open>answers st\<close>: the status \<open>st\<close>, as the library sees it, is the answer
  of the peripheral. \<open>on_status i st\<close> and \<open>on_data i v\<close>: the status, or
  the data lines, show the item \<open>i\<close>.
\<close>

record wares =
  answers :: "u8 \<Rightarrow> bool"
  on_status :: "nat \<Rightarrow> u8 \<Rightarrow> bool"
  on_data :: "nat \<Rightarrow> u8 \<Rightarrow> bool"

text \<open>\<open>taking\<close>: nAutoFd is low; \<open>shown\<close>: since then the answer has been read.\<close>

record sender =
  taking :: bool
  shown :: bool
  place :: nat
  honest :: bool

definition look :: "wares \<Rightarrow> u8 \<Rightarrow> sender \<Rightarrow> sender" where
  "look W st x =
     (if answers W st then x\<lparr>shown := True, honest := honest x \<and> on_status W (place x) st\<rparr>
      else x\<lparr>honest := honest x \<and> \<not> shown x\<rparr>)"

definition pull :: "bool \<Rightarrow> sender \<Rightarrow> sender" where
  "pull low x =
     (if low then x\<lparr>taking := True\<rparr>
      else x\<lparr>taking := False, shown := False, place := (if taking x \<and> shown x then place x + 1 else place x)\<rparr>)"

fun sender_step :: "wares \<Rightarrow> u16 \<Rightarrow> event \<Rightarrow> sender \<Rightarrow> sender" where
  "sender_step W a (Outb v p) x = (if p = a + 2 then pull (bit v 1) x else x)"
| "sender_step W a (Inb p v) x =
     (if taking x \<and> p = a + 1 then look W (v XOR S1284_INVERTED) x
      else if taking x \<and> shown x \<and> p = a then x\<lparr>honest := honest x \<and> on_data W (place x) v\<rparr>
      else x)"
| "sender_step W a e x = x"

definition sender_start :: sender where
  "sender_start = \<lparr> taking = False, shown = False, place = 0, honest = True \<rparr>"

abbreviation sender_of :: "wares \<Rightarrow> 'w sys \<Rightarrow> sender" where
  "sender_of W s \<equiv> observe (sender_step W) sender_start s"

interpretation sender: observer "sender_step W" sender_start for W
proof
  show "sender_step W a e x = x" if "\<not> register_access e" for a e x
    using that by (cases e) simp_all
qed

subsection \<open>Facts about the sender\<close>

lemma look_simps [simp]:
  "taking (look W st x) = taking x" "place (look W st x) = place x"
  "answers W st \<Longrightarrow> shown (look W st x)"
  "shown x \<Longrightarrow> shown (look W st x)"
  "answers W st \<Longrightarrow> honest (look W st x) = (honest x \<and> on_status W (place x) st)"
  by (simp_all add: look_def)

lemma look_shown [simp]:
  "shown x \<Longrightarrow> honest (look W st x) = (honest x \<and> answers W st \<and> on_status W (place x) st)"
  by (simp add: look_def)

lemma look_miss: "\<not> answers W st \<Longrightarrow> \<not> shown x \<Longrightarrow> look W st x = x"
  by (simp add: look_def)

lemma pull_simps [simp]:
  "taking (pull b x) = b" "honest (pull b x) = honest x" "\<not> shown (pull False x)"
  "shown (pull True x) = shown x" "place (pull True x) = place x"
  "taking x \<Longrightarrow> shown x \<Longrightarrow> place (pull False x) = place x + 1"
  "\<not> shown x \<Longrightarrow> place (pull b x) = place x"
  by (simp_all add: pull_def)

text \<open>Lost honesty does not come back, and the answer is only read while nAutoFd is low.\<close>

lemma sender_step_honest: "honest (sender_step W a e x) \<Longrightarrow> honest x"
  by (cases e) (auto simp: look_def split: if_splits)

lemma honest_fold: "honest (fold (sender_step W a) evs x) \<Longrightarrow> honest x"
  by (induction evs arbitrary: x) (auto dest: sender_step_honest)

lemma sender_step_shown: "(shown x \<longrightarrow> taking x) \<Longrightarrow> shown (sender_step W a e x) \<longrightarrow> taking (sender_step W a e x)"
  by (cases e) (auto simp: look_def pull_def)

lemma shown_taking: "shown (sender_of W s) \<Longrightarrow> taking (sender_of W s)"
proof -
  have "shown (fold (sender_step W a) evs x) \<longrightarrow> taking (fold (sender_step W a) evs x)"
    if "shown x \<longrightarrow> taking x" for a evs x
    using that by (induction evs arbitrary: x) (simp_all add: sender_step_shown)
  then show "shown (sender_of W s) \<Longrightarrow> taking (sender_of W s)"
    by (simp add: observe_def sender_start_def)
qed

lemma pull_same: "pull (taking (sender_of W s)) (sender_of W s) = sender_of W s"
  using shown_taking [of W s] by (cases "sender_of W s") (auto simp: pull_def)

lemma honest_goes_on:
  assumes "\<And>a d tr. solid (within a d tr) m" and "raw_io_port s"
  shows "post m s (\<lambda>_ s'. honest (sender_of W s') \<longrightarrow> honest (sender_of W s))"
  by (rule post_weaken [OF observe_goes_on [OF assms(1) raw_io_ready [OF assms(2)],
      where step = "sender_step W" and start = sender_start]])
     (auto dest: honest_fold)

subsection \<open>One operation\<close>

text \<open>\<open>tuned\<close>: the copy of the control register is right about nAutoFd.\<close>

definition tuned :: "wares \<Rightarrow> 'w sys \<Rightarrow> bool" where
  "tuned W s \<longleftrightarrow> raw_io_port s \<and> taking (sender_of W s) = bit (ctr (prt s)) 1"

lemma tuned_raw: "tuned W s \<Longrightarrow> raw_io_port s"
  by (simp add: tuned_def)

lemma tuned_footing:
  "tuned W s \<Longrightarrow> footing s' = footing s \<Longrightarrow> taking (sender_of W s') = taking (sender_of W s) \<Longrightarrow> tuned W s'"
  using footingD [of s' s] by (simp add: tuned_def)

lemma control_pulled:
  assumes "raw_io_port s" and "sender.control_written W s s'"
  shows "tuned W s' \<and> sender_of W s' = pull (bit (ctr (prt s')) 1) (sender_of W s)"
  using assms by (simp add: sender.control_written_def tuned_def raw_io_port_def)

lemma send_control_step:
  assumes "raw_io_port s" and "in_out_build (env_build E)" and "c AND 0x20 = 0"
    and "\<And>u s'. tuned W s' \<Longrightarrow> sender_of W s' = pull (\<not> bit c 1) (sender_of W s) \<Longrightarrow> post (k u) s' Q"
  shows "post (bindp (p_write_control (port_pins E) c) k) s Q"
  by (rule post_bindp, rule post_weaken [OF sender.write_control_observed [OF assms(1-3), where W = W]])
     (elim conjE, drule control_pulled [OF assms(1)], rule assms(4), auto)

text \<open>nAutoFd is set (the first case) or left alone.\<close>

lemma send_set_step:
  assumes "raw_io_port s" and "in_out_build (env_build E)" and "m AND 0x20 = 0" and "bit m 1"
    and "\<And>u s'. tuned W s' \<Longrightarrow> sender_of W s' = pull (\<not> bit v 1) (sender_of W s) \<Longrightarrow> post (k u) s' Q"
  shows "post (bindp (p_frob_control (port_pins E) m v) k) s Q"
  by (rule post_bindp, rule post_weaken [OF sender.frob_control_observed [OF assms(1-3), where W = W]])
     (elim conjE, drule control_pulled [OF assms(1)], rule assms(5), use assms(4) in auto)

lemma send_same:
  assumes "tuned W s" and "sender.control_written W s s'" and "bit (ctr (prt s')) 1 = bit (ctr (prt s)) 1"
  shows "tuned W s' \<and> sender_of W s' = sender_of W s"
  using control_pulled [OF tuned_raw [OF assms(1)] assms(2)] assms(1,3) pull_same [of W s]
  by (simp add: tuned_def)

lemma send_other_step:
  assumes "tuned W s" and "in_out_build (env_build E)" and "m AND 0x20 = 0" and "\<not> bit m 1" "\<not> bit v 1"
    and "\<And>u s'. tuned W s' \<Longrightarrow> sender_of W s' = sender_of W s \<Longrightarrow> post (k u) s' Q"
  shows "post (bindp (p_frob_control (port_pins E) m v) k) s Q"
proof (rule post_bindp, rule post_weaken
    [OF sender.frob_control_observed [OF tuned_raw [OF assms(1)] assms(2,3), where W = W]])
  fix u and s' :: "'a sys"
  assume s': "sender.control_written W s s' \<and> (\<forall>j. j = 0 \<or> j = 1 \<longrightarrow>
     bit (ctr (prt s')) j = (if bit m j then \<not> bit v j else bit (ctr (prt s)) j \<noteq> bit v j))"
  then have "bit (ctr (prt s')) 1 = bit (ctr (prt s)) 1" using assms(4,5) by simp
  from send_same [OF assms(1) conjunct1 [OF s'] this] show "post (k u) s' Q" by (elim conjE) (rule assms(6))
qed

lemma send_dir_step:
  assumes "tuned W s" and "in_out_build (env_build E)"
    and "\<And>u s'. tuned W s' \<Longrightarrow> sender_of W s' = sender_of W s \<Longrightarrow> post (k u) s' Q"
  shows "post (bindp (p_data_dir (port_pins E) r) k) s Q"
proof (rule post_bindp, rule post_weaken
    [OF sender.data_dir_observed [OF tuned_raw [OF assms(1)] assms(2), where W = W]], elim conjE)
  fix u and s' :: "'a sys"
  assume "sender.control_written W s s'" "bit (ctr (prt s')) 1 = bit (ctr (prt s)) 1"
  from send_same [OF assms(1) this] show "post (k u) s' Q" by (elim conjE) (rule assms(3))
qed

lemma send_time_step:
  assumes "tuned W s" and "\<And>u s'. tuned W s' \<Longrightarrow> sender_of W s' = sender_of W s \<Longrightarrow> post (k u) s' Q"
  shows "post (bindp (udelay E n) k) s Q"
proof (rule post_step [OF sender.time_unseen(2)])
  show "post (k u) s' Q" if "(footing s', sender_of W s') = (footing s, sender_of W s)" for u and s' :: "'a sys"
    using that by (intro assms(2) tuned_footing [OF assms(1)]) simp_all
qed

text \<open>Readings.\<close>

lemma send_status_step:
  assumes "tuned W s" and "in_out_build (env_build E)"
    and "\<And>st s'. tuned W s' \<Longrightarrow> sender_of W s' =
        (if taking (sender_of W s) then look W st (sender_of W s) else sender_of W s) \<Longrightarrow> post (k (uint st)) s' Q"
  shows "post (bindp (p_read_status (port_pins E)) k) s Q"
proof (rule post_bindp, rule post_weaken
    [OF sender.read_status_observed [OF tuned_raw [OF assms(1)] assms(2), where W = W]], elim conjE exE)
  fix st b and s' :: "'a sys"
  assume f: "footing s' = footing s" and st: "st = uint (b XOR S1284_INVERTED)"
    and x: "sender_of W s' = sender_step W (ucast (base (prt s))) (Inb (ucast (base (prt s)) + 1) b) (sender_of W s)"
  then have "sender_of W s' = (if taking (sender_of W s) then look W (b XOR S1284_INVERTED) (sender_of W s)
     else sender_of W s)" by simp
  moreover from this have "tuned W s'" by (intro tuned_footing [OF assms(1) f]) simp
  ultimately show "post (k st) s' Q" unfolding st by (intro assms(3))
qed

lemma send_data_step:
  assumes "tuned W s" and "in_out_build (env_build E)" and "taking (sender_of W s)" "shown (sender_of W s)"
    and "\<And>v s'. tuned W s' \<Longrightarrow> sender_of W s' = (sender_of W s)\<lparr>honest := honest (sender_of W s) \<and>
        on_data W (place (sender_of W s)) v\<rparr> \<Longrightarrow> post (k (uint v)) s' Q"
  shows "post (bindp (p_read_data (port_pins E)) k) s Q"
proof (rule post_bindp, rule post_weaken
    [OF sender.read_data_observed [OF tuned_raw [OF assms(1)] assms(2), where W = W]], elim conjE exE)
  fix d b and s' :: "'a sys"
  assume f: "footing s' = footing s" and d: "d = uint b"
    and "sender_of W s' = sender_step W (ucast (base (prt s))) (Inb (ucast (base (prt s))) b) (sender_of W s)"
  then have "sender_of W s' = (sender_of W s)\<lparr>honest := honest (sender_of W s) \<and> on_data W (place (sender_of W s)) b\<rparr>"
    using assms(3,4) by simp
  moreover from this have "tuned W s'" by (intro tuned_footing [OF assms(1) f]) simp
  ultimately show "post (k d) s' Q" unfolding d by (intro assms(5))
qed

text \<open>A wait for the answer, and one with nAutoFd high, which the sender does not see.\<close>

lemma send_answer:
  assumes "tuned W s" and "in_out_build (env_build E)" and "taking (sender_of W s)" "\<not> shown (sender_of W s)"
    and ans: "\<And>st. answers W st \<longleftrightarrow> st AND m = v"
  shows "post (p_wait_status (port_pins E) m v t) s (\<lambda>r s'. tuned W s' \<and>
     (r = E1284_OK \<and> (\<exists>st. answers W st \<and> sender_of W s' = look W st (sender_of W s)) \<or>
      r = E1284_TIMEDOUT \<and> sender_of W s' = sender_of W s))"
proof (rule post_weaken [OF sender.wait_status_observed
      [OF tuned_raw [OF assms(1)] assms(2), where g = "\<lambda>x. x" and W = W]])
  let ?a = "ucast (base (prt s)) :: u16" and ?x = "sender_of W s"
  show "sender_step W ?a (Inb (?a + 1) b) x = ?x"
    if "x = ?x" "(b XOR S1284_INVERTED) AND m \<noteq> v" for b x
    using that assms(3,4) ans by (simp add: look_miss)
  fix r and s' :: "'a sys"
  assume s': "footing s' = footing s \<and>
     (r = E1284_OK \<and> (\<exists>b x. (b XOR S1284_INVERTED) AND m = v \<and> x = ?x \<and>
        sender_of W s' = sender_step W ?a (Inb (?a + 1) b) x) \<or>
      r = E1284_TIMEDOUT \<and> sender_of W s' = ?x)"
  then have x: "r = E1284_OK \<and> (\<exists>st. answers W st \<and> sender_of W s' = look W st ?x) \<or>
      r = E1284_TIMEDOUT \<and> sender_of W s' = ?x"
    using assms(3) ans by auto
  then have "taking (sender_of W s') = taking ?x" by auto
  with x s' show "tuned W s' \<and> (r = E1284_OK \<and> (\<exists>st. answers W st \<and> sender_of W s' = look W st ?x) \<or>
      r = E1284_TIMEDOUT \<and> sender_of W s' = ?x)"
    using tuned_footing [OF assms(1)] by blast
qed

lemma send_answer_step:
  assumes "tuned W s" and "in_out_build (env_build E)" and "taking (sender_of W s)" "\<not> shown (sender_of W s)"
    and "\<And>st. answers W st \<longleftrightarrow> st AND m = v"
    and "\<And>st s'. tuned W s' \<Longrightarrow> answers W st \<Longrightarrow> sender_of W s' = look W st (sender_of W s) \<Longrightarrow>
        post (k E1284_OK) s' Q"
    and "\<And>s'. tuned W s' \<Longrightarrow> sender_of W s' = sender_of W s \<Longrightarrow> post (k E1284_TIMEDOUT) s' Q"
  shows "post (bindp (p_wait_status (port_pins E) m v t) k) s Q"
  by (rule post_bindp, rule post_weaken [OF send_answer [OF assms(1-5)]])
     (elim conjE disjE exE, simp add: assms(6), simp add: assms(7))

lemma send_idle_step:
  assumes "tuned W s" and "in_out_build (env_build E)" and "\<not> taking (sender_of W s)"
    and "\<And>r s'. tuned W s' \<Longrightarrow> sender_of W s' = sender_of W s \<Longrightarrow> post (k r) s' Q"
  shows "post (bindp (p_wait_status (port_pins E) m v t) k) s Q"
proof (rule post_bindp, rule post_weaken [OF sender.wait_status_observed
      [OF tuned_raw [OF assms(1)] assms(2), where g = "\<lambda>x. x" and W = W]])
  let ?a = "ucast (base (prt s)) :: u16" and ?x = "sender_of W s"
  show "sender_step W ?a (Inb (?a + 1) b) x = ?x" if "x = ?x" for b x
    using that assms(3) by simp
  fix r and s' :: "'a sys"
  assume s': "footing s' = footing s \<and>
     (r = E1284_OK \<and> (\<exists>b x. (b XOR S1284_INVERTED) AND m = v \<and> x = ?x \<and>
        sender_of W s' = sender_step W ?a (Inb (?a + 1) b) x) \<or>
      r = E1284_TIMEDOUT \<and> sender_of W s' = ?x)"
  then have x: "sender_of W s' = ?x" using assms(3) by auto
  then have "tuned W s'" using s' by (intro tuned_footing [OF assms(1)]) simp_all
  then show "post (k r) s' Q" using x by (rule assms(4))
qed

subsection \<open>Nibble mode\<close>

text \<open>The items are nibbles, the low one of each byte first; the answer is nAck low.\<close>

definition nibbles :: "(nat \<Rightarrow> u8) \<Rightarrow> wares" where
  "nibbles ds = \<lparr> answers = (\<lambda>st. st AND S1284_NACK = 0),
     on_status = (\<lambda>i st. nibble_status (ds (i div 2)) (4 * (i mod 2)) (uint st)), on_data = (\<lambda>_ _. True) \<rparr>"

lemma nibbles_simps [simp]:
  "answers (nibbles ds) st \<longleftrightarrow> st AND S1284_NACK = 0"
  "on_status (nibbles ds) i st \<longleftrightarrow> nibble_status (ds (i div 2)) (4 * (i mod 2)) (uint st)"
  by (simp_all add: nibbles_def)

text \<open>
  \<open>between W n c s\<close>: nAutoFd is high, \<open>n\<close> items have been fetched, and
  \<open>c\<close> is what the honest sender vouches for.
\<close>

definition between :: "wares \<Rightarrow> nat \<Rightarrow> bool \<Rightarrow> 'w sys \<Rightarrow> bool" where
  "between W n c s \<longleftrightarrow> tuned W s \<and> \<not> taking (sender_of W s) \<and> place (sender_of W s) = n \<and>
     (honest (sender_of W s) \<longrightarrow> c)"

text \<open>Where a read may begin: nAutoFd is high, and the next item is the \<open>n\<close>th.\<close>

definition starts_at :: "wares \<Rightarrow> nat \<Rightarrow> 'w sys \<Rightarrow> bool" where
  "starts_at W n s \<longleftrightarrow> raw_io_port s \<and> \<not> bit (ctr (prt s)) 1 \<and> \<not> taking (sender_of W s) \<and>
     place (sender_of W s) = n"

lemma starts_between: "starts_at W n s \<Longrightarrow> between W n True s"
  by (simp add: starts_at_def between_def tuned_def)

lemma between_starts: "between W n c s \<Longrightarrow> starts_at W n s \<and> (honest (sender_of W s) \<longrightarrow> c)"
  by (auto simp: starts_at_def between_def tuned_def)

lemma between_raw: "between W n c s \<Longrightarrow> raw_io_port s"
  by (simp add: between_def tuned_def)

lemma betweenD:
  assumes "between W n c s"
  shows "tuned W s" "\<not> taking (sender_of W s)" "\<not> shown (sender_of W s)" "place (sender_of W s) = n"
    "honest (sender_of W s) \<Longrightarrow> c"
  using assms shown_taking [of W s] by (auto simp: between_def)

lemma nibble_half_sent:
  assumes "between (nibbles ds) n c s" and E: "in_out_build (env_build E)"
  shows "post (nibble_half (port_mode_pins E)) s (\<lambda>r s'. case r of
     None \<Rightarrow> raw_io_port s' \<and> (honest (sender_of (nibbles ds) s') \<longrightarrow> c)
   | Some st \<Rightarrow> between (nibbles ds) (n + 1) (c \<and> nibble_status (ds (n div 2)) (4 * (n mod 2)) st) s')"
proof -
  note s = betweenD [OF assms(1)]
  show ?thesis
    unfolding nibble_half_def port_mode_pins_simps
    by (rule send_control_step [OF between_raw [OF assms(1)] E, where W = "nibbles ds"], simp,
        rule send_answer_step [OF _ E], assumption, simp, simp add: s, simp,
        simp only: if_False simp_thms, rule send_status_step [OF _ E], assumption,
        rule send_control_step [OF tuned_raw E, where W = "nibbles ds"], assumption, simp,
        rule send_idle_step [OF _ E], assumption, simp, rule post_if)
       (use s in \<open>auto simp: tuned_raw between_def intro!: post_ret\<close>)
qed

text \<open>\<open>vouched ds m buf\<close>: the buffer holds the items from \<open>m\<close> on, as far as it goes.\<close>

definition vouched :: "(nat \<Rightarrow> u8) \<Rightarrow> nat \<Rightarrow> u8 list \<Rightarrow> bool" where
  "vouched ds m buf \<longleftrightarrow> buf = map ds [m..<m + length buf]"

lemma vouched_Nil [simp]: "vouched ds m []"
  by (simp add: vouched_def)

lemma vouched_snoc: "vouched ds m buf \<Longrightarrow> b = ds (m + length buf) \<Longrightarrow> vouched ds m (buf @ [b])"
  unfolding vouched_def by simp

lemma nibble_loop_sent:
  assumes "between (nibbles ds) (2 * (m + length buf)) (vouched ds m buf) s" and E: "in_out_build (env_build E)"
  shows "post (nibble_loop (port_mode_pins E) len left buf) s
     (\<lambda>(r, buf') s'. honest (sender_of (nibbles ds) s') \<longrightarrow> vouched ds m buf')"
  using assms(1)
proof (induction left arbitrary: buf s)
  case 0
  then show ?case by (simp add: post_ret between_def)
next
  case (Suc left)
  let ?W = "nibbles ds" and ?n = "2 * (m + length buf)"
  have error: "post (nibble_error (port_mode_pins E) buf) s1
      (\<lambda>(r, buf') s'. honest (sender_of ?W s') \<longrightarrow> vouched ds m buf')"
    if "raw_io_port s1" "honest (sender_of ?W s1) \<longrightarrow> vouched ds m buf" for s1 :: "'a sys"
    unfolding nibble_error_def port_mode_pins_simps
    by (rule post_bindp, rule post_weaken [OF honest_goes_on [OF io_registers.via_terminate that(1), where W = ?W]])
       (use that(2) in \<open>auto intro: post_ret\<close>)
  have rest: "post (nibble_loop (port_mode_pins E) len left (buf @ [nibble_byte (nibble_low l) (nibble_high h)])) s1
      (\<lambda>(r, buf') s'. honest (sender_of ?W s') \<longrightarrow> vouched ds m buf')"
    if "between ?W (?n + 1 + 1) ((vouched ds m buf \<and> nibble_status (ds (?n div 2)) (4 * (?n mod 2)) l) \<and>
        nibble_status (ds ((?n + 1) div 2)) (4 * ((?n + 1) mod 2)) h) s1" for l h and s1 :: "'a sys"
  proof (rule Suc.IH)
    have "(?n + 1) div 2 = m + length buf" "(?n + 1) mod 2 = 1" by presburger+
    with that show "between ?W (2 * (m + length (buf @ [nibble_byte (nibble_low l) (nibble_high h)])))
        (vouched ds m (buf @ [nibble_byte (nibble_low l) (nibble_high h)])) s1"
      by (auto simp: between_def intro!: vouched_snoc nibble_roundtrip)
  qed
  have halves: "post (bindp (nibble_half (port_mode_pins E)) (\<lambda>low. case low of
        None \<Rightarrow> nibble_error (port_mode_pins E) buf
      | Some l \<Rightarrow> bindp (nibble_half (port_mode_pins E)) (\<lambda>high. case high of
          None \<Rightarrow> nibble_error (port_mode_pins E) buf
        | Some h \<Rightarrow> nibble_loop (port_mode_pins E) len left (buf @ [nibble_byte (nibble_low l) (nibble_high h)])))) s1
      (\<lambda>(r, buf') s'. honest (sender_of ?W s') \<longrightarrow> vouched ds m buf')"
    if s1: "between ?W ?n (vouched ds m buf) s1" for s1 :: "'a sys"
    by (rule post_bindp, rule post_weaken [OF nibble_half_sent [OF s1 E]], split option.split, intro conjI allI impI)
       (simp add: error, simp,
        rule post_bindp, rule post_weaken [OF nibble_half_sent [OF _ E]], assumption, split option.split,
        intro conjI allI impI, auto intro: error rest)
  have stop: "post (bindp (p_frob_control (port_pins E) C1284_NAUTOFD 0) (\<lambda>_. ret (int len, buf))) s1
      (\<lambda>(r, buf') s'. honest (sender_of ?W s') \<longrightarrow> vouched ds m buf')"
    if "between ?W ?n (vouched ds m buf) s1" for s1 :: "'a sys"
    by (rule send_set_step [OF between_raw [OF that] E, where W = ?W])
       (use that in \<open>auto simp: between_def intro!: post_ret\<close>)
  have first: "post (if b then p_read_status (port_pins E) else ret 0) s (\<lambda>_. between ?W ?n (vouched ds m buf))" for b
  proof (rule post_if)
    show "post (p_read_status (port_pins E)) s (\<lambda>_. between ?W ?n (vouched ds m buf))"
      by (subst bindp_ret_right [symmetric], rule send_status_step [OF _ E, where W = ?W])
         (use Suc.prems in \<open>auto simp: between_def intro!: post_ret\<close>)
  qed (rule post_ret, rule Suc.prems)
  show ?case
    unfolding nibble_loop.simps port_mode_pins_simps(4,7)
    by (rule post_bindp, rule post_weaken [OF first], rule post_if, erule stop, erule halves)
qed

lemma nibble_read_sent:
  assumes "starts_at (nibbles ds) (2 * m) s" and "in_out_build (env_build E)"
  shows "post (default_nibble_read (port_mode_pins E) len) s
     (\<lambda>(r, buf) s'. honest (sender_of (nibbles ds) s') \<longrightarrow> vouched ds m buf)"
  using nibble_loop_sent [OF _ assms(2), of ds m "[]" s len len] starts_between [OF assms(1)]
  by (simp add: default_nibble_read_def)

subsection \<open>Byte mode\<close>

text \<open>The items are bytes on the data lines; the answer is nAck low.\<close>

definition bytes_on :: "(u8 \<Rightarrow> bool) \<Rightarrow> (nat \<Rightarrow> u8) \<Rightarrow> wares" where
  "bytes_on ack ds = \<lparr> answers = ack, on_status = (\<lambda>_ _. True), on_data = (\<lambda>i v. v = ds i) \<rparr>"

lemma bytes_on_simps [simp]:
  "answers (bytes_on ack ds) = ack" "on_status (bytes_on ack ds) i st" "on_data (bytes_on ack ds) i v \<longleftrightarrow> v = ds i"
  by (simp_all add: bytes_on_def)

abbreviation byte_wares :: "(nat \<Rightarrow> u8) \<Rightarrow> wares" where
  "byte_wares \<equiv> bytes_on (\<lambda>st. st AND S1284_NACK = 0)"

lemma between_snoc:
  "between W (m + length buf + 1) (vouched ds m buf \<and> b = ds (m + length buf)) s \<Longrightarrow>
     between W (m + length (buf @ [b])) (vouched ds m (buf @ [b])) s"
  by (auto simp: between_def intro: vouched_snoc)

lemma byte_loop_sent:
  assumes "between (byte_wares ds) (m + length buf) (vouched ds m buf) s" and E: "in_out_build (env_build E)"
  shows "post (byte_loop E (port_pins E) left count buf) s (\<lambda>(r, buf') s'. between (byte_wares ds) (m + length buf') (vouched ds m buf') s')"
  using assms(1)
proof (induction left arbitrary: count buf s)
  case 0
  then show ?case by (simp add: post_ret)
next
  case (Suc left)
  let ?W = "byte_wares ds"
  note s = betweenD [OF Suc.prems]
  have stop: "between ?W (m + length buf) (vouched ds m buf) s1"
    if "tuned ?W s1" "sender_of ?W s1 = pull False x" "x = sender_of ?W s \<or> x = pull True (sender_of ?W s)"
    for x and s1 :: "'a sys"
    using that s by (auto simp: between_def)
  have fetched: "between ?W (m + length buf + 1) (vouched ds m buf \<and> v = ds (m + length buf)) s1"
    if "tuned ?W s1" "answers ?W st" "sender_of ?W s1 = pull False
       ((look ?W st (pull True (sender_of ?W s)))\<lparr>honest := honest (look ?W st (pull True (sender_of ?W s))) \<and>
        on_data ?W (place (look ?W st (pull True (sender_of ?W s)))) v\<rparr>)" for st v and s1 :: "'a sys"
    using that s by (auto simp: between_def pull_def)
  show ?case
    unfolding byte_loop.simps
    by (rule send_status_step [OF s(1) E], simp only: s(2) if_False, rule post_if,
        rule send_set_step [OF tuned_raw E, where W = ?W], assumption, simp, simp,
        rule post_ret, simp only: prod.case, rule stop, assumption, simp, simp,
        rule send_dir_step [OF _ E], assumption,
        rule send_set_step [OF tuned_raw E, where W = ?W], assumption, simp, simp,
        rule send_answer_step [OF _ E], assumption, simp, simp add: s, simp,
        simp only: truth_def simp_thms if_False,
        rule send_data_step [OF _ E], assumption, simp, simp,
        rule send_set_step [OF tuned_raw E, where W = ?W], assumption, simp, simp,
        rule send_idle_step [OF _ E], assumption, simp,
        rule post_if,
        rule post_ret, simp only: prod.case uchar_uint, rule between_snoc, rule fetched, assumption+, simp,
        rule send_other_step [OF _ E], assumption, simp, simp, simp,
        rule send_time_step, assumption,
        rule send_other_step [OF _ E], assumption, simp, simp, simp,
        rule Suc.IH, simp only: uchar_uint, rule between_snoc, rule fetched, assumption+, simp,
        simp only: truth_def,
        simp,
        rule send_set_step [OF tuned_raw E, where W = ?W], assumption, simp, simp,
        rule post_ret, simp only: prod.case, rule stop, assumption, simp, simp)
qed

lemma byte_read_sent:
  assumes "starts_at (byte_wares ds) m s" and "in_out_build (env_build E)"
  shows "post (default_byte_read E (port_pins E) len) s (\<lambda>(r, buf') s'. between (byte_wares ds) (m + length buf') (vouched ds m buf') s')"
  using byte_loop_sent [OF _ assms(2), of ds m "[]" s len 0] starts_between [OF assms(1)]
  by (simp add: default_byte_read_def)

subsection \<open>EPP\<close>

text \<open>The items are bytes on the data lines, the strobe nAutoFd is nDStrb; the answer is Busy high.\<close>

abbreviation epp_wares :: "(nat \<Rightarrow> u8) \<Rightarrow> wares" where
  "epp_wares \<equiv> bytes_on (\<lambda>st. st AND S1284_BUSY = S1284_BUSY)"

text \<open>\<open>asking W n c s\<close>: as \<open>between\<close>, but nAutoFd may be low already; the answer has not been read.\<close>

definition asking :: "wares \<Rightarrow> nat \<Rightarrow> bool \<Rightarrow> 'w sys \<Rightarrow> bool" where
  "asking W n c s \<longleftrightarrow> tuned W s \<and> \<not> shown (sender_of W s) \<and> place (sender_of W s) = n \<and>
     (honest (sender_of W s) \<longrightarrow> c)"

lemma askingD:
  assumes "asking W n c s"
  shows "tuned W s" "\<not> shown (sender_of W s)" "place (sender_of W s) = n" "honest (sender_of W s) \<Longrightarrow> c"
  using assms by (simp_all add: asking_def)

definition delivered :: "wares \<Rightarrow> (nat \<Rightarrow> u8) \<Rightarrow> nat \<Rightarrow> int \<times> u8 list \<Rightarrow> 'w sys \<Rightarrow> bool" where
  "delivered W ds m res s \<longleftrightarrow> place (sender_of W s) = m + length (snd res) \<and>
     (honest (sender_of W s) \<longrightarrow> vouched ds m (snd res))"

lemma asking_delivered:
  "asking W (m + length buf) (vouched ds m buf) s \<Longrightarrow> delivered W ds m (r, buf) s"
  by (simp add: asking_def delivered_def)

lemma asking_snoc:
  "asking W (m + length buf + 1) (vouched ds m buf \<and> b = ds (m + length buf)) s \<Longrightarrow>
     asking W (m + length (buf @ [b])) (vouched ds m (buf @ [b])) s"
  by (auto simp: asking_def intro: vouched_snoc)

lemma epp_read_loop_sent:
  assumes "asking (epp_wares ds) (m + length buf) (vouched ds m buf) s" and E: "in_out_build (env_build E)"
  shows "post (epp_read_loop (port_pins E) left count buf) s
     (\<lambda>res s'. tuned (epp_wares ds) s' \<and> delivered (epp_wares ds) ds m res s')"
  using assms(1)
proof (induction left arbitrary: count buf s)
  case 0
  then show ?case by (simp add: post_ret asking_delivered askingD)
next
  case (Suc left)
  let ?W = "epp_wares ds"
  note s = askingD [OF Suc.prems]
  have fetched: "asking ?W (m + length buf + 1) (vouched ds m buf \<and> v = ds (m + length buf)) s1"
    if "tuned ?W s1" "answers ?W st" "sender_of ?W s1 = pull False
       ((look ?W st (pull True (sender_of ?W s)))\<lparr>honest := honest (look ?W st (pull True (sender_of ?W s))) \<and>
        on_data ?W (place (look ?W st (pull True (sender_of ?W s)))) v\<rparr>)" for st v and s1 :: "'a sys"
    using that s by (auto simp: asking_def pull_def)
  show ?case
    unfolding epp_read_loop.simps
    by (rule send_set_step [OF tuned_raw [OF s(1)] E, where W = ?W], simp, simp,
        rule send_answer_step [OF _ E], assumption, simp, simp add: s, simp,
        simp only: truth_def simp_thms if_False,
        rule send_data_step [OF _ E], assumption, simp, simp,
        rule send_set_step [OF tuned_raw E, where W = ?W], assumption, simp, simp,
        rule send_idle_step [OF _ E], assumption, simp,
        rule post_if,
        rule post_ret, rule conjI, assumption, rule asking_delivered, rule asking_snoc, rule fetched, assumption+, simp,
        rule Suc.IH, rule asking_snoc, rule fetched, assumption+, simp,
        simp only: truth_def,
        simp,
        rule post_ret,
        simp add: delivered_def s)
qed

lemma epp_read_sent:
  assumes "raw_io_port s" and "\<not> shown (sender_of (epp_wares ds) s)" and E: "in_out_build (env_build E)"
  shows "post (default_epp_read_data (port_pins E) len) s
     (delivered (epp_wares ds) ds (place (sender_of (epp_wares ds) s)))"
proof -
  let ?W = "epp_wares ds" and ?m = "place (sender_of (epp_wares ds) s)"
  show ?thesis
    unfolding default_epp_read_data_def
    by (rule send_set_step [OF assms(1) E, where W = ?W], simp, simp,
        rule send_dir_step [OF _ E], assumption,
        rule post_bindp, rule post_weaken [OF epp_read_loop_sent [OF _ E, of ds ?m]],
        simp add: asking_def assms,
        elim conjE,
        rule send_dir_step [OF _ E], assumption,
        rule post_ret,
        simp add: delivered_def)
qed

subsection \<open>ECP\<close>

text \<open>
  The items are pairs of a flag and a byte. Busy low is the flag: the byte is a command, here the
  length of a run less one. \<open>unpack\<close> is the decompression: what has been stored, and
  the run-length byte that waits for the byte to repeat.
\<close>

fun unpack_item :: "u8 list \<times> u8 option \<Rightarrow> bool \<times> u8 \<Rightarrow> u8 list \<times> u8 option" where
  "unpack_item (buf, None) (True, c) = (buf, Some c)"
| "unpack_item (buf, None) (False, b) = (buf @ [b], None)"
| "unpack_item (buf, Some c) (f, b) = (buf @ replicate (unat c + 1) b, None)"

definition unpack :: "(bool \<times> u8) list \<Rightarrow> u8 list \<times> u8 option" where
  "unpack items = foldl unpack_item ([], None) items"

lemma unpack_Nil [simp]: "unpack [] = ([], None)"
  by (simp add: unpack_def)

lemma unpack_snoc: "unpack (items @ [x]) = unpack_item (unpack items) x"
  by (simp add: unpack_def)

definition packets :: "(nat \<Rightarrow> bool \<times> u8) \<Rightarrow> wares" where
  "packets ts = \<lparr> answers = (\<lambda>st. st AND S1284_NACK = 0), on_status = (\<lambda>i st. bit st 7 = (\<not> fst (ts i))),
     on_data = (\<lambda>i v. v = snd (ts i)) \<rparr>"

lemma packets_simps [simp]:
  "answers (packets ts) st \<longleftrightarrow> st AND S1284_NACK = 0" "on_status (packets ts) i st \<longleftrightarrow> bit st 7 = (\<not> fst (ts i))"
  "on_data (packets ts) i v \<longleftrightarrow> v = snd (ts i)"
  by (simp_all add: packets_def)

text \<open>The end of a read: the last item fetched is not stored when its event 45 does not come.\<close>

definition unpacked :: "(nat \<Rightarrow> bool \<times> u8) \<Rightarrow> nat \<Rightarrow> nat \<Rightarrow> u8 list \<Rightarrow> 'w sys \<Rightarrow> bool" where
  "unpacked ts m len buf s \<longleftrightarrow> (honest (sender_of (packets ts) s) \<longrightarrow> (\<exists>n.
     buf = fst (unpack (map ts [m..<n])) \<and>
     (place (sender_of (packets ts) s) = n \<or> place (sender_of (packets ts) s) = n + 1 \<and> length buf < len)))"

lemma busy_uint: "truth (uint (st :: u8) AND S1284_BUSY) = bit st 7"
  using and_exp_eq_0_iff_not_bit [of "uint st" 7] by (simp add: truth_def bit_uint_iff)

text \<open>\<open>fed\<close>: nAutoFd is low, and what has been stored is what the items fetched so far unpack to.\<close>

definition fed :: "(nat \<Rightarrow> bool \<times> u8) \<Rightarrow> nat \<Rightarrow> u8 list \<times> u8 option \<Rightarrow> 'w sys \<Rightarrow> bool" where
  "fed ts m st s \<longleftrightarrow> tuned (packets ts) s \<and> taking (sender_of (packets ts) s) \<and> \<not> shown (sender_of (packets ts) s) \<and>
     m \<le> place (sender_of (packets ts) s) \<and>
     (honest (sender_of (packets ts) s) \<longrightarrow> unpack (map ts [m..<place (sender_of (packets ts) s)]) = st)"

text \<open>\<open>offered ts s0 c d s\<close>: after \<open>s0\<close> the answer has been read, the flag as \<open>c\<close> if it is looked at, and the byte \<open>d\<close>.\<close>

definition offered :: "(nat \<Rightarrow> bool \<times> u8) \<Rightarrow> 'w sys \<Rightarrow> (bool \<times> u8 \<Rightarrow> bool) \<Rightarrow> 'w sys \<Rightarrow> bool" where
  "offered ts s0 seen s \<longleftrightarrow> tuned (packets ts) s \<and> taking (sender_of (packets ts) s) \<and> shown (sender_of (packets ts) s) \<and>
     place (sender_of (packets ts) s) = place (sender_of (packets ts) s0) \<and>
     (honest (sender_of (packets ts) s) \<longrightarrow> honest (sender_of (packets ts) s0) \<and>
        seen (ts (place (sender_of (packets ts) s0))))"

lemma offered_tuned: "offered ts s0 c s \<Longrightarrow> tuned (packets ts) s"
  by (simp add: offered_def)

lemma event_43_sent:
  assumes "fed ts m st s" and E: "in_out_build (env_build E)"
  shows "post (wait_event_43 (port_dir_pins E)) s (\<lambda>_. offered ts s (\<lambda>_. True))"
proof -
  let ?W = "packets ts" and ?I = "\<lambda>s'. tuned (packets ts) s' \<and> sender_of (packets ts) s' = sender_of (packets ts) s"
  have s: "tuned ?W s" "taking (sender_of ?W s)" "\<not> shown (sender_of ?W s)" using assms(1) by (simp_all add: fed_def)
  show ?thesis
    unfolding wait_event_43_def port_dir_pins_simps
  proof (rule loop_post [where I = ?I])
    fix s0 :: "'a sys" assume s0: "?I s0"
    show "post (bindp (p_wait_status (port_pins E) S1284_NACK 0 signal_timeout) (\<lambda>r.
        ret (if truth r then None else Some ()))) s0
      (\<lambda>r s'. (r = None \<longrightarrow> ?I s') \<and> (\<forall>a. r = Some a \<longrightarrow> offered ts s (\<lambda>_. True) s'))"
      by (rule send_answer_step [OF conjunct1 [OF s0] E])
         (use s s0 in \<open>auto simp: truth_def offered_def intro!: post_ret\<close>)
  qed (simp add: s)
qed

text \<open>The flag is read when it matters.\<close>

lemma flag_sent:
  assumes "offered ts s0 (\<lambda>_. True) s" and E: "in_out_build (env_build E)"
  shows "post (if rle \<noteq> None then ret False
       else bindp (p_read_status (port_pins E)) (\<lambda>st. ret (\<not> truth (st AND S1284_BUSY)))) s
     (\<lambda>command s'. (rle \<noteq> None \<longrightarrow> \<not> command) \<and> offered ts s0 (\<lambda>t. rle = None \<longrightarrow> fst t = command) s')"
proof (rule post_if)
  have s: "tuned (packets ts) s" "taking (sender_of (packets ts) s)" "shown (sender_of (packets ts) s)"
    using assms(1) by (simp_all add: offered_def)
  show "post (bindp (p_read_status (port_pins E)) (\<lambda>st. ret (\<not> truth (st AND S1284_BUSY)))) s
     (\<lambda>command s'. (rle \<noteq> None \<longrightarrow> \<not> command) \<and> offered ts s0 (\<lambda>t. rle = None \<longrightarrow> fst t = command) s')"
    if "\<not> rle \<noteq> None"
    by (rule send_status_step [OF s(1) E], rule post_ret)
       (use that assms(1) s in \<open>auto simp: offered_def busy_uint\<close>)
qed (use assms(1) in \<open>auto simp: offered_def intro!: post_ret\<close>)

lemma byte_offered_step:
  assumes "offered ts s0 c s" and E: "in_out_build (env_build E)"
    and "\<And>v s'. offered ts s0 (\<lambda>t. c t \<and> v = snd t) s' \<Longrightarrow> post (k (uint v)) s' Q"
  shows "post (bindp (p_read_data (port_pins E)) k) s Q"
proof -
  have s: "tuned (packets ts) s" "taking (sender_of (packets ts) s)" "shown (sender_of (packets ts) s)"
    using assms(1) by (simp_all add: offered_def)
  show ?thesis
    by (rule send_data_step [OF s(1) E s(2,3)], rule assms(3)) (use assms(1) in \<open>auto simp: offered_def\<close>)
qed

text \<open>What a break before and after nAutoFd has been raised leaves.\<close>

lemma offered_unpacked:
  assumes "fed ts m (buf, rle) s" and "offered ts s c s'"
  shows "unpacked ts m len buf s'"
  using assms by (auto simp: unpacked_def fed_def offered_def intro: exI [of _ "place (sender_of (packets ts) s)"])

lemma fetched_unpacked:
  assumes "fed ts m (buf, rle) s" and "offered ts s c s1" and "length buf < len"
    and "sender_of (packets ts) s' = pull False (sender_of (packets ts) s1)"
  shows "unpacked ts m len buf s'"
  using assms by (auto simp: unpacked_def fed_def offered_def intro!: exI [of _ "place (sender_of (packets ts) s)"])

lemma fetched_fed:
  assumes "fed ts m st s" and "offered ts s c s1" and "tuned (packets ts) s'"
    and "sender_of (packets ts) s' = pull True (pull False (sender_of (packets ts) s1))"
    and "c (ts (place (sender_of (packets ts) s))) \<Longrightarrow> unpack_item st (ts (place (sender_of (packets ts) s))) = st'"
  shows "fed ts m st' s'"
  using assms by (auto simp: fed_def offered_def unpack_snoc)

lemma ecp_read_loop_sent:
  assumes "fed ts m (buf, rle) s" and "length buf + left = len"
    and "\<And>c. rle = Some c \<Longrightarrow> unat c + 1 \<le> left" and E: "in_out_build (env_build E)"
  shows "post (ecp_read_loop (port_dir_pins E) left rle buf) s (\<lambda>buf' s'. unpacked ts m len buf' s')"
  using assms(1-3)
proof (induction "2 * left + (if rle = None then 1 else 0 :: nat)" arbitrary: left rle buf s rule: less_induct)
  case less
  note fed = less.prems(1)
  show ?case
    unfolding ecp_read_loop.simps [of _ left rle buf] port_dir_pins_simps
  proof (rule post_if)
    show "post (ret buf) s (\<lambda>buf' s'. unpacked ts m len buf' s')"
      using fed by (intro post_ret) (auto simp: unpacked_def fed_def intro!: exI [of _ "place (sender_of (packets ts) s)"])
    assume left: "left \<noteq> 0"
    have short: "length buf < len" using less.prems(2) left by simp
    have rest: "post (if command \<and> rle = None then ecp_read_loop (port_dir_pins E) left (Some byte) buf
       else case rle of
         Some c \<Rightarrow> ecp_read_loop (port_dir_pins E) (left - (unat c + 1)) None (buf @ replicate (unat c + 1) byte)
       | None \<Rightarrow> ecp_read_loop (port_dir_pins E) (left - 1) None (buf @ [byte])) s2
       (\<lambda>buf' s'. unpacked ts m len buf' s')"
      if "offered ts s (\<lambda>t. (rle = None \<longrightarrow> fst t = command) \<and> byte = snd t) s1" "tuned (packets ts) s2"
        "sender_of (packets ts) s2 = pull True (pull False (sender_of (packets ts) s1))"
        "command \<longrightarrow> unat byte + 1 \<le> left" "rle \<noteq> None \<longrightarrow> \<not> command" for command byte and s1 s2 :: "'a sys"
    proof -
      have item: "fed ts m st' s2" if "\<And>t. (rle = None \<longrightarrow> fst t = command) \<and> byte = snd t \<Longrightarrow> unpack_item (buf, rle) t = st'" for st'
        using \<open>offered ts s _ s1\<close> that
        by (rule fetched_fed [OF fed _ \<open>tuned (packets ts) s2\<close> \<open>sender_of (packets ts) s2 = _\<close>])
      show ?thesis
      proof (cases rle)
        case None
        show ?thesis
        proof (cases command)
          case True
          have "fed ts m (buf, Some byte) s2" using None True by (intro item) (case_tac t; simp)
          from less.hyps [OF _ this less.prems(2)] \<open>command \<longrightarrow> _\<close> True None show ?thesis by simp
        next
          case False
          have "fed ts m (buf @ [byte], None) s2" using None False by (intro item) (case_tac t; simp)
          from less.hyps [OF _ this, of "left - 1"] left less.prems(2) False None show ?thesis by simp
        qed
      next
        case (Some c)
        then have "unat c + 1 \<le> left" by (rule less.prems(3))
        moreover have "fed ts m (buf @ replicate (unat c + 1) byte, None) s2"
          using Some by (intro item) (case_tac t; simp)
        ultimately show ?thesis
          using less.hyps [of "left - (unat c + 1)" None "buf @ replicate (unat c + 1) byte" s2] less.prems(2)
            \<open>rle \<noteq> None \<longrightarrow> \<not> command\<close> Some by simp
      qed
    qed
    have raise: "post (bindp (p_frob_control (port_pins E) C1284_NAUTOFD C1284_NAUTOFD) (\<lambda>_.
        bindp (p_wait_status (port_pins E) S1284_NACK S1284_NACK signal_timeout) (\<lambda>r45.
        if truth r45 then ret buf
        else
        bindp (p_frob_control (port_pins E) C1284_NAUTOFD 0) (\<lambda>_.
        if command \<and> rle = None then ecp_read_loop (port_dir_pins E) left (Some byte) buf
        else case rle of
          Some c \<Rightarrow> ecp_read_loop (port_dir_pins E) (left - (unat c + 1)) None (buf @ replicate (unat c + 1) byte)
        | None \<Rightarrow> ecp_read_loop (port_dir_pins E) (left - 1) None (buf @ [byte]))))) s1
        (\<lambda>buf' s'. unpacked ts m len buf' s')"
      if off: "offered ts s (\<lambda>t. (rle = None \<longrightarrow> fst t = command) \<and> byte = snd t) s1"
        and "\<not> (command \<and> left < unat byte + 1)" "rle \<noteq> None \<longrightarrow> \<not> command" for command byte and s1 :: "'a sys"
      by (rule send_set_step [OF tuned_raw [OF offered_tuned [OF off]] E, where W = "packets ts"], simp, simp,
          rule send_idle_step [OF _ E], assumption, simp, rule post_if, rule post_ret,
          rule fetched_unpacked [OF fed off short], simp,
          rule send_set_step [OF tuned_raw E, where W = "packets ts"], assumption, simp, simp,
          rule rest [OF off], assumption, simp, use that(2,3) in auto)
    show "post (bindp (wait_event_43 (port_dir_pins E)) (\<lambda>_.
        bindp (if rle \<noteq> None then ret False
               else bindp (p_read_status (port_pins E)) (\<lambda>st. ret (\<not> truth (st AND S1284_BUSY)))) (\<lambda>command.
        bindp (p_read_data (port_pins E)) (\<lambda>d.
        let byte = uchar d in
        if command \<and> byte AND 0x80 \<noteq> 0 then ret buf
        else if command \<and> unat byte + 1 > left then ret buf
        else
        bindp (p_frob_control (port_pins E) C1284_NAUTOFD C1284_NAUTOFD) (\<lambda>_.
        bindp (p_wait_status (port_pins E) S1284_NACK S1284_NACK signal_timeout) (\<lambda>r45.
        if truth r45 then ret buf
        else
        bindp (p_frob_control (port_pins E) C1284_NAUTOFD 0) (\<lambda>_.
        if command \<and> rle = None then ecp_read_loop (port_dir_pins E) left (Some byte) buf
        else case rle of
          Some c \<Rightarrow> ecp_read_loop (port_dir_pins E) (left - (unat c + 1)) None (buf @ replicate (unat c + 1) byte)
        | None \<Rightarrow> ecp_read_loop (port_dir_pins E) (left - 1) None (buf @ [byte])))))))) s
        (\<lambda>buf' s'. unpacked ts m len buf' s')"
      by (rule post_bindp, rule post_weaken [OF event_43_sent [OF fed E]],
          rule post_bindp, rule post_weaken [OF flag_sent [OF _ E]], assumption, elim conjE,
          rule byte_offered_step [OF _ E], assumption, simp only: Let_def uchar_uint,
          rule post_if, rule post_ret, erule offered_unpacked [OF fed],
          rule post_if, rule post_ret, erule offered_unpacked [OF fed], erule raise)
  qed
qed

lemma ecp_read_sent:
  assumes "raw_io_port s" and "current_phase (prt s) = PH1284_REV_IDLE" and "\<not> shown (sender_of (packets ts) s)"
    and E: "in_out_build (env_build E)"
  shows "post (default_ecp_read_data (port_dir_pins E) len) s
     (\<lambda>(r, buf) s'. unpacked ts (place (sender_of (packets ts) s)) len buf s')"
proof -
  let ?W = "packets ts" and ?m = "place (sender_of (packets ts) s)"
  have same: "sender_of ?W (s1\<lparr>prt := (prt s1)\<lparr>current_phase := ph\<rparr>\<rparr>) = sender_of ?W s1"
    "raw_io_port (s1\<lparr>prt := (prt s1)\<lparr>current_phase := ph\<rparr>\<rparr>) = raw_io_port s1" for ph and s1 :: "'a sys"
    by (simp_all add: sender.observe_prt raw_io_port_def)
  show ?thesis
    unfolding default_ecp_read_data_def port_dir_pins_simps(7)
    by (rule post_bindp, rule post_gets,
        simp only: assms(2) simp_thms if_False bindp_ret_left truth_def,
        rule post_bindp, rule post_upd,
        rule send_set_step [OF _ E, where W = ?W], simp only: same assms, simp, simp,
        rule post_bindp, rule post_weaken [OF ecp_read_loop_sent [OF _ _ _ E, of ts ?m]],
        simp add: fed_def same assms,
        simp,
        simp,
        rule post_bindp, rule post_upd, rule post_ret,
        simp add: unpacked_def same)
qed

end
