(* ===== verification/Python_Module.thy ===== *)
theory Python_Module
  imports Lifecycle
begin

section \<open>The Python binding: \<^verbatim>\<open>src/ieee1284module.c\<close>\<close>

text \<open>
  The methods of the Python object \<^verbatim>\<open>Parport\<close>, which wrap the public functions, turn error
  codes into exceptions and keep one reference to their port; and the module function
  \<^verbatim>\<open>find_ports\<close>, which returns a dictionary of such objects.  Python itself is not modelled: a
  method takes its parsed arguments and returns a value or raises; an object is the pointer
  it holds, \<open>None\<close> for null.  The theorems: the error table is total and injective, a search is
  a run of a client that ends with one reference for each object in the dictionary, and three
  methods do not do what they mean to.
\<close>

subsection \<open>Exceptions\<close>

text \<open>\<open>Bad_arguments\<close> stands for the exceptions that the parsing of arguments raises.\<close>

datatype py_error =
    MemoryError | OSError | Ieee1284_error string | SystemError | TypeError string | Bad_arguments

datatype 'a py = Raise py_error | Value 'a

definition handle_error :: "int \<Rightarrow> py_error option" where
  "handle_error err =
     (if err = E1284_OK then None
      else if err = E1284_NOMEM then Some MemoryError
      else if err = E1284_SYS then Some OSError
      else if err = E1284_NOTIMPL then Some (Ieee1284_error ''Not implemented in libieee1284'')
      else if err = E1284_NOTAVAIL then Some (Ieee1284_error ''Not available on this system'')
      else if err = E1284_TIMEDOUT then Some (Ieee1284_error ''Operation timed out'')
      else if err = E1284_REJECTED then Some (Ieee1284_error ''IEEE 1284 negotiation rejected'')
      else if err = E1284_NEGFAILED then Some (Ieee1284_error ''Negotiation went wrong'')
      else if err = E1284_INIT then Some (Ieee1284_error ''Error initialising port'')
      else if err = E1284_NOID then Some (Ieee1284_error ''No IEEE 1284 ID available'')
      else if err = E1284_INVALIDPORT then Some (Ieee1284_error ''Port is invalid (perhaps not opened?)'')
      else Some (Ieee1284_error ''Unknown error''))"

text \<open>\<^verbatim>\<open>handle_error (r); return NULL\<close>: without an exception set, Python raises \<^verbatim>\<open>SystemError\<close>.\<close>

definition raise_error :: "int \<Rightarrow> 'a py" where
  "raise_error r = (case handle_error r of None \<Rightarrow> Raise SystemError | Some e \<Rightarrow> Raise e)"

definition checked :: "int \<Rightarrow> 'a \<Rightarrow> 'a py" where
  "checked r v = (if r < 0 then raise_error r else Value v)"

subsection \<open>Objects\<close>

abbreviation (input) sizeof_ParportObject :: int where "sizeof_ParportObject \<equiv> 24"

definition on_self :: "nat option \<Rightarrow> (nat \<Rightarrow> ('a, 'w lib) prog) \<Rightarrow> ('a, 'w lib) prog" where
  "on_self self f = (case self of None \<Rightarrow> fail Null_deref | Some p \<Rightarrow> f p)"

text \<open>A new object holds the null pointer; \<open>None\<close> is a null object.\<close>

definition Parport_new :: "'w env \<Rightarrow> (nat option option, 'w lib) prog" where
  "Parport_new E =
     bindp (sys_malloc E sizeof_ParportObject) (\<lambda>ok. ret (if ok then Some None else None))"

definition Parport_init :: "int py" where
  "Parport_init = Raise (TypeError ''You cannot create this; use find_ports instead.'')"

definition Parport_dealloc :: "'w env \<Rightarrow> nat option \<Rightarrow> (unit, 'w lib) prog" where
  "Parport_dealloc E self =
     (case self of None \<Rightarrow> ret () | Some p \<Rightarrow> bindp (ieee1284_unref E p) (\<lambda>_. ret ()))"

definition public_field :: "nat \<Rightarrow> (parport \<Rightarrow> 'a) \<Rightarrow> ('a, 'w lib) prog" where
  "public_field p f = (\<lambda>s. case heap s p of
      None \<Rightarrow> Some (Fault Use_after_free) | Some (q, i) \<Rightarrow> Some (Ret (f q) s))"

definition Parport_getname :: "nat option \<Rightarrow> (string, 'w lib) prog" where
  "Parport_getname self = on_self self (\<lambda>p. public_field p pname)"

text \<open>\<^verbatim>\<open>PyLong_FromLong\<close> of an \<^verbatim>\<open>unsigned long\<close>: addresses are taken for signed.\<close>

definition Parport_getbase_addr :: "nat option \<Rightarrow> (int, 'w lib) prog" where
  "Parport_getbase_addr self = on_self self (\<lambda>p. public_field p (\<lambda>q. sint (base_addr q)))"

definition Parport_gethibase_addr :: "nat option \<Rightarrow> (int, 'w lib) prog" where
  "Parport_gethibase_addr self = on_self self (\<lambda>p. public_field p (\<lambda>q. sint (hibase_addr q)))"

definition Parport_getfilename :: "nat option \<Rightarrow> (string option, 'w lib) prog" where
  "Parport_getfilename self = on_self self (\<lambda>p. public_field p filename)"

subsection \<open>Methods\<close>

text \<open>A call of the library on the port, its result checked: the value is the result or nothing.\<close>

definition int_method :: "nat option \<Rightarrow> (int, 'w sys) prog \<Rightarrow> (int py, 'w lib) prog" where
  "int_method self m = on_self self (\<lambda>p. bindp (on_port p m) (\<lambda>r. ret (checked r r)))"

definition none_method :: "nat option \<Rightarrow> (int, 'w sys) prog \<Rightarrow> (unit py, 'w lib) prog" where
  "none_method self m = on_self self (\<lambda>p. bindp (on_port p m) (\<lambda>r. ret (checked r ())))"

definition void_method :: "nat option \<Rightarrow> (unit, 'w sys) prog \<Rightarrow> (unit py, 'w lib) prog" where
  "void_method self m = on_self self (\<lambda>p. bindp (on_port p m) (\<lambda>_. ret (Value ())))"

text \<open>The buffer of 2000 bytes on the stack: \<open>stack\<close> is what it holds before.\<close>

definition Parport_get_deviceid ::
  "'w env \<Rightarrow> nat option \<Rightarrow> int \<Rightarrow> int \<Rightarrow> u8 list \<Rightarrow> (u8 list py, 'w lib) prog" where
  "Parport_get_deviceid E self daisy flags stack = on_self self (\<lambda>p.
     bindp (ieee1284_get_deviceid E p daisy flags stack 2000) (\<lambda>(r, buffer).
     if r < 0 then ret (raise_error r)
     else if length buffer < nat r then fail Out_of_bounds
     else ret (Value (take (nat r) buffer))))"

definition Parport_open :: "'w env \<Rightarrow> nat option \<Rightarrow> int \<Rightarrow> (int py, 'w lib) prog" where
  "Parport_open E self flags = on_self self (\<lambda>p.
     bindp (on_port p (ieee1284_open E flags (Some 0))) (\<lambda>(r, caps).
     ret (checked r (case caps of None \<Rightarrow> 0 | Some c \<Rightarrow> c))))"

definition Parport_get_irq_fd :: "'w env \<Rightarrow> nat option \<Rightarrow> (int py, 'w lib) prog" where
  "Parport_get_irq_fd E self = int_method self (ieee1284_get_irq_fd E)"

text \<open>The result of the call goes into \<^verbatim>\<open>fd\<close>, but \<^verbatim>\<open>r\<close> is tested.\<close>

definition Parport_clear_irq :: "'w env \<Rightarrow> nat option \<Rightarrow> (int py, 'w lib) prog" where
  "Parport_clear_irq E self = on_self self (\<lambda>p.
     bindp (on_port p (ieee1284_clear_irq E (Some 0))) (\<lambda>_. fail Uninitialised))"

definition Parport_close :: "'w env \<Rightarrow> nat option \<Rightarrow> (unit py, 'w lib) prog" where
  "Parport_close E self = on_self self (\<lambda>p. bindp (ieee1284_close E p) (\<lambda>r. ret (checked r ())))"

definition Parport_claim :: "'w env \<Rightarrow> nat option \<Rightarrow> (unit py, 'w lib) prog" where
  "Parport_claim E self = none_method self (ieee1284_claim E)"

definition Parport_release :: "'w env \<Rightarrow> nat option \<Rightarrow> (unit py, 'w lib) prog" where
  "Parport_release E self = void_method self (ieee1284_release E)"

definition Parport_read_data :: "'w env \<Rightarrow> nat option \<Rightarrow> (int py, 'w lib) prog" where
  "Parport_read_data E self = int_method self (ieee1284_read_data E)"

definition Parport_write_data :: "'w env \<Rightarrow> nat option \<Rightarrow> int \<Rightarrow> (unit py, 'w lib) prog" where
  "Parport_write_data E self byte = void_method self (ieee1284_write_data E (uchar byte))"

definition Parport_data_dir :: "'w env \<Rightarrow> nat option \<Rightarrow> int \<Rightarrow> (unit py, 'w lib) prog" where
  "Parport_data_dir E self reverse = none_method self (ieee1284_data_dir E reverse)"

definition Parport_read_status :: "'w env \<Rightarrow> nat option \<Rightarrow> (int py, 'w lib) prog" where
  "Parport_read_status E self = int_method self (ieee1284_read_status E)"

text \<open>The time is the \<^verbatim>\<open>float\<close> argument, in seconds and microseconds.\<close>

definition Parport_wait_status ::
  "'w env \<Rightarrow> nat option \<Rightarrow> int \<Rightarrow> int \<Rightarrow> timeval \<Rightarrow> (unit py, 'w lib) prog" where
  "Parport_wait_status E self msk val timeout =
     none_method self (ieee1284_wait_status E (uchar msk) (uchar val) timeout)"

definition Parport_read_control :: "'w env \<Rightarrow> nat option \<Rightarrow> (int py, 'w lib) prog" where
  "Parport_read_control E self = int_method self (ieee1284_read_control E)"

definition Parport_write_control :: "'w env \<Rightarrow> nat option \<Rightarrow> int \<Rightarrow> (unit py, 'w lib) prog" where
  "Parport_write_control E self byte = void_method self (ieee1284_write_control E (uchar byte))"

definition Parport_frob_control :: "'w env \<Rightarrow> nat option \<Rightarrow> int \<Rightarrow> int \<Rightarrow> (unit py, 'w lib) prog" where
  "Parport_frob_control E self msk val =
     void_method self (ieee1284_frob_control E (uchar msk) (uchar val))"

definition Parport_negotiate :: "'w env \<Rightarrow> nat option \<Rightarrow> int \<Rightarrow> (unit py, 'w lib) prog" where
  "Parport_negotiate E self mode = none_method self (ieee1284_negotiate E mode)"

definition Parport_terminate :: "'w env \<Rightarrow> nat option \<Rightarrow> (unit py, 'w lib) prog" where
  "Parport_terminate E self = void_method self (ieee1284_terminate E)"

definition Parport_ecp_fwd_to_rev :: "'w env \<Rightarrow> nat option \<Rightarrow> (unit py, 'w lib) prog" where
  "Parport_ecp_fwd_to_rev E self = none_method self (ieee1284_ecp_fwd_to_rev E)"

definition Parport_ecp_rev_to_fwd :: "'w env \<Rightarrow> nat option \<Rightarrow> (unit py, 'w lib) prog" where
  "Parport_ecp_rev_to_fwd E self = none_method self (ieee1284_ecp_rev_to_fwd E)"

text \<open>The number that becomes a Python float; it means to be in seconds.\<close>

definition Parport_set_timeout :: "'w env \<Rightarrow> nat option \<Rightarrow> timeval \<Rightarrow> (int py, 'w lib) prog" where
  "Parport_set_timeout E self timeout = on_self self (\<lambda>p.
     bindp (on_port p (ieee1284_set_timeout E timeout)) (\<lambda>oldto. case oldto of
       None \<Rightarrow> fail Null_deref
     | Some t \<Rightarrow> ret (Value (tv_sec t + tv_usec t * 1000000))))"

text \<open>
  \<^verbatim>\<open>READ_FUNCTION\<close>: \<open>len\<close> is the value of the variable \<^verbatim>\<open>len\<close>.  The string takes as many bytes
  from the allocated buffer as the result says, stored or not.
\<close>

definition read_function ::
  "'w env \<Rightarrow> nat option \<Rightarrow> nat \<Rightarrow> (int \<times> u8 list, 'w sys) prog \<Rightarrow> (u8 list py, 'w lib) prog" where
  "read_function E self len m = on_self self (\<lambda>p.
     bindp (sys_malloc E (int len)) (\<lambda>ok.
     bindp (on_port p m) (\<lambda>(got, stored).
     if \<not> ok \<and> stored \<noteq> [] then fail Null_deref
     else if got < 0 then ret (raise_error got)
     else if length stored < nat got then fail Uninitialised
     else ret (Value (take (nat got) stored)))))"

text \<open>\<^verbatim>\<open>WRITE_FUNCTION\<close>: the test is on the function \<^verbatim>\<open>write\<close>, not on \<^verbatim>\<open>wrote\<close>, and never true.\<close>

definition write_function :: "nat option \<Rightarrow> (int, 'w sys) prog \<Rightarrow> (int py, 'w lib) prog" where
  "write_function self m = on_self self (\<lambda>p. bindp (on_port p m) (\<lambda>wrote. ret (Value wrote)))"

definition Parport_nibble_read :: "'w env \<Rightarrow> nat option \<Rightarrow> nat \<Rightarrow> int \<Rightarrow> (u8 list py, 'w lib) prog" where
  "Parport_nibble_read E self len flags = read_function E self len (ieee1284_nibble_read E flags len)"

definition Parport_byte_read :: "'w env \<Rightarrow> nat option \<Rightarrow> nat \<Rightarrow> int \<Rightarrow> (u8 list py, 'w lib) prog" where
  "Parport_byte_read E self len flags = read_function E self len (ieee1284_byte_read E flags len)"

definition Parport_epp_read_data :: "'w env \<Rightarrow> nat option \<Rightarrow> nat \<Rightarrow> int \<Rightarrow> (u8 list py, 'w lib) prog" where
  "Parport_epp_read_data E self len flags =
     read_function E self len (ieee1284_epp_read_data E flags len)"

definition Parport_epp_read_addr :: "'w env \<Rightarrow> nat option \<Rightarrow> nat \<Rightarrow> int \<Rightarrow> (u8 list py, 'w lib) prog" where
  "Parport_epp_read_addr E self len flags =
     read_function E self len (ieee1284_epp_read_addr E flags len)"

definition Parport_ecp_read_data :: "'w env \<Rightarrow> nat option \<Rightarrow> nat \<Rightarrow> int \<Rightarrow> (u8 list py, 'w lib) prog" where
  "Parport_ecp_read_data E self len flags =
     read_function E self len (ieee1284_ecp_read_data E flags len)"

definition Parport_ecp_read_addr :: "'w env \<Rightarrow> nat option \<Rightarrow> nat \<Rightarrow> int \<Rightarrow> (u8 list py, 'w lib) prog" where
  "Parport_ecp_read_addr E self len flags =
     read_function E self len (ieee1284_ecp_read_addr E flags len)"

definition Parport_compat_write :: "'w env \<Rightarrow> nat option \<Rightarrow> u8 list \<Rightarrow> int \<Rightarrow> (int py, 'w lib) prog" where
  "Parport_compat_write E self buffer flags = write_function self (ieee1284_compat_write E flags buffer)"

definition Parport_epp_write_data :: "'w env \<Rightarrow> nat option \<Rightarrow> u8 list \<Rightarrow> int \<Rightarrow> (int py, 'w lib) prog" where
  "Parport_epp_write_data E self buffer flags =
     write_function self (ieee1284_epp_write_data E flags buffer)"

definition Parport_epp_write_addr :: "'w env \<Rightarrow> nat option \<Rightarrow> u8 list \<Rightarrow> int \<Rightarrow> (int py, 'w lib) prog" where
  "Parport_epp_write_addr E self buffer flags =
     write_function self (ieee1284_epp_write_addr E flags buffer)"

definition Parport_ecp_write_data :: "'w env \<Rightarrow> nat option \<Rightarrow> u8 list \<Rightarrow> int \<Rightarrow> (int py, 'w lib) prog" where
  "Parport_ecp_write_data E self buffer flags =
     write_function self (ieee1284_ecp_write_data E flags buffer)"

definition Parport_ecp_write_addr :: "'w env \<Rightarrow> nat option \<Rightarrow> u8 list \<Rightarrow> int \<Rightarrow> (int py, 'w lib) prog" where
  "Parport_ecp_write_addr E self buffer flags =
     write_function self (ieee1284_ecp_write_addr E flags buffer)"

subsection \<open>The dictionary of ports\<close>

definition parport_object :: "'w env \<Rightarrow> nat \<Rightarrow> (nat, 'w lib) prog" where
  "parport_object E p =
     bindp (Parport_new E) (\<lambda>obj.
     if obj = None then fail Null_deref else bindp (ieee1284_ref p) (\<lambda>_. ret p))"

text \<open>Storing under a name: the new dictionary, and the object that was there before.\<close>

fun dict_put :: "'k \<Rightarrow> 'v \<Rightarrow> ('k \<times> 'v) list \<Rightarrow> ('k \<times> 'v) list \<times> 'v option" where
  "dict_put k v [] = ([(k, v)], None)"
| "dict_put k v ((k', v') # d) =
     (if k = k' then ((k, v) # d, Some v')
      else case dict_put k v d of (d', old) \<Rightarrow> ((k', v') # d', old))"

fun collect_ports ::
  "'w env \<Rightarrow> (string \<times> nat) list \<Rightarrow> nat list \<Rightarrow> ((string \<times> nat) list, 'w lib) prog" where
  "collect_ports E d [] = ret d"
| "collect_ports E d (p # ps) =
     bindp (public_field p pname) (\<lambda>pn.
     bindp (strdup E (Some pn)) (\<lambda>name.
     bindp (parport_object E p) (\<lambda>obj.
     case name of
       None \<Rightarrow> fail Null_deref
     | Some n \<Rightarrow> (case dict_put n obj d of (d', old) \<Rightarrow>
         bindp (Parport_dealloc E old) (\<lambda>_. collect_ports E d' ps)))))"

definition pyieee1284_find_ports :: "'w env \<Rightarrow> ((string \<times> nat) list py, 'w lib) prog" where
  "pyieee1284_find_ports E =
     bindp (ieee1284_find_ports E) (\<lambda>(err, list).
     if truth err then ret (raise_error err)
     else
     bindp (collect_ports E [] (case list of None \<Rightarrow> [] | Some ps \<Rightarrow> ps)) (\<lambda>d.
     bindp (ieee1284_free_ports list) (\<lambda>_. ret (Value d))))"

subsection \<open>Errors\<close>

text \<open>Every error code of the library raises, and different codes raise different exceptions.\<close>

lemma handle_error_some: "err \<noteq> E1284_OK \<Longrightarrow> handle_error err \<noteq> None"
  by (simp add: handle_error_def)

lemma handle_error_inj: "inj_on handle_error {E1284_INVALIDPORT..E1284_OK}"
proof -
  have codes: "{E1284_INVALIDPORT..E1284_OK} = {-10, -9, -8, -7, -6, -5, -4, -3, -2, -1, 0 :: int}"
    by (auto simp: set_eq_iff) presburger
  show ?thesis unfolding codes by (simp add: handle_error_def)
qed

lemma checked_value: "0 \<le> r \<Longrightarrow> checked r v = Value v"
  by (simp add: checked_def)

lemma checked_raises: "r < 0 \<Longrightarrow> \<exists>e. checked r v = Raise e \<and> handle_error r = Some e"
  using handle_error_some [of r] by (auto simp: checked_def raise_error_def)

subsection \<open>A search is a run of a client\<close>

lemma dict_put_refs:
  "dict_put k v d = (d', old) \<Longrightarrow>
     add_mset v (mset (map snd d)) = mset (map snd d') + (case old of None \<Rightarrow> {#} | Some x \<Rightarrow> {#x#})"
proof (induction k v d arbitrary: d' rule: dict_put.induct)
  case (2 k v k' v' d)
  then show ?case
    by (cases "dict_put k v d") (auto split: if_splits option.splits)
qed auto

lemma public_field_Ret: "public_field p f s = Some (Ret a s') \<Longrightarrow> s' = s"
  by (auto simp: public_field_def split: option.splits)

lemma strdup_Ret:
  assumes "strdup E (Some str) s = Some (Ret r s')"
  shows "\<exists>w tr. s' = s\<lparr>lworld := w, ltrace := tr\<rparr>"
proof -
  obtain w where "s' = s\<lparr>lworld := w, ltrace := ltrace s @ []\<rparr>"
    using assms by (auto simp: strdup_def sys_malloc_def lib_call_def bindp_eq_Ret ret_eq_Ret
        simp del: append_Nil2 split: prod.splits)
  then show ?thesis by blast
qed

lemma Parport_new_Ret:
  assumes "Parport_new E s = Some (Ret r s')"
  shows "\<exists>w tr. s' = s\<lparr>lworld := w, ltrace := tr\<rparr>"
proof -
  obtain w where "s' = s\<lparr>lworld := w, ltrace := ltrace s @ []\<rparr>"
    using assms by (auto simp: Parport_new_def sys_malloc_def lib_call_def bindp_eq_Ret ret_eq_Ret
        simp del: append_Nil2 split: prod.splits)
  then show ?thesis by blast
qed

lemma total_Parport_new:
  assumes "mallocs E" and "\<And>s'. port_view s' = port_view s \<Longrightarrow> Q (Some None) s'"
  shows "total (Parport_new E) s Q"
  unfolding Parport_new_def by (rule total_bindp, rule total_malloc [OF assms(1)]) (simp add: assms(2) total_ret)

lemma collect_ports_run:
  assumes "collect_ports E d ps s = Some (Ret d' s')" and "mset ps \<subseteq># L"
  shows "client_run E (s, L + mset (map snd d)) (s', L + mset (map snd d'))"
  using assms
proof (induction ps arbitrary: d s)
  case Nil
  then show ?case by (simp add: ret_eq_Ret run_start)
next
  case (Cons p ps)
  have p: "p \<in># L" using Cons.prems(2) by (rule mset_subset_eqD) simp
  have ps: "mset ps \<subseteq># L"
    using Cons.prems(2) by (rule subset_mset.order_trans [rotated]) simp
  from Cons.prems(1) obtain pn s1 name s2 obj s2n r s3 where
    s1: "public_field p pname s = Some (Ret pn s1)" and s2: "strdup E (Some pn) s1 = Some (Ret name s2)"
    and obj: "Parport_new E s2 = Some (Ret obj s2n)" and s3: "ieee1284_ref p s2n = Some (Ret r s3)"
    and more: "(case name of None \<Rightarrow> fail Null_deref
     | Some n \<Rightarrow> (case dict_put n p d of (d', old) \<Rightarrow>
         bindp (Parport_dealloc E old) (\<lambda>_. collect_ports E d' ps))) s3 = Some (Ret d' s')"
    unfolding collect_ports.simps parport_object_def
    by (auto simp: bindp_eq_Ret ret_eq_Ret fail_def split: if_splits)
  from more obtain n d1 old s4 where n: "name = Some n" and d1: "dict_put n p d = (d1, old)"
    and s4: "Parport_dealloc E old s3 = Some (Ret () s4)"
    and rest: "collect_ports E d1 ps s4 = Some (Ret d' s')"
    by (auto simp: bindp_eq_Ret fail_def split: option.splits prod.splits)
  let ?H = "L + mset (map snd d)"
  from public_field_Ret [OF s1] have "s1 = s" .
  with strdup_Ret [OF s2] Parport_new_Ret [OF obj]
  obtain w tr where s2': "s2n = s\<lparr>lworld := w, ltrace := tr\<rparr>" by fastforce
  have run2: "client_run E (s, ?H) (s2n, ?H)"
    unfolding s2' by (rule run_step [OF run_start step_world])
  have run3: "client_run E (s, ?H) (s3, add_mset p ?H)"
    by (rule run_step [OF run2 step_ref [OF _ s3]]) (use p in \<open>simp add: usable_def\<close>)
  have run4: "client_run E (s, ?H) (s4, L + mset (map snd d1))"
  proof (cases old)
    case None
    with s4 have "s4 = s3" by (simp add: Parport_dealloc_def ret_eq_Ret)
    moreover have "add_mset p ?H = L + mset (map snd d1)"
      using dict_put_refs [OF d1] None by (simp flip: union_mset_add_mset_right)
    ultimately show ?thesis using run3 by metis
  next
    case (Some q)
    with s4 obtain r' where unref: "ieee1284_unref E q s3 = Some (Ret r' s4)"
      by (auto simp: Parport_dealloc_def bindp_eq_Ret ret_eq_Ret)
    have refs: "add_mset p ?H = add_mset q (L + mset (map snd d1))"
      using dict_put_refs [OF d1] Some by (simp flip: union_mset_add_mset_right)
    have "usable s3 (add_mset p ?H) q" unfolding refs by (simp add: usable_def)
    with unref have "client_step E (s3, add_mset p ?H) (s4, add_mset p ?H - {#q#})"
      by (intro step_unref)
    from run_step [OF run3 this] show ?thesis unfolding refs by simp
  qed
  have "client_run E (s4, L + mset (map snd d1)) (s', L + mset (map snd d'))"
    by (rule Cons.IH [OF rest ps])
  with run4 show ?case by (rule client_run_trans)
qed

lemma find_ports_error: "post (ieee1284_find_ports E) s (\<lambda>(err, list) _. truth err \<longrightarrow> list = None)"
  unfolding ieee1284_find_ports_def
  by (intro post_skip post_if post_ret) (simp_all add: truth_def)

text \<open>
  The dictionary that a search returns holds one reference for each of its objects, and the
  references of the list are given up; a search that raises holds none.
\<close>

lemma find_ports_refs:
  assumes "pyieee1284_find_ports E s = Some (Ret r s')"
  shows "client_run E (s, H) (s', H + (case r of Raise e \<Rightarrow> {#} | Value d \<Rightarrow> mset (map snd d)))"
proof -
  obtain err list s1 where s1: "ieee1284_find_ports E s = Some (Ret (err, list) s1)"
    and more: "(if truth err then ret (raise_error err)
       else bindp (collect_ports E [] (case list of None \<Rightarrow> [] | Some ps \<Rightarrow> ps)) (\<lambda>d.
         bindp (ieee1284_free_ports list) (\<lambda>_. ret (Value d)))) s1 = Some (Ret r s')"
    using assms by (auto simp: pyieee1284_find_ports_def bindp_eq_Ret)
  let ?ps = "case list of None \<Rightarrow> [] | Some ps \<Rightarrow> ps"
  let ?L = "H + mset ?ps"
  have refs: "list_refs list = mset ?ps" by (cases list) (simp_all add: list_refs_def)
  have found: "client_run E (s, H) (s1, ?L)"
    using run_step [OF run_start step_find [OF s1]] by (simp add: refs)
  show ?thesis
  proof (cases "truth err")
    case True
    then have "s' = s1" "\<exists>e. r = Raise e"
      using more by (auto simp: ret_eq_Ret raise_error_def split: option.splits)
    moreover have "list = None" using postD [OF find_ports_error s1] True by simp
    ultimately show ?thesis using found by auto
  next
    case False
    then obtain d s2 where s2: "collect_ports E [] ?ps s1 = Some (Ret d s2)"
      and s': "ieee1284_free_ports list s2 = Some (Ret () s')" and r: "r = Value d"
      using more by (auto simp: bindp_eq_Ret ret_eq_Ret)
    have "client_run E (s1, ?L) (s2, ?L + mset (map snd d))"
      using collect_ports_run [OF s2, of ?L] by simp
    moreover have "client_step E (s2, ?L + mset (map snd d)) (s', ?L + mset (map snd d) - list_refs list)"
      by (rule step_free [OF _ s']) (simp add: refs)
    ultimately have "client_run E (s, H) (s', ?L + mset (map snd d) - list_refs list)"
      using found client_run_trans run_step by blast
    moreover have "?L + mset (map snd d) - list_refs list = H + mset (map snd d)"
      by (simp add: refs)
    ultimately show ?thesis by (simp add: r)
  qed
qed

text \<open>The end of an object gives its reference up.\<close>

lemma dealloc_refs:
  assumes "counted s H" and "p \<in># H"
  shows "total (Parport_dealloc E (Some p)) s (\<lambda>_ s'. counted s' (H - {#p#}))"
  using assms unfolding Parport_dealloc_def
  by (auto simp: usable_def intro!: total_bindp total_ret total_weaken [OF unref_total])

text \<open>If memory does not run out, the dictionary is built whenever the library's search succeeds.\<close>

lemma total_public_field:
  "heap s p = Some (q, i) \<Longrightarrow> Q (f q) s \<Longrightarrow> total (public_field p f) s Q"
  by (simp add: total_def public_field_def)

lemma collect_ports_total:
  assumes "mallocs E"
  shows "\<lbrakk>counted s (L + mset (map snd d)); mset ps \<subseteq># L\<rbrakk> \<Longrightarrow>
     total (collect_ports E d ps) s (\<lambda>d' s'. counted s' (L + mset (map snd d')))"
proof (induction ps arbitrary: d s)
  case Nil
  then show ?case by (simp add: total_ret)
next
  case (Cons p ps)
  let ?H = "L + mset (map snd d)"
  have p: "p \<in># L" using Cons.prems(2) by (rule mset_subset_eqD) simp
  have ps: "mset ps \<subseteq># L"
    using Cons.prems(2) by (rule subset_mset.order_trans [rotated]) simp
  have u: "usable s' ?H p" for s' :: "'a lib" using p by (simp add: usable_def)
  obtain q i where h: "heap s p = Some (q, i)" using usable_live [OF Cons.prems(1) u] .
  obtain d1 old where d1: "dict_put (pname q) p d = (d1, old)" by force
  have rest: "total (collect_ports E d1 ps) s4 (\<lambda>d' s'. counted s' (L + mset (map snd d')))"
    if "counted s4 (L + mset (map snd d1))" for s4 :: "'a lib"
    by (rule Cons.IH [OF that ps])
  have swap: "add_mset p ?H = (case old of None \<Rightarrow> {#} | Some x \<Rightarrow> {#x#}) + (L + mset (map snd d1))"
    using dict_put_refs [OF d1] by (simp add: ac_simps flip: union_mset_add_mset_right)
  have drop: "total (Parport_dealloc E old) s3 (\<lambda>_ s4. counted s4 (L + mset (map snd d1)))"
    if "counted s3 (add_mset p ?H)" for s3 :: "'a lib"
  proof (cases old)
    case None
    from swap have "add_mset p ?H = L + mset (map snd d1)" unfolding None option.case by simp
    with that show ?thesis unfolding None Parport_dealloc_def option.case by (intro total_ret) metis
  next
    case (Some x)
    from swap have "add_mset p ?H = add_mset x (L + mset (map snd d1))" unfolding Some option.case by simp
    with that have "counted s3 (add_mset x (L + mset (map snd d1)))" by metis
    from dealloc_refs [OF this, of x E] show ?thesis unfolding Some by simp
  qed
  show ?case
    unfolding collect_ports.simps parport_object_def
  proof (rule total_bindp, rule total_public_field [OF h], rule total_bindp, rule total_strdup [OF assms],
      rule total_bindp, rule total_bindp, rule total_Parport_new [OF assms], simp only: option.distinct if_False,
      rule total_bindp, rule total_weaken [OF ref_total], unfold option.case d1 prod.case)
    fix s1 s2 :: "'a lib" assume v: "port_view s1 = port_view s" "port_view s2 = port_view s"
    show "counted s2 ?H" by (rule counted_view [OF v(2), THEN iffD2]) (rule Cons.prems(1))
    show "usable s2 ?H p" by (rule u)
  next
    fix r and s3 :: "'a lib" assume c: "counted s3 (add_mset p ?H)"
    show "total (ret p) s3 (\<lambda>obj s'. total
        (case dict_put (pname q) obj d of (d', old) \<Rightarrow>
           bindp (Parport_dealloc E old) (\<lambda>_. collect_ports E d' ps)) s'
        (\<lambda>d' s'. counted s' (L + mset (map snd d'))))"
      by (rule total_ret, unfold d1 prod.case, rule total_bindp, rule total_weaken [OF drop [OF c]], rule rest)
  qed
qed

lemma find_ports_value:
  assumes E: "mallocs E" and c: "counted s H"
    and found: "ieee1284_find_ports E s = Some (Ret (0, Some ps) s1)"
  shows "\<exists>d s'. pyieee1284_find_ports E s = Some (Ret (Value d) s')"
proof -
  have "counted s1 (H + mset ps)"
    using postD [OF find_ports_counted [OF c] found] by (simp add: list_refs_def)
  then have "total (collect_ports E [] ps) s1 (\<lambda>d s'. counted s' (H + mset ps + mset (map snd d)))"
    using collect_ports_total [OF E, of s1 "H + mset ps" "[]" ps] by simp
  then obtain d s2 where d: "collect_ports E [] ps s1 = Some (Ret d s2)"
    and c2: "counted s2 (H + mset ps + mset (map snd d))"
    by (auto simp: total_def)
  have "total (ieee1284_free_ports (Some ps)) s2 (\<lambda>_ _. True)"
    by (rule total_weaken [OF free_ports_total [OF c2]]) simp_all
  then obtain s3 where "ieee1284_free_ports (Some ps) s2 = Some (Ret () s3)" by (auto simp: total_def)
  with found d have "pyieee1284_find_ports E s = Some (Ret (Value d) s3)"
    by (simp add: pyieee1284_find_ports_def bindp_def ret_def truth_def)
  then show ?thesis by blast
qed

text \<open>The dictionary is empty only if the list is.\<close>

lemma dict_put_nonempty: "fst (dict_put k v d) \<noteq> []"
  by (cases d) (auto split: if_splits prod.splits)

lemma collect_ports_nonempty:
  "post (collect_ports E d ps) s (\<lambda>d' _. d' = [] \<longrightarrow> d = [] \<and> ps = [])"
proof (induction ps arbitrary: d s)
  case (Cons p ps)
  have "post (collect_ports E (fst (dict_put n obj d)) ps) s1 (\<lambda>d' _. d' \<noteq> [])" for n obj s1
    using Cons.IH [of "fst (dict_put n obj d)" s1] dict_put_nonempty [of n obj d]
    by (auto simp: post_def split: option.splits outcome.splits)
  then have "post (collect_ports E d' ps) s1 (\<lambda>d' _. d' \<noteq> [])" if "dict_put n obj d = (d', old)"
    for n obj d' old s1
    using that by (metis fst_conv)
  then show ?case
    by (fastforce simp: post_def bindp_def fail_def split: option.splits outcome.splits prod.splits)
qed (simp add: post_def ret_def)

lemma find_ports_nonempty:
  assumes "ieee1284_find_ports E s = Some (Ret (0, Some ps) s1)" and "ps \<noteq> []"
  shows "post (pyieee1284_find_ports E) s (\<lambda>r _. r \<noteq> Value [])"
  using assms collect_ports_nonempty [of E "[]" ps s1]
  by (auto simp: pyieee1284_find_ports_def post_def bindp_def ret_def truth_def
      split: option.splits outcome.splits)

subsection \<open>Methods that do not do what they mean to\<close>

text \<open>A write to a port that is not claimed returns the error code as if it were a count.\<close>

lemma write_not_claimed:
  assumes "heap s p = Some (q, i)" and "\<not> truth (claimed i)"
  shows "\<exists>s'. Parport_compat_write E (Some p) buffer flags s = Some (Ret (Value E1284_INVALIDPORT) s')"
  using assms
  by (simp add: Parport_compat_write_def write_function_def on_self_def bindp_def on_port_def
      ieee1284_compat_write_def if_claimed_not ret_def)

text \<open>\<^verbatim>\<open>clear_irq\<close> never returns a value, and it faults when the library's function returns.\<close>

lemma clear_irq_never: "post (Parport_clear_irq E self) s (\<lambda>_ _. False)"
  unfolding Parport_clear_irq_def on_self_def
  by (auto simp: post_def bindp_eq_Ret fail_def split: option.splits)

text \<open>The bytes of a read that stores fewer bytes than it reports come from nowhere.\<close>

lemma nibble_read_uninitialised:
  assumes E: "mallocs E" "clock_ok E clk" and h: "heap s p = Some (q, i)"
    and port: "raw_io_port (port_state s q i)" "truth (claimed i)"
    and silent: "in_out_build (env_build E)" "\<And>a w. bit (fst (env_inb E a w)) 3"
  shows "Parport_nibble_read E (Some p) (Suc n) flags s = Some (Fault Uninitialised)"
proof -
  have none: "total (on_port p (ieee1284_nibble_read E flags (Suc n))) s1 (\<lambda>r _. r = (int (Suc n), []))"
    if v: "port_view s1 = port_view s" for s1 :: "'a lib"
  proof -
    have h1: "heap s1 p = Some (q, i)" using h v by (simp add: port_view_def)
    have raw: "raw_io_port (port_state s1 q i)" using port(1) by (simp add: raw_io_port_def)
    have ok: "io_ok E clk (port_state s1 q i)"
      using E(2) raw_io_ready [OF raw] by (simp add: io_ok_def)
    from nibble_read_silent [OF ok raw] port(2) silent show ?thesis
      by (intro total_on_port [OF h1]) (auto simp: total_def)
  qed
  have "total (on_port p (ieee1284_nibble_read E flags (Suc n))) s1 (\<lambda>r s2.
      (case r of (got, stored) \<Rightarrow>
        if \<not> True \<and> stored \<noteq> [] then fail Null_deref
        else if got < 0 then ret (raise_error got)
        else if length stored < nat got then fail Uninitialised
        else ret (Value (take (nat got) stored))) s2 = Some (Fault Uninitialised))"
    if "port_view s1 = port_view s" for s1 :: "'a lib"
    by (rule total_weaken [OF none [OF that]]) (simp add: fail_def)
  then show ?thesis
    unfolding Parport_nibble_read_def read_function_def on_self_def option.case
    by (intro bindp_faults total_malloc [OF E(1)])
qed

text \<open>The old timeout comes back as seconds plus a million times the microseconds.\<close>

lemma set_timeout_value:
  assumes "on_port p (ieee1284_set_timeout E timeout) s = Some (Ret (Some t) s')"
  shows "Parport_set_timeout E (Some p) timeout s = Some (Ret (Value (tv_sec t + tv_usec t * 1000000)) s')"
  using assms by (simp add: Parport_set_timeout_def on_self_def bindp_def ret_def)

end
