(* ===== verification/Python_Types.thy ===== *)
theory Python_Types
  imports Python_Module
begin

section \<open>The Python binding: tables, type and module\<close>

text \<open>
  The rest of \<^verbatim>\<open>src/ieee1284module.c\<close>: the tables by which Python finds the methods and the
  attributes of an object \<^verbatim>\<open>Parport\<close>, the type, and the module with its constants.  The
  interpreter is known by its documentation only: the parsing of arguments,
  \<^verbatim>\<open>PyArg_ParseTuple\<close>, is an argument of the definitions, which gives the values stored or
  nothing if it has raised.  A float is the time it is converted into.  The theorems: a Python
  program keeps the references of the library balanced whatever it calls, and a call whose
  arguments do not parse does not reach the library.
\<close>

subsection \<open>Objects and arguments\<close>

datatype py_object = PyNone | PyLong int | PyBytes "u8 list" | PyString string | PyFloat timeval

record python =
  py_parse :: "string \<Rightarrow> py_object list \<Rightarrow> py_object list option"

type_synonym 'w py_method = "'w env \<Rightarrow> nat option \<Rightarrow> py_object list \<Rightarrow> (py_object py, 'w lib) prog"

datatype meth_flag = METH_NOARGS | METH_VARARGS

definition with_args ::
  "python \<Rightarrow> string \<Rightarrow> py_object list \<Rightarrow> (py_object list \<Rightarrow> (py_object py, 'w lib) prog) \<Rightarrow>
   (py_object py, 'w lib) prog" where
  "with_args Y fmt args f =
     (case py_parse Y fmt args of None \<Rightarrow> ret (Raise Bad_arguments) | Some v \<Rightarrow> f v)"

text \<open>The values stored; an optional argument that is absent leaves the variable as it was.\<close>

definition int_arg :: "py_object list \<Rightarrow> nat \<Rightarrow> int \<Rightarrow> int" where
  "int_arg v n d = (if n < length v then (case v ! n of PyLong k \<Rightarrow> k | _ \<Rightarrow> d) else d)"

definition time_arg :: "py_object list \<Rightarrow> nat \<Rightarrow> timeval" where
  "time_arg v n = (if n < length v
     then (case v ! n of PyFloat t \<Rightarrow> t | _ \<Rightarrow> \<lparr> tv_sec = 0, tv_usec = 0 \<rparr>)
     else \<lparr> tv_sec = 0, tv_usec = 0 \<rparr>)"

definition bytes_arg :: "py_object list \<Rightarrow> nat \<Rightarrow> u8 list" where
  "bytes_arg v n = (if n < length v then (case v ! n of PyBytes b \<Rightarrow> b | _ \<Rightarrow> []) else [])"

fun map_py :: "('a \<Rightarrow> 'b) \<Rightarrow> 'a py \<Rightarrow> 'b py" where
  "map_py f (Raise e) = Raise e"
| "map_py f (Value v) = Value (f v)"

definition py_result :: "('a \<Rightarrow> py_object) \<Rightarrow> ('a py, 'w lib) prog \<Rightarrow> (py_object py, 'w lib) prog" where
  "py_result f m = bindp m (\<lambda>r. ret (map_py f r))"

abbreviation (input) none_result :: "(unit py, 'w lib) prog \<Rightarrow> (py_object py, 'w lib) prog" where
  "none_result \<equiv> py_result (\<lambda>_. PyNone)"

subsection \<open>The table of the methods\<close>

text \<open>
  What the variables of a method that are not initialised hold when it is called: the buffer of
  \<^verbatim>\<open>get_deviceid\<close>, and the upper half of the \<^verbatim>\<open>size_t\<close> of the read methods, of which the parsing
  of an \<^verbatim>\<open>int\<close> writes the lower half only (zero where the two types have the same width).
\<close>

record stack =
  id_buffer :: "u8 list"
  len_upper :: nat

definition stored_len :: "stack \<Rightarrow> int \<Rightarrow> nat" where
  "stored_len stack n = 2 ^ 32 * len_upper stack + nat (n mod 2 ^ 32)"

text \<open>\<^verbatim>\<open>READ_METHOD\<close> and \<^verbatim>\<open>WRITE_METHOD\<close>\<close>

definition read_method ::
  "python \<Rightarrow> stack \<Rightarrow> string \<Rightarrow> ('w env \<Rightarrow> nat option \<Rightarrow> nat \<Rightarrow> int \<Rightarrow> (u8 list py, 'w lib) prog) \<Rightarrow>
   string \<times> meth_flag \<times> 'w py_method" where
  "read_method Y stack name f = (name, METH_VARARGS, \<lambda>E self args. with_args Y ''i|i'' args (\<lambda>v.
     py_result PyBytes (f E self (stored_len stack (int_arg v 0 0)) (int_arg v 1 0))))"

definition write_method ::
  "python \<Rightarrow> string \<Rightarrow> ('w env \<Rightarrow> nat option \<Rightarrow> u8 list \<Rightarrow> int \<Rightarrow> (int py, 'w lib) prog) \<Rightarrow>
   string \<times> meth_flag \<times> 'w py_method" where
  "write_method Y name f = (name, METH_VARARGS, \<lambda>E self args. with_args Y ''s#|i'' args (\<lambda>v.
     py_result PyLong (f E self (bytes_arg v 0) (int_arg v 1 0))))"

definition Parport_methods :: "python \<Rightarrow> stack \<Rightarrow> (string \<times> meth_flag \<times> 'w py_method) list" where
  "Parport_methods Y stack = [
    (''get_deviceid'', METH_VARARGS, \<lambda>E self args. with_args Y ''|ii'' args (\<lambda>v.
      py_result PyBytes (Parport_get_deviceid E self (int_arg v 0 (-1)) (int_arg v 1 0) (id_buffer stack)))),
    (''open'', METH_VARARGS, \<lambda>E self args. with_args Y ''|i'' args (\<lambda>v.
      py_result PyLong (Parport_open E self (int_arg v 0 0)))),
    (''close'', METH_NOARGS, \<lambda>E self args. none_result (Parport_close E self)),
    (''get_irq_fd'', METH_VARARGS, \<lambda>E self args. py_result PyLong (Parport_get_irq_fd E self)),
    (''clear_irq'', METH_NOARGS, \<lambda>E self args. py_result PyLong (Parport_clear_irq E self)),
    (''claim'', METH_NOARGS, \<lambda>E self args. none_result (Parport_claim E self)),
    (''release'', METH_NOARGS, \<lambda>E self args. none_result (Parport_release E self)),
    (''read_data'', METH_NOARGS, \<lambda>E self args. py_result PyLong (Parport_read_data E self)),
    (''write_data'', METH_VARARGS, \<lambda>E self args. with_args Y ''i'' args (\<lambda>v.
      none_result (Parport_write_data E self (int_arg v 0 0)))),
    (''data_dir'', METH_VARARGS, \<lambda>E self args. with_args Y ''i'' args (\<lambda>v.
      none_result (Parport_data_dir E self (int_arg v 0 0)))),
    (''read_status'', METH_NOARGS, \<lambda>E self args. py_result PyLong (Parport_read_status E self)),
    (''wait_status'', METH_VARARGS, \<lambda>E self args. with_args Y ''iif'' args (\<lambda>v.
      none_result (Parport_wait_status E self (int_arg v 0 0) (int_arg v 1 0) (time_arg v 2)))),
    (''read_control'', METH_NOARGS, \<lambda>E self args. py_result PyLong (Parport_read_control E self)),
    (''write_control'', METH_VARARGS, \<lambda>E self args. with_args Y ''i'' args (\<lambda>v.
      none_result (Parport_write_control E self (int_arg v 0 0)))),
    (''frob_control'', METH_VARARGS, \<lambda>E self args. with_args Y ''ii'' args (\<lambda>v.
      none_result (Parport_frob_control E self (int_arg v 0 0) (int_arg v 1 0)))),
    (''negotiate'', METH_VARARGS, \<lambda>E self args. with_args Y ''i'' args (\<lambda>v.
      none_result (Parport_negotiate E self (int_arg v 0 0)))),
    (''terminate'', METH_NOARGS, \<lambda>E self args. none_result (Parport_terminate E self)),
    (''ecp_fwd_to_rev'', METH_NOARGS, \<lambda>E self args. none_result (Parport_ecp_fwd_to_rev E self)),
    (''ecp_rev_to_fwd'', METH_NOARGS, \<lambda>E self args. none_result (Parport_ecp_rev_to_fwd E self)),
    (''set_timeout'', METH_VARARGS, \<lambda>E self args. with_args Y ''f'' args (\<lambda>v.
      py_result (\<lambda>n. PyFloat \<lparr> tv_sec = n, tv_usec = 0 \<rparr>) (Parport_set_timeout E self (time_arg v 0)))),
    read_method Y stack ''nibble_read'' Parport_nibble_read,
    read_method Y stack ''byte_read'' Parport_byte_read,
    read_method Y stack ''epp_read_data'' Parport_epp_read_data,
    read_method Y stack ''epp_read_addr'' Parport_epp_read_addr,
    read_method Y stack ''ecp_read_data'' Parport_ecp_read_data,
    read_method Y stack ''ecp_read_addr'' Parport_ecp_read_addr,
    write_method Y ''compat_write'' Parport_compat_write,
    write_method Y ''epp_write_data'' Parport_epp_write_data,
    write_method Y ''epp_write_addr'' Parport_epp_write_addr,
    write_method Y ''ecp_write_data'' Parport_ecp_write_data,
    write_method Y ''ecp_write_addr'' Parport_ecp_write_addr]"

text \<open>
  A call of a method: an unknown name raises, and so do arguments to a method without any, before
  the function of the table is called.
\<close>

definition call_method ::
  "python \<Rightarrow> stack \<Rightarrow> 'w env \<Rightarrow> string \<Rightarrow> nat option \<Rightarrow> py_object list \<Rightarrow> (py_object py, 'w lib) prog" where
  "call_method Y stack E name self args =
     (case map_of (Parport_methods Y stack) name of
        None \<Rightarrow> ret (Raise Bad_arguments)
      | Some (flag, f) \<Rightarrow>
          if flag = METH_NOARGS \<and> args \<noteq> [] then ret (Raise Bad_arguments) else f E self args)"

subsection \<open>The attributes and the type\<close>

definition Parport_getseters :: "(string \<times> (nat option \<Rightarrow> (py_object, 'w lib) prog)) list" where
  "Parport_getseters = [
    (''name'', \<lambda>self. bindp (Parport_getname self) (\<lambda>n. ret (PyString n))),
    (''base_addr'', \<lambda>self. bindp (Parport_getbase_addr self) (\<lambda>a. ret (PyLong a))),
    (''hibase_addr'', \<lambda>self. bindp (Parport_gethibase_addr self) (\<lambda>a. ret (PyLong a))),
    (''filename'', \<lambda>self. bindp (Parport_getfilename self) (\<lambda>f.
       ret (case f of None \<Rightarrow> PyNone | Some n \<Rightarrow> PyString n)))]"

record 'w py_type =
  tp_name :: string
  tp_doc :: string
  tp_dealloc :: "'w env \<Rightarrow> nat option \<Rightarrow> (unit, 'w lib) prog"
  tp_methods :: "(string \<times> meth_flag \<times> 'w py_method) list"
  tp_getset :: "(string \<times> (nat option \<Rightarrow> (py_object, 'w lib) prog)) list"
  tp_init :: "int py"
  tp_new :: "'w env \<Rightarrow> (nat option option, 'w lib) prog"

definition ParportType :: "python \<Rightarrow> stack \<Rightarrow> 'w py_type" where
  "ParportType Y stack = \<lparr> tp_name = ''ieee1284.Parport'', tp_doc = ''parallel port object'',
     tp_dealloc = Parport_dealloc, tp_methods = Parport_methods Y stack,
     tp_getset = Parport_getseters, tp_init = Parport_init, tp_new = Parport_new \<rparr>"

text \<open>The type called from Python: the object that is made is dropped when its initialisation raises.\<close>

definition call_type :: "'w py_type \<Rightarrow> 'w env \<Rightarrow> (nat option py, 'w lib) prog" where
  "call_type T E =
     bindp (tp_new T E) (\<lambda>obj. case obj of
       None \<Rightarrow> ret (Raise MemoryError)
     | Some self \<Rightarrow> (case tp_init T of
         Raise e \<Rightarrow> bindp (tp_dealloc T E self) (\<lambda>_. ret (Raise e))
       | Value _ \<Rightarrow> ret (Value self)))"

subsection \<open>The module\<close>

definition module_constants :: "(string \<times> int) list" where
  "module_constants = [
    (''F1284_FRESH'', F1284_FRESH), (''F1284_EXCL'', F1284_EXCL),
    (''CAP1284_RAW'', CAP1284_RAW), (''CAP1284_NIBBLE'', CAP1284_NIBBLE),
    (''CAP1284_BYTE'', CAP1284_BYTE), (''CAP1284_COMPAT'', CAP1284_COMPAT),
    (''CAP1284_BECP'', CAP1284_BECP), (''CAP1284_ECP'', CAP1284_ECP),
    (''CAP1284_ECPRLE'', CAP1284_ECPRLE), (''CAP1284_ECPSWE'', CAP1284_ECPSWE),
    (''CAP1284_EPP'', CAP1284_EPP), (''CAP1284_EPPSL'', CAP1284_EPPSL),
    (''CAP1284_EPPSWE'', CAP1284_EPPSWE), (''CAP1284_IRQ'', CAP1284_IRQ),
    (''CAP1284_DMA'', CAP1284_DMA), (''S1284_NFAULT'', S1284_NFAULT),
    (''S1284_SELECT'', S1284_SELECT), (''S1284_PERROR'', S1284_PERROR),
    (''S1284_NACK'', S1284_NACK), (''S1284_BUSY'', S1284_BUSY),
    (''S1284_INVERTED'', S1284_INVERTED), (''C1284_NSTROBE'', uint C1284_NSTROBE),
    (''C1284_NAUTOFD'', uint C1284_NAUTOFD), (''C1284_NINIT'', uint C1284_NINIT),
    (''C1284_NSELECTIN'', uint C1284_NSELECTIN), (''C1284_INVERTED'', uint C1284_INVERTED),
    (''M1284_NIBBLE'', M1284_NIBBLE), (''M1284_BYTE'', M1284_BYTE),
    (''M1284_COMPAT'', M1284_COMPAT), (''M1284_BECP'', M1284_BECP), (''M1284_ECP'', M1284_ECP),
    (''M1284_ECPRLE'', M1284_ECPRLE), (''M1284_ECPSWE'', M1284_ECPSWE),
    (''M1284_EPP'', M1284_EPP), (''M1284_EPPSL'', M1284_EPPSL),
    (''M1284_EPPSWE'', M1284_EPPSWE), (''M1284_FLAG_DEVICEID'', M1284_FLAG_DEVICEID),
    (''M1284_FLAG_EXT_LINK'', M1284_FLAG_EXT_LINK), (''F1284_NONBLOCK'', F1284_NONBLOCK),
    (''F1284_SWE'', F1284_SWE), (''F1284_RLE'', F1284_RLE), (''F1284_FASTEPP'', F1284_FASTEPP)]"

datatype py_attribute = Module_type string | Module_error string | Module_int int | Module_function

text \<open>\<open>ready\<close> is the result of \<^verbatim>\<open>PyType_Ready\<close>.\<close>

definition PyInit_ieee1284module :: "int \<Rightarrow> (string \<times> py_attribute) list option" where
  "PyInit_ieee1284module ready =
     (if ready < 0 then None
      else Some ([(''find_ports'', Module_function),
        (''Parport'', Module_type ''ieee1284.Parport''), (''error'', Module_error ''ieee1284.error'')] @
        map (\<lambda>(n, v). (n, Module_int v)) module_constants))"

subsection \<open>The tables\<close>

text \<open>No name hides another.\<close>

lemma method_names_distinct: "distinct (map fst (Parport_methods Y stack))"
  by (simp add: Parport_methods_def read_method_def write_method_def)

lemma module_names_distinct:
  "PyInit_ieee1284module ready = Some attrs \<Longrightarrow> distinct (map fst attrs)"
  by (auto simp: PyInit_ieee1284module_def module_constants_def split: if_splits)

subsection \<open>Methods keep the references\<close>

abbreviation (input) refs_kept :: "nat multiset \<Rightarrow> ('a, 'w lib) prog \<Rightarrow> bool" where
  "refs_kept H m \<equiv> stays (\<lambda>s. counted s H) m"

text \<open>The calls of \<open>run_api\<close>, each by its own name.\<close>

lemmas api_refs =
  run_api_refs [where c = "Claim", unfolded run_api.simps post_result_iff]
  run_api_refs [where c = "Release", unfolded run_api.simps post_result_iff]
  run_api_refs [where c = "Get_irq_fd", unfolded run_api.simps post_result_iff]
  run_api_refs [where c = "Clear_irq k", unfolded run_api.simps post_result_iff]
  run_api_refs [where c = "Read_data", unfolded run_api.simps post_result_iff]
  run_api_refs [where c = "Write_data b", unfolded run_api.simps post_result_iff]
  run_api_refs [where c = "Data_dir r", unfolded run_api.simps post_result_iff]
  run_api_refs [where c = "Read_status", unfolded run_api.simps post_result_iff]
  run_api_refs [where c = "Wait_status m v t", unfolded run_api.simps post_result_iff]
  run_api_refs [where c = "Read_control", unfolded run_api.simps post_result_iff]
  run_api_refs [where c = "Write_control b", unfolded run_api.simps post_result_iff]
  run_api_refs [where c = "Frob_control m v", unfolded run_api.simps post_result_iff]
  run_api_refs [where c = "Negotiate mode", unfolded run_api.simps post_result_iff]
  run_api_refs [where c = "Terminate", unfolded run_api.simps post_result_iff]
  run_api_refs [where c = "Ecp_fwd_to_rev", unfolded run_api.simps post_result_iff]
  run_api_refs [where c = "Ecp_rev_to_fwd", unfolded run_api.simps post_result_iff]
  run_api_refs [where c = "Nibble_read f n", unfolded run_api.simps post_result_iff]
  run_api_refs [where c = "Compat_write f bs", unfolded run_api.simps post_result_iff]
  run_api_refs [where c = "Byte_read f n", unfolded run_api.simps post_result_iff]
  run_api_refs [where c = "Epp_read_data f n", unfolded run_api.simps post_result_iff]
  run_api_refs [where c = "Epp_write_data f bs", unfolded run_api.simps post_result_iff]
  run_api_refs [where c = "Epp_read_addr f n", unfolded run_api.simps post_result_iff]
  run_api_refs [where c = "Epp_write_addr f bs", unfolded run_api.simps post_result_iff]
  run_api_refs [where c = "Ecp_read_data f n", unfolded run_api.simps post_result_iff]
  run_api_refs [where c = "Ecp_write_data f bs", unfolded run_api.simps post_result_iff]
  run_api_refs [where c = "Ecp_read_addr f n", unfolded run_api.simps post_result_iff]
  run_api_refs [where c = "Ecp_write_addr f bs", unfolded run_api.simps post_result_iff]
  run_api_refs [where c = "Set_timeout t", unfolded run_api.simps post_result_iff]
  run_api_refs [where c = "Open f k", unfolded run_api.simps post_result_iff]
  for n k b r m v t mode f bs

lemma refs_on_self: "(\<And>p. refs_kept H (f p)) \<Longrightarrow> refs_kept H (on_self self f)"
  by (cases self) (simp_all add: on_self_def stays_fail)

lemma refs_py_result: "refs_kept H m \<Longrightarrow> refs_kept H (py_result f m)"
  unfolding py_result_def by (intro stays_bindp stays_ret)

lemma refs_with_args: "(\<And>v. refs_kept H (f v)) \<Longrightarrow> refs_kept H (with_args Y fmt args f)"
  by (simp add: with_args_def stays_ret split: option.split)

lemma refs_malloc: "refs_kept H (sys_malloc E n)"
  unfolding sys_malloc_def by (intro stays_counted_view keeps_view_call)

lemma refs_wrappers:
  "(\<And>t. post m t (\<lambda>_. refs_step t)) \<Longrightarrow> refs_kept H (int_method self m)"
  "(\<And>t. post m t (\<lambda>_. refs_step t)) \<Longrightarrow> refs_kept H (none_method self m)"
  "(\<And>t. post u t (\<lambda>_. refs_step t)) \<Longrightarrow> refs_kept H (void_method self u)"
  "(\<And>t. post m t (\<lambda>_. refs_step t)) \<Longrightarrow> refs_kept H (write_function self m)"
  "(\<And>t. post r t (\<lambda>_. refs_step t)) \<Longrightarrow> refs_kept H (read_function E self len r)"
  unfolding int_method_def none_method_def void_method_def write_function_def read_function_def
  by (intro refs_on_self stays_bindp stays_ret stays_if stays_fail stays_case_prod
      stays_counted_on_port refs_malloc; assumption)+

lemmas wrapped_methods = Parport_get_irq_fd_def Parport_claim_def Parport_release_def
  Parport_read_data_def Parport_write_data_def Parport_data_dir_def Parport_read_status_def
  Parport_wait_status_def Parport_read_control_def Parport_write_control_def
  Parport_frob_control_def Parport_negotiate_def Parport_terminate_def
  Parport_ecp_fwd_to_rev_def Parport_ecp_rev_to_fwd_def Parport_nibble_read_def
  Parport_byte_read_def Parport_epp_read_data_def Parport_epp_read_addr_def
  Parport_ecp_read_data_def Parport_ecp_read_addr_def Parport_compat_write_def
  Parport_epp_write_data_def Parport_epp_write_addr_def Parport_ecp_write_data_def
  Parport_ecp_write_addr_def

text \<open>The methods that are not one call of the library.\<close>

lemma refs_other_methods:
  "refs_kept H (Parport_get_deviceid E self daisy flags stack)"
  "refs_kept H (Parport_open E self flags)"
  "refs_kept H (Parport_clear_irq E self)"
  "refs_kept H (Parport_close E self)"
  "refs_kept H (Parport_set_timeout E self timeout)"
  unfolding Parport_get_deviceid_def Parport_open_def Parport_clear_irq_def Parport_close_def
    Parport_set_timeout_def
  by (intro refs_on_self stays_bindp stays_ret stays_if stays_fail stays_case_prod stays_case_option
      stays_counted_on_port api_refs stays_counted_deviceid stays_counted_close)+

lemma refs_table:
  "\<forall>(name, flag, f) \<in> set (Parport_methods Y stack). refs_kept H (f E self args)"
  unfolding Parport_methods_def read_method_def write_method_def
  by (simp, intro conjI; intro refs_with_args refs_py_result refs_other_methods;
      unfold wrapped_methods; rule refs_wrappers; rule api_refs)

lemma call_method_counted:
  fixes E :: "'w env"
  shows "refs_kept H (call_method Y stack E name self args)"
proof (cases "map_of (Parport_methods Y stack) name :: (meth_flag \<times> 'w py_method) option")
  case (Some row)
  obtain flag f where row: "row = (flag, f)" by force
  with Some have "(name, flag, f) \<in> set (Parport_methods Y stack)" by (simp add: map_of_SomeD)
  with refs_table [of Y stack H E self args] have "refs_kept H (f E self args)" by blast
  with Some row show ?thesis by (simp add: call_method_def stays_ret)
qed (simp add: call_method_def stays_ret)

text \<open>Arguments that do not parse do not reach the library.\<close>

lemma bad_arguments_row:
  "\<forall>(name, flag, f) \<in> set (Parport_methods Y stack). flag = METH_VARARGS \<longrightarrow> name \<noteq> ''get_irq_fd'' \<longrightarrow>
     (\<forall>fmt. py_parse Y fmt args = None) \<longrightarrow> f E self args = ret (Raise Bad_arguments)"
  by (simp add: Parport_methods_def read_method_def write_method_def with_args_def)

lemma bad_arguments:
  fixes E :: "'w env"
  assumes bad: "\<And>fmt. py_parse Y fmt args = None" "args \<noteq> []" and name: "name \<noteq> ''get_irq_fd''"
  shows "call_method Y stack E name self args = ret (Raise Bad_arguments)"
proof (cases "map_of (Parport_methods Y stack) name :: (meth_flag \<times> 'w py_method) option")
  case (Some row)
  obtain flag f where row: "row = (flag, f)" by force
  with Some have "(name, flag, f) \<in> set (Parport_methods Y stack)" by (simp add: map_of_SomeD)
  with bad_arguments_row [of Y stack args E self] bad name
  have "flag = METH_VARARGS \<Longrightarrow> f E self args = ret (Raise Bad_arguments)" by blast
  with Some row bad show ?thesis by (cases flag) (simp_all add: call_method_def)
qed (simp add: call_method_def)

text \<open>The type cannot be called, and the attempt leaves the ports alone.\<close>

lemma call_type_raises:
  "post (call_type (ParportType Y stack) E) s (\<lambda>r s'. (\<exists>e. r = Raise e) \<and> port_view s' = port_view s)"
proof -
  have new: "post (Parport_new E) s (\<lambda>obj s'. (obj = None \<or> obj = Some None) \<and> port_view s' = port_view s)"
    unfolding Parport_new_def sys_malloc_def
    by (auto simp: post_def bindp_eq_Ret ret_eq_Ret lib_call_def port_view_def split: prod.splits)
  show ?thesis
    unfolding call_type_def ParportType_def
    by (simp, rule post_bindp, rule post_weaken [OF new])
       (auto simp: Parport_init_def Parport_dealloc_def post_def bindp_def ret_def)
qed

subsection \<open>A Python program\<close>

text \<open>
  What a program does with the module: it searches, calls methods of objects it has, and drops
  objects.  \<open>objs\<close> is the multiset of the ports its objects hold; the objects themselves are
  counted by Python.
\<close>

inductive py_step ::
  "python \<Rightarrow> 'w env \<Rightarrow> 'w lib \<times> nat multiset \<Rightarrow> 'w lib \<times> nat multiset \<Rightarrow> bool" for Y E where
  py_search: "pyieee1284_find_ports E s = Some (Ret (Value d) s') \<Longrightarrow>
     py_step Y E (s, objs) (s', objs + mset (map snd d))"
| py_search_raises: "pyieee1284_find_ports E s = Some (Ret (Raise e) s') \<Longrightarrow> py_step Y E (s, objs) (s', objs)"
| py_method: "p \<in># objs \<Longrightarrow> call_method Y stack E name (Some p) args s = Some (Ret r s') \<Longrightarrow>
     py_step Y E (s, objs) (s', objs)"
| py_drop: "p \<in># objs \<Longrightarrow> Parport_dealloc E (Some p) s = Some (Ret () s') \<Longrightarrow>
     py_step Y E (s, objs) (s', objs - {#p#})"
| py_world: "py_step Y E (s, objs) (s\<lparr>lworld := w, ltrace := tr\<rparr>, objs)"

inductive py_run ::
  "python \<Rightarrow> 'w env \<Rightarrow> 'w lib \<times> nat multiset \<Rightarrow> 'w lib \<times> nat multiset \<Rightarrow> bool" for Y E where
  py_start: "py_run Y E c c"
| py_more: "py_run Y E c c1 \<Longrightarrow> py_step Y E c1 c2 \<Longrightarrow> py_run Y E c c2"

lemma py_step_counted:
  assumes "py_step Y E c c'" and "counted (fst c) (snd c)"
  shows "counted (fst c') (snd c')"
  using assms
proof (induction rule: py_step.induct)
  case (py_search s d s' objs)
  with client_run_counted [OF find_ports_refs [of E s "Value d" s' objs]] show ?case by simp
next
  case (py_search_raises s e s' objs)
  with client_run_counted [OF find_ports_refs [of E s "Raise e" s' objs]] show ?case by simp
next
  case (py_method p objs stack name args s r s')
  then show ?case using postD [OF staysD [OF call_method_counted]] by fastforce
next
  case (py_drop p objs s s')
  then show ?case using postD [OF total_post [OF dealloc_refs]] by fastforce
next
  case (py_world s objs tr w)
  then show ?case using counted_view [of "s\<lparr>lworld := w, ltrace := tr\<rparr>" s] by (simp add: port_view_def)
qed

lemma py_run_counted: "py_run Y E c c' \<Longrightarrow> counted (fst c) (snd c) \<Longrightarrow> counted (fst c') (snd c')"
  by (induction rule: py_run.induct) (blast dest: py_step_counted)+

end
