(* ===== verification/Test_Client.thy ===== *)
theory Test_Client
  imports Lifecycle
begin

section \<open>A client: \<^verbatim>\<open>tests/test.c\<close>\<close>

text \<open>
  The test program of the library: it lists the ports, prints the device IDs it finds, opens
  every port once to show what it can do, and frees the list.  Its state is that of the library
  together with what has been printed.  The buffer for the IDs is on the stack and not
  initialised; its first contents are an argument.  The theorem: whatever the system answers,
  when the program ends every reference it took has been given up, so that the only ports left
  are those a failed probe has left open.
\<close>

subsection \<open>Printing\<close>

type_synonym 'w console = "'w lib \<times> string"

definition on_lib :: "('a, 'w lib) prog \<Rightarrow> ('a, 'w console) prog" where
  "on_lib m = (\<lambda>(s, out). case m s of
       None \<Rightarrow> None
     | Some (Fault f) \<Rightarrow> Some (Fault f)
     | Some (Ret a s') \<Rightarrow> Some (Ret a (s', out)))"

definition printf :: "string \<Rightarrow> (unit, 'w console) prog" where
  "printf str = modify (\<lambda>(s, out). (s, out @ str))"

definition newline :: string where
  "newline = [CHR 0x0A]"

definition hex_digit :: "nat \<Rightarrow> char" where
  "hex_digit n = (if n < 10 then digit n else char_of (87 + n))"

fun hexadecimal :: "nat \<Rightarrow> string" where
  "hexadecimal n =
     (if n < 16 then [hex_digit n] else hexadecimal (n div 16) @ [hex_digit (n mod 16)])"

declare hexadecimal.simps [simp del]

text \<open>\<^verbatim>\<open>%#lx\<close>\<close>

definition print_hex :: "64 word \<Rightarrow> string" where
  "print_hex w = (if w = 0 then ''0'' else ''0x'' @ hexadecimal (unat w))"

subsection \<open>The fields of a device ID\<close>

datatype devid_field = devid_cls | devid_mfg | devid_mdl

fun strstr :: "string \<Rightarrow> string \<Rightarrow> string option" where
  "strstr s pat =
     (if take (length pat) s = pat then Some s
      else case s of [] \<Rightarrow> None | c # t \<Rightarrow> strstr t pat)"

declare strstr.simps [simp del]

fun field_tags :: "devid_field \<Rightarrow> string list" where
  "field_tags devid_cls = [''CLASS:'', ''class:'', ''CLS:'', ''cls:'']"
| "field_tags devid_mfg = [''MANUFACTURER:'', ''manufacturer:'', ''MFG:'', ''mfg:'']"
| "field_tags devid_mdl = [''MODEL:'', ''model:'', ''MDL:'', ''mdl:'']"

fun first_match :: "string \<Rightarrow> string list \<Rightarrow> string option" where
  "first_match s [] = None"
| "first_match s (tag # tags) = (case strstr s tag of None \<Rightarrow> first_match s tags | Some p \<Rightarrow> Some p)"

definition field_text :: "string \<Rightarrow> devid_field \<Rightarrow> string" where
  "field_text idb f =
     (case first_match idb (field_tags f) of
        None \<Rightarrow> ''(?)''
      | Some p \<Rightarrow> takeWhile (\<lambda>c. c \<noteq> CHR '';'') (tl (dropWhile (\<lambda>c. c \<noteq> CHR '':'') p)))"

text \<open>
  The text is copied with \<^verbatim>\<open>strdup\<close>, whose null result would be printed; an ID without a
  terminator makes the search run off the buffer.
\<close>

definition field :: "'w env \<Rightarrow> u8 list \<Rightarrow> devid_field \<Rightarrow> (string, 'w lib) prog" where
  "field E idb f =
     (let buf = drop 2 (chars_of idb); text = c_string buf in
      if CHR 0x00 \<notin> set buf then fail Out_of_bounds
      else if first_match text (field_tags f) = None then ret ''(?)''
      else bindp (sys_malloc E (int (length (field_text text f)) + 1)) (\<lambda>ok.
           if ok then ret (field_text text f) else fail Null_deref))"

definition print_id :: "'w env \<Rightarrow> u8 list \<Rightarrow> (unit, 'w console) prog" where
  "print_id E idb =
     bindp (on_lib (field E idb devid_cls)) (\<lambda>cls.
     bindp (on_lib (field E idb devid_mfg)) (\<lambda>mfg.
     bindp (on_lib (field E idb devid_mdl)) (\<lambda>mdl.
     printf (cls @ '', '' @ mfg @ '' '' @ mdl))))"

subsection \<open>The IDs of the ports\<close>

abbreviation (input) ID_SIZE :: nat where "ID_SIZE \<equiv> 500"

text \<open>The daisy chain addresses \<open>j\<close> to 3.\<close>

fun daisy_loop :: "'w env \<Rightarrow> nat \<Rightarrow> nat \<Rightarrow> nat \<Rightarrow> u8 list \<Rightarrow> (u8 list, 'w console) prog" where
  "daisy_loop E p j 0 idb = ret idb"
| "daisy_loop E p j (Suc left) idb =
     bindp (on_lib (ieee1284_get_deviceid E p (int j) 0 idb ID_SIZE)) (\<lambda>(r, id1).
     bindp (if -1 < r
            then bindp (printf (''    Daisy chain address '' @ decimal j @ '': (may be cached) '')) (\<lambda>_.
                 bindp (print_id E id1) (\<lambda>_. printf newline))
            else ret ()) (\<lambda>_.
     daisy_loop E p (j + 1) left id1))"

definition test_port_id :: "'w env \<Rightarrow> nat \<Rightarrow> u8 list \<Rightarrow> (u8 list, 'w console) prog" where
  "test_port_id E p idb =
     bindp (on_lib (on_name p)) (\<lambda>name.
     bindp (printf (''  '' @ name @ '': '')) (\<lambda>_.
     bindp (on_lib (ieee1284_get_deviceid E p (-1) F1284_FRESH idb ID_SIZE)) (\<lambda>(r, id1).
     bindp (if -1 < r then bindp (print_id E id1) (\<lambda>_. ret id1)
            else
            bindp (on_lib (ieee1284_get_deviceid E p (-1) 0 id1 ID_SIZE)) (\<lambda>(r, id2).
            bindp (if -1 < r
                   then bindp (printf ''(may be cached) '') (\<lambda>_. print_id E id2)
                   else ret ()) (\<lambda>_. ret id2))) (\<lambda>id3.
     bindp (printf newline) (\<lambda>_.
     daisy_loop E p 0 4 id3)))))"

fun test_ids :: "'w env \<Rightarrow> nat list \<Rightarrow> u8 list \<Rightarrow> (unit, 'w console) prog" where
  "test_ids E [] idb = ret ()"
| "test_ids E (p # ps) idb = bindp (test_port_id E p idb) (\<lambda>id1. test_ids E ps id1)"

definition test_deviceid :: "'w env \<Rightarrow> nat list \<Rightarrow> u8 list \<Rightarrow> (unit, 'w console) prog" where
  "test_deviceid E pl idb =
     bindp (printf (''Found '' @ decimal (length pl) @ '' ports:'' @ newline)) (\<lambda>_.
     bindp (test_ids E pl idb) (\<lambda>_. printf newline))"

subsection \<open>Opening the ports\<close>

definition capability_names :: "(nat \<times> string) list" where
  "capability_names = [(0, ''RAW''), (1, ''NIBBLE''), (2, ''BYTE''), (3, ''COMPAT''), (4, ''BECP''),
     (5, ''ECP''), (6, ''ECPRLE''), (7, ''ECPSWE''), (8, ''EPP''), (9, ''EPPSL''), (10, ''EPPSWE''),
     (11, ''IRQ''), (12, ''DMA'')]"

definition show_capabilities :: "int \<Rightarrow> (int, 'w console) prog" where
  "show_capabilities cap =
     bindp (printf (concat (map (\<lambda>(n, name). if bit cap n then name @ '' '' else []) capability_names)
       @ newline)) (\<lambda>_. ret 0)"

definition on_public :: "nat \<Rightarrow> (parport \<Rightarrow> 'a) \<Rightarrow> ('a, 'w lib) prog" where
  "on_public p f = (\<lambda>s. case heap s p of
      None \<Rightarrow> Some (Fault Use_after_free) | Some (q, i) \<Rightarrow> Some (Ret (f q) s))"

definition test_irq :: "'w env \<Rightarrow> nat \<Rightarrow> (unit, 'w console) prog" where
  "test_irq E p =
     bindp (on_lib (on_port p (ieee1284_get_irq_fd E))) (\<lambda>d.
     if d < 0 then printf (''Couldn't get IRQ fd: '' @ print_int d @ newline)
     else
     bindp (on_lib (on_port p (ieee1284_claim E))) (\<lambda>r.
     bindp (if r \<noteq> E1284_OK
            then bindp (printf (''Couldn't claim port: '' @ print_int r @ newline)) (\<lambda>_. ret r)
            else bindp (on_lib (on_port p (ieee1284_clear_irq E None))) (\<lambda>(r, _). ret r)) (\<lambda>r.
     bindp (if r \<noteq> E1284_OK then printf (''Couldn't clear IRQ: '' @ print_int r @ newline) else ret ())
       (\<lambda>_. on_lib (on_port p (ieee1284_release E))))))"

definition test_open_port :: "'w env \<Rightarrow> nat \<Rightarrow> (unit, 'w console) prog" where
  "test_open_port E p =
     bindp (on_lib (on_port p (ieee1284_open E 0 (Some 0)))) (\<lambda>(r, cap).
     bindp (on_lib (on_public p (\<lambda>q. q))) (\<lambda>q.
     if r \<noteq> E1284_OK then printf (pname q @ '': inaccessible'' @ newline)
     else
     bindp (printf (pname q @ '': '' @ print_hex (base_addr q) @
       (if hibase_addr q \<noteq> 0 then '' (ECR at '' @ print_hex (hibase_addr q) @ '')'' else []) @
       newline @ ''  '')) (\<lambda>_.
     bindp (show_capabilities (the cap)) (\<lambda>_.
     bindp (if truth (the cap AND CAP1284_IRQ) then test_irq E p else ret ()) (\<lambda>_.
     bindp (on_lib (ieee1284_close E p)) (\<lambda>_. ret ()))))))"

definition test_open :: "'w env \<Rightarrow> nat list \<Rightarrow> (unit, 'w console) prog" where
  "test_open E pl = stmts (map (test_open_port E) pl)"

definition test_main :: "'w env \<Rightarrow> u8 list \<Rightarrow> (int, 'w console) prog" where
  "test_main E idb =
     bindp (on_lib (ieee1284_find_ports E)) (\<lambda>(_, list).
     let pl = (case list of None \<Rightarrow> [] | Some ps \<Rightarrow> ps) in
     bindp (test_deviceid E pl idb) (\<lambda>_.
     bindp (test_open E pl) (\<lambda>_.
     bindp (on_lib (ieee1284_free_ports list)) (\<lambda>_. ret 0))))"

subsection \<open>The references of the program\<close>

definition counted_term :: "nat multiset \<Rightarrow> 'w console \<Rightarrow> bool" where
  "counted_term H t \<longleftrightarrow> counted (fst t) H"

lemma post_on_lib:
  "post m (fst t) (\<lambda>a s'. Q a (s', snd t)) \<Longrightarrow> post (on_lib m) t Q"
  by (cases t) (auto simp: post_def on_lib_def split: option.splits outcome.splits)

lemma stays_on_lib: "stays (\<lambda>s. counted s H) m \<Longrightarrow> stays (counted_term H) (on_lib m)"
  by (rule staysI, rule post_on_lib) (simp add: stays_def counted_term_def)

lemma stays_printf: "stays (counted_term H) (printf str)"
  unfolding printf_def by (rule stays_modify) (simp add: counted_term_def case_prod_beta)

lemma stays_unchanged: "keeps (\<lambda>s. s) m \<Longrightarrow> stays (\<lambda>s. counted s H) m"
  by (erule stays_keeps) simp

lemma stays_field: "stays (\<lambda>s. counted s H) (field E idb f)"
  unfolding field_def Let_def sys_malloc_def
  by (intro stays_if stays_fail stays_ret stays_bindp stays_counted_view keeps_view_call)

lemma stays_names:
  "stays (\<lambda>s. counted s H) (on_name p)" "stays (\<lambda>s. counted s H) (on_public p g)"
  by (auto simp: stays_def post_def on_name_def on_public_def split: option.splits)

lemmas client_rules = stays_bindp stays_if stays_ret stays_case_prod stays_printf stays_on_lib
  stays_counted_deviceid stays_field stays_names stays_counted_close

lemma stays_print_id: "stays (counted_term H) (print_id E idb)"
  unfolding print_id_def by (intro client_rules)

lemma stays_daisy_loop: "stays (counted_term H) (daisy_loop E p j left idb)"
proof (induction left arbitrary: j idb)
  case (Suc left)
  then show ?case
    unfolding daisy_loop.simps by (intro client_rules stays_print_id)
qed (simp add: stays_ret)

lemma stays_test_deviceid: "stays (counted_term H) (test_deviceid E pl idb)"
proof -
  have "stays (counted_term H) (test_ids E pl idb)"
  proof (induction pl arbitrary: idb)
    case (Cons p pl)
    then show ?case
      unfolding test_ids.simps test_port_id_def
      by (intro client_rules stays_print_id stays_daisy_loop)
  qed (simp add: stays_ret)
  then show ?thesis unfolding test_deviceid_def by (intro client_rules)
qed

lemma stays_api:
  "stays (\<lambda>s. counted s H) (on_port p (ieee1284_open E flags caps))"
  "stays (\<lambda>s. counted s H) (on_port p (ieee1284_claim E))"
  "stays (\<lambda>s. counted s H) (on_port p (ieee1284_release E))"
  "stays (\<lambda>s. counted s H) (on_port p (ieee1284_get_irq_fd E))"
  "stays (\<lambda>s. counted s H) (on_port p (ieee1284_clear_irq E n))"
  by (intro stays_counted_on_port open_refs claim_refs release_refs life_refs unguarded_life)+

lemma stays_test_open: "stays (counted_term H) (test_open E pl)"
proof -
  have "stays (counted_term H) (test_open_port E p)" for p
    unfolding test_open_port_def show_capabilities_def test_irq_def
    by (intro client_rules stays_api)
  then show ?thesis unfolding test_open_def by (intro stays_stmts) auto
qed

lemma test_main_counted:
  assumes "counted s {#}"
  shows "post (test_main E idb) (s, out) (\<lambda>r t. r = 0 \<and> counted (fst t) {#} \<and>
     (\<forall>p. heap (fst t) p \<noteq> None \<longrightarrow> is_open (fst t) p))"
proof -
  have free: "post (ieee1284_free_ports list) s1 (\<lambda>_ s'. counted s' {#})"
    if "counted s1 (list_refs list)" for s1 :: "'a lib" and list
  proof (cases list)
    case None
    with that show ?thesis by (simp add: ieee1284_free_ports_def list_refs_def post_def ret_def)
  next
    case (Some ps)
    with that total_post [OF free_ports_total [of s1 "list_refs list" ps]] show ?thesis
      by (simp add: list_refs_def)
  qed
  have open_only: "is_open s1 p" if "counted s1 {#}" "heap s1 p \<noteq> None" for s1 :: "'a lib" and p
    using live_usable [OF that(1)] that(2) by (auto simp: usable_def)
  show ?thesis
    unfolding test_main_def
  proof (rule post_bindp, rule post_on_lib, rule post_weaken [OF find_ports_counted], simp, rule assms,
      clarify, unfold Let_def)
    fix r list and s1 :: "'a lib"
    assume "counted s1 ({#} + list_refs list)"
    then have c: "counted_term (list_refs list) (s1, snd (s, out))" by (simp add: counted_term_def)
    show "post (bindp (test_deviceid E (case list of None \<Rightarrow> [] | Some ps \<Rightarrow> ps) idb)
        (\<lambda>_. bindp (test_open E (case list of None \<Rightarrow> [] | Some ps \<Rightarrow> ps))
        (\<lambda>_. bindp (on_lib (ieee1284_free_ports list)) (\<lambda>_. ret 0)))) (s1, snd (s, out))
       (\<lambda>r t. r = 0 \<and> counted (fst t) {#} \<and> (\<forall>p. heap (fst t) p \<noteq> None \<longrightarrow> is_open (fst t) p))"
      by (rule stays_step [OF stays_test_deviceid c], rule stays_step [OF stays_test_open], assumption,
          rule post_bindp, rule post_on_lib, rule post_weaken [OF free])
         (auto simp: counted_term_def open_only intro!: post_ret)
  qed
qed

end
