(* ===== verification/Iop_Driver.thy ===== *)
theory Iop_Driver
  imports Environment
begin

section \<open>The Solaris driver: \<^verbatim>\<open>solaris_io/iop.c\<close>\<close>

text \<open>
  The kernel module that gives processes on Solaris the two port instructions, as requests
  \<^verbatim>\<open>IOPREAD\<close> and \<^verbatim>\<open>IOPWRITE\<close> on a character device.  Its state is the soft state: a table from
  instances to structures of type \<^verbatim>\<open>iop\<close>, each with a mutex.  The functions of the Solaris kernel
  are the fields of \<open>'w kernel\<close>, an argument of every definition that calls one; the memory of
  the calling process is reached through \<open>k_copyin\<close> and \<open>k_copyout\<close>.  The compilation without
  \<^verbatim>\<open>DEBUG\<close> is modelled.  The theorems: the invariant of the table, that every mutex is free between
  the calls, what the two requests do, and that the privilege checked at opening is not checked
  when a port is written.
\<close>

subsection \<open>State\<close>

datatype mutex = Free | Held

record iop =
  dip :: nat
  mutex :: mutex

text \<open>\<open>state_head\<close> is \<open>None\<close> before \<^verbatim>\<open>ddi_soft_state_init\<close> and after \<^verbatim>\<open>ddi_soft_state_fini\<close>.\<close>

record 'w driver =
  state_head :: "(nat \<Rightarrow> iop option) option"
  minors :: "nat set"
  kworld :: 'w

record 'w kernel =
  k_soft_state_init :: "'w \<Rightarrow> int \<times> 'w"
  k_mod_install :: "'w \<Rightarrow> int \<times> 'w"
  k_mod_info :: "'w \<Rightarrow> int \<times> 'w"
  k_mod_remove :: "'w \<Rightarrow> int \<times> 'w"
  k_get_instance :: "nat \<Rightarrow> nat"
  k_zalloc :: "nat \<Rightarrow> 'w \<Rightarrow> int \<times> 'w"
  k_create_minor_node :: "nat \<Rightarrow> nat \<Rightarrow> 'w \<Rightarrow> int \<times> 'w"
  k_drv_priv :: "nat \<Rightarrow> int"
  k_copyin :: "nat \<Rightarrow> nat \<Rightarrow> int \<Rightarrow> 'w \<Rightarrow> (int \<times> u8 list) \<times> 'w"
  k_copyout :: "u8 list \<Rightarrow> nat \<Rightarrow> int \<Rightarrow> 'w \<Rightarrow> int \<times> 'w"
  k_inb :: "u32 \<Rightarrow> 'w \<Rightarrow> u8 \<times> 'w"
  k_outb :: "u32 \<Rightarrow> u8 \<Rightarrow> 'w \<Rightarrow> 'w"

definition k_call :: "('w \<Rightarrow> 'a \<times> 'w) \<Rightarrow> ('a, 'w driver) prog" where
  "k_call f = (\<lambda>s. case f (kworld s) of (a, w) \<Rightarrow> Some (Ret a (s\<lparr>kworld := w\<rparr>)))"

subsection \<open>The soft state\<close>

text \<open>
  The kernel keeps the table for the driver; a table that has not been initialised has no
  entries, and none can be added.
\<close>

definition soft_state :: "'w driver \<Rightarrow> nat \<Rightarrow> iop option" where
  "soft_state s n = Option.bind (state_head s) (\<lambda>tab. tab n)"

definition get_soft_state :: "nat \<Rightarrow> (iop option, 'w driver) prog" where
  "get_soft_state n = gets (\<lambda>s. soft_state s n)"

definition put_soft_state :: "nat \<Rightarrow> iop option \<Rightarrow> (unit, 'w driver) prog" where
  "put_soft_state n v = modify (\<lambda>s. s\<lparr>state_head := map_option (\<lambda>tab. tab(n := v)) (state_head s)\<rparr>)"

definition soft_state_fini :: "(unit, 'w driver) prog" where
  "soft_state_fini = modify (\<lambda>s. s\<lparr>state_head := None\<rparr>)"

text \<open>A lock through a null pointer faults, and so does one on a mutex that the caller holds.\<close>

definition mutex_enter :: "nat \<Rightarrow> (unit, 'w driver) prog" where
  "mutex_enter n = bindp (get_soft_state n) (\<lambda>p. case p of
       None \<Rightarrow> fail Null_deref
     | Some i \<Rightarrow> if mutex i = Held then fail Deadlock else put_soft_state n (Some (i\<lparr>mutex := Held\<rparr>)))"

definition mutex_exit :: "nat \<Rightarrow> (unit, 'w driver) prog" where
  "mutex_exit n = bindp (get_soft_state n) (\<lambda>p. case p of
       None \<Rightarrow> fail Null_deref
     | Some i \<Rightarrow> put_soft_state n (Some (i\<lparr>mutex := Free\<rparr>)))"

subsection \<open>Loading and unloading\<close>

abbreviation (input) DDI_SUCCESS :: int where "DDI_SUCCESS \<equiv> 0"
abbreviation (input) DDI_FAILURE :: int where "DDI_FAILURE \<equiv> -1"

definition iop_init_module :: "'w kernel \<Rightarrow> (int, 'w driver) prog" where
  "iop_init_module K =
     bindp (k_call (k_soft_state_init K)) (\<lambda>error.
     if error \<noteq> 0 then ret error
     else
     bindp (modify (\<lambda>s. s\<lparr>state_head := Some (\<lambda>_. None)\<rparr>)) (\<lambda>_.
     bindp (k_call (k_mod_install K)) (\<lambda>error.
     bindp (if error \<noteq> 0 then soft_state_fini else ret ()) (\<lambda>_. ret error))))"

definition iop_info :: "'w kernel \<Rightarrow> (int, 'w driver) prog" where
  "iop_info K = k_call (k_mod_info K)"

definition iop_fini :: "'w kernel \<Rightarrow> (int, 'w driver) prog" where
  "iop_fini K =
     bindp (k_call (k_mod_remove K)) (\<lambda>status.
     if status \<noteq> 0 then ret status
     else bindp soft_state_fini (\<lambda>_. ret status))"

subsection \<open>Attaching and detaching\<close>

datatype attach_cmd = DDI_ATTACH | DDI_RESUME
datatype detach_cmd = DDI_DETACH | DDI_SUSPEND

definition iopattach :: "'w kernel \<Rightarrow> nat \<Rightarrow> attach_cmd \<Rightarrow> (int, 'w driver) prog" where
  "iopattach K d cmd =
     (if cmd \<noteq> DDI_ATTACH then ret DDI_FAILURE
      else
      let instance = k_get_instance K d in
      bindp (k_call (k_zalloc K instance)) (\<lambda>r.
      if r \<noteq> 0 then ret DDI_FAILURE
      else
      bindp (put_soft_state instance (Some \<lparr> dip = d, mutex = Free \<rparr>)) (\<lambda>_.
      bindp (k_call (k_create_minor_node K d instance)) (\<lambda>r.
      if r = DDI_FAILURE
      then bindp (put_soft_state instance None) (\<lambda>_. ret DDI_FAILURE)
      else bindp (modify (\<lambda>s. s\<lparr>minors := insert instance (minors s)\<rparr>)) (\<lambda>_. ret DDI_SUCCESS)))))"

definition iopdetach :: "'w kernel \<Rightarrow> nat \<Rightarrow> detach_cmd \<Rightarrow> (int, 'w driver) prog" where
  "iopdetach K d cmd =
     (if cmd \<noteq> DDI_DETACH then ret DDI_FAILURE
      else
      let instance = k_get_instance K d in
      bindp (modify (\<lambda>s. s\<lparr>minors := minors s - {instance}\<rparr>)) (\<lambda>_.
      bindp (get_soft_state instance) (\<lambda>p.
      if p = None then fail Null_deref
      else bindp (put_soft_state instance None) (\<lambda>_. ret DDI_SUCCESS))))"

text \<open>The answers of \<open>iopgetinfo\<close>: null, a device or a number.\<close>

datatype info_cmd = DDI_INFO_DEVT2DEVINFO | DDI_INFO_DEVT2INSTANCE | DDI_INFO_OTHER
datatype info_result = Nothing | Devinfo nat | Instance nat

definition iopgetinfo :: "info_cmd \<Rightarrow> nat \<Rightarrow> (int \<times> info_result, 'w driver) prog" where
  "iopgetinfo cmd minor =
     (case cmd of
        DDI_INFO_DEVT2DEVINFO \<Rightarrow>
          bindp (get_soft_state minor) (\<lambda>p. case p of
            None \<Rightarrow> ret (DDI_FAILURE, Nothing)
          | Some i \<Rightarrow>
              bindp (mutex_enter minor) (\<lambda>_.
              bindp (mutex_exit minor) (\<lambda>_. ret (DDI_SUCCESS, Devinfo (dip i)))))
      | DDI_INFO_DEVT2INSTANCE \<Rightarrow> ret (DDI_SUCCESS, Instance minor)
      | DDI_INFO_OTHER \<Rightarrow> ret (DDI_FAILURE, Nothing))"

subsection \<open>The device\<close>

abbreviation (input) ENXIO :: int where "ENXIO \<equiv> 6"
abbreviation (input) EACCES :: int where "EACCES \<equiv> 13"
abbreviation (input) EFAULT :: int where "EFAULT \<equiv> 14"
abbreviation (input) EINVAL :: int where "EINVAL \<equiv> 22"
abbreviation (input) FREAD :: int where "FREAD \<equiv> 1"
abbreviation (input) FWRITE :: int where "FWRITE \<equiv> 2"
abbreviation (input) OTYP_CHR :: int where "OTYP_CHR \<equiv> 2"

definition iopopen :: "'w kernel \<Rightarrow> nat \<Rightarrow> int \<Rightarrow> int \<Rightarrow> nat \<Rightarrow> (int, 'w driver) prog" where
  "iopopen K minor flag otyp cred =
     bindp (get_soft_state minor) (\<lambda>p.
     ret (if p = None then ENXIO
          else if otyp \<noteq> OTYP_CHR then EINVAL
          else if flag AND FWRITE \<noteq> 0 \<and> k_drv_priv K cred \<noteq> 0 then EACCES
          else 0))"

definition iopclose :: "nat \<Rightarrow> (int, 'w driver) prog" where
  "iopclose minor = bindp (get_soft_state minor) (\<lambda>_. ret 0)"

text \<open>
  The structure \<^verbatim>\<open>iopbuf\<close> in memory: four bytes of the port, the value, three of padding.
\<close>

abbreviation (input) sizeof_iopbuf :: nat where "sizeof_iopbuf \<equiv> 8"
abbreviation (input) sizeof_port :: nat where "sizeof_port \<equiv> 4"

definition buf_port :: "u8 list \<Rightarrow> u32" where
  "buf_port b = ucast (b ! 0) OR push_bit 8 (ucast (b ! 1)) OR push_bit 16 (ucast (b ! 2)) OR
     push_bit 24 (ucast (b ! 3))"

definition buf_value :: "u8 list \<Rightarrow> u8" where
  "buf_value b = b ! 4"

abbreviation (input) IOPREAD_CMD :: int where "IOPREAD_CMD \<equiv> 1"
abbreviation (input) IOPWRITE_CMD :: int where "IOPWRITE_CMD \<equiv> 2"

definition iopioctl ::
  "'w kernel \<Rightarrow> nat \<Rightarrow> int \<Rightarrow> nat \<Rightarrow> int \<Rightarrow> nat \<Rightarrow> (int, 'w driver) prog" where
  "iopioctl K minor cmd arg mode cred =
     (if cmd = IOPREAD_CMD then
        bindp (mutex_enter minor) (\<lambda>_.
        bindp (k_call (k_copyin K arg sizeof_iopbuf mode)) (\<lambda>(r, tmpbuf).
        bindp (if r \<noteq> 0 then ret EFAULT
               else
               bindp (k_call (k_inb K (buf_port tmpbuf))) (\<lambda>v.
               bindp (k_call (k_copyout K (take sizeof_port (drop 4 (tmpbuf[4 := v]))) (arg + sizeof_port) mode))
                 (\<lambda>_. ret 0))) (\<lambda>retval.
        bindp (mutex_exit minor) (\<lambda>_. ret retval))))
      else if cmd = IOPWRITE_CMD then
        bindp (mutex_enter minor) (\<lambda>_.
        bindp (k_call (k_copyin K arg sizeof_iopbuf mode)) (\<lambda>(r, tmpbuf).
        bindp (if r \<noteq> 0 then ret EFAULT
               else bindp (k_call (\<lambda>w. ((), k_outb K (buf_port tmpbuf) (buf_value tmpbuf) w)))
                 (\<lambda>_. ret 0)) (\<lambda>retval.
        bindp (mutex_exit minor) (\<lambda>_. ret retval))))
      else ret EINVAL)"

subsection \<open>What the operations do\<close>

lemma total_k_call [wp_intro]:
  "(\<And>a w. f (kworld s) = (a, w) \<Longrightarrow> Q a (s\<lparr>kworld := w\<rparr>)) \<Longrightarrow> total (k_call f) s Q"
  by (auto simp: total_def k_call_def split: prod.splits)

lemma soft_state_tab: "state_head s = Some tab \<Longrightarrow> soft_state s = tab"
  by (rule ext) (simp add: soft_state_def)

lemma soft_state_world [simp]: "soft_state (s\<lparr>kworld := w\<rparr>) = soft_state s"
  by (rule ext) (simp add: soft_state_def)

lemma soft_state_minors [simp]: "soft_state (s\<lparr>minors := m\<rparr>) = soft_state s"
  by (rule ext) (simp add: soft_state_def)

text \<open>A state that differs from another in the mutex of one entry, and perhaps in the world.\<close>

definition with_mutex :: "nat \<Rightarrow> mutex \<Rightarrow> 'w driver \<Rightarrow> 'w driver" where
  "with_mutex n m s = s\<lparr>state_head := map_option (\<lambda>tab. tab(n := map_option (\<lambda>i. i\<lparr>mutex := m\<rparr>) (tab n)))
     (state_head s)\<rparr>"

lemma with_mutex_twice [simp]: "with_mutex n m (with_mutex n m' s) = with_mutex n m s"
  by (cases "state_head s") (auto simp: with_mutex_def option.map_comp o_def)

lemma with_mutex_world [simp]:
  "(with_mutex n m s)\<lparr>kworld := w\<rparr> = with_mutex n m (s\<lparr>kworld := w\<rparr>)"
  "kworld (with_mutex n m s) = kworld s"
  by (simp_all add: with_mutex_def)

lemma soft_state_with_mutex:
  "soft_state (with_mutex n m s) n = map_option (\<lambda>i. i\<lparr>mutex := m\<rparr>) (soft_state s n)"
  by (cases "state_head s") (simp_all add: soft_state_def with_mutex_def)

lemma with_mutex_same:
  assumes "soft_state s n = Some i" and "mutex i = m"
  shows "with_mutex n m s = s"
proof -
  obtain tab where "state_head s = Some tab" "tab n = Some i"
    using assms(1) by (auto simp: soft_state_def Option.bind_eq_Some_conv)
  moreover from this have "tab(n := Some (i\<lparr>mutex := m\<rparr>)) = tab" using assms(2) by auto
  ultimately show ?thesis by (simp add: with_mutex_def)
qed

text \<open>Entering and leaving the mutex of an attached instance.\<close>

lemma mutex_enter_run:
  assumes "soft_state s n = Some i" and "mutex i = Free"
  shows "mutex_enter n s = Some (Ret () (with_mutex n Held s))"
  using assms
  by (cases "state_head s")
     (auto simp: mutex_enter_def get_soft_state_def put_soft_state_def soft_state_def with_mutex_def
        bindp_def gets_def modify_def)

lemma mutex_exit_run:
  assumes "soft_state s n = Some i"
  shows "mutex_exit n s = Some (Ret () (with_mutex n Free s))"
  using assms
  by (cases "state_head s")
     (auto simp: mutex_exit_def get_soft_state_def put_soft_state_def soft_state_def with_mutex_def
        bindp_def gets_def modify_def)

text \<open>A body between the two leaves the table as it was, if it touches only the world.\<close>

lemma locked_run:
  assumes i: "soft_state s n = Some i" "mutex i = Free"
    and body: "body (with_mutex n Held s) = Some (Ret r (with_mutex n Held (s\<lparr>kworld := w\<rparr>)))"
  shows "bindp (mutex_enter n) (\<lambda>_. bindp body (\<lambda>r. bindp (mutex_exit n) (\<lambda>_. ret r))) s =
     Some (Ret r (s\<lparr>kworld := w\<rparr>))"
proof -
  have "soft_state (with_mutex n Held (s\<lparr>kworld := w\<rparr>)) n = Some (i\<lparr>mutex := Held\<rparr>)"
    using i(1) by (simp add: soft_state_with_mutex)
  from mutex_exit_run [OF this] have
    "mutex_exit n (with_mutex n Held (s\<lparr>kworld := w\<rparr>)) = Some (Ret () (s\<lparr>kworld := w\<rparr>))"
    using with_mutex_same [of "s\<lparr>kworld := w\<rparr>" n i Free] i by simp
  with body show ?thesis
    by (simp add: bindp_def mutex_enter_run [OF i] ret_def)
qed

text \<open>The two requests, on an instance whose mutex is free.\<close>

lemma iopread_run:
  assumes i: "soft_state s n = Some i" "mutex i = Free"
    and in': "k_copyin K arg 8 mode (kworld s) = ((r, buf), w1)"
    and inb: "k_inb K (buf_port buf) w1 = (v, w2)"
    and out: "k_copyout K (take 4 (drop 4 (buf[4 := v]))) (arg + 4) mode w2 = (r', w3)"
  shows "iopioctl K n 1 arg mode cred s = Some (if r \<noteq> 0 then Ret EFAULT (s\<lparr>kworld := w1\<rparr>)
     else Ret 0 (s\<lparr>kworld := w3\<rparr>))"
proof -
  let ?body = "bindp (k_call (k_copyin K arg 8 mode)) (\<lambda>(r, tmpbuf).
      if r \<noteq> 0 then ret EFAULT
      else bindp (k_call (k_inb K (buf_port tmpbuf))) (\<lambda>v.
           bindp (k_call (k_copyout K (take 4 (drop 4 (tmpbuf[4 := v]))) (arg + 4) mode)) (\<lambda>_. ret 0)))"
  have "iopioctl K n 1 arg mode cred =
      bindp (mutex_enter n) (\<lambda>_. bindp ?body (\<lambda>r. bindp (mutex_exit n) (\<lambda>_. ret r)))"
    by (simp add: iopioctl_def bindp_assoc case_prod_unfold)
  moreover have "?body (with_mutex n Held s) = Some (if r \<noteq> 0
      then Ret EFAULT (with_mutex n Held (s\<lparr>kworld := w1\<rparr>)) else Ret 0 (with_mutex n Held (s\<lparr>kworld := w3\<rparr>)))"
    using in' inb out by (simp add: bindp_def k_call_def ret_def)
  ultimately show ?thesis
    using locked_run [OF i, of ?body] by (cases "r = 0") simp_all
qed

lemma iopwrite_run:
  assumes i: "soft_state s n = Some i" "mutex i = Free"
    and in': "k_copyin K arg 8 mode (kworld s) = ((r, buf), w1)"
  shows "iopioctl K n 2 arg mode cred s = Some (if r \<noteq> 0 then Ret EFAULT (s\<lparr>kworld := w1\<rparr>)
     else Ret 0 (s\<lparr>kworld := k_outb K (buf_port buf) (buf_value buf) w1\<rparr>))"
proof -
  let ?body = "bindp (k_call (k_copyin K arg 8 mode)) (\<lambda>(r, tmpbuf).
      if r \<noteq> 0 then ret EFAULT
      else bindp (k_call (\<lambda>w. ((), k_outb K (buf_port tmpbuf) (buf_value tmpbuf) w))) (\<lambda>_. ret 0))"
  have "iopioctl K n 2 arg mode cred =
      bindp (mutex_enter n) (\<lambda>_. bindp ?body (\<lambda>r. bindp (mutex_exit n) (\<lambda>_. ret r)))"
    by (simp add: iopioctl_def bindp_assoc case_prod_unfold)
  moreover have "?body (with_mutex n Held s) = Some (if r \<noteq> 0
      then Ret EFAULT (with_mutex n Held (s\<lparr>kworld := w1\<rparr>))
      else Ret 0 (with_mutex n Held (s\<lparr>kworld := k_outb K (buf_port buf) (buf_value buf) w1\<rparr>)))"
    using in' by (simp add: bindp_def k_call_def ret_def)
  ultimately show ?thesis
    using locked_run [OF i, of ?body] by (cases "r = 0") simp_all
qed

text \<open>
  Every process that may open the device for reading may also write the ports: opening checks the
  privilege for \<^verbatim>\<open>FWRITE\<close> only, and the request for writing checks neither it nor the mode.
\<close>

lemma iopopen_unprivileged:
  "soft_state s n \<noteq> None \<Longrightarrow> iopopen K n FREAD OTYP_CHR cred s = Some (Ret 0 s)"
  by (auto simp: iopopen_def get_soft_state_def bindp_def gets_def ret_def)

subsection \<open>The invariant\<close>

text \<open>
  Between the calls every mutex is free, every entry belongs to the device of its instance, and
  a device node exists only for an entry.
\<close>

definition iop_inv :: "'w kernel \<Rightarrow> 'w driver \<Rightarrow> bool" where
  "iop_inv K s \<longleftrightarrow>
     (\<forall>n i. soft_state s n = Some i \<longrightarrow> mutex i = Free \<and> k_get_instance K (dip i) = n) \<and>
     (\<forall>n \<in> minors s. soft_state s n \<noteq> None)"

text \<open>
  The calls of the kernel, with the conditions under which it makes them: it loads the module
  once, attaches only devices of a loaded module that are not attached yet, detaches only attached ones, makes requests only
  on device nodes, and unloads the module when no device is attached.
\<close>

datatype iop_call =
    Load | Unload | Attach nat attach_cmd | Detach nat | Getinfo info_cmd nat
  | Open_Device nat int int nat | Close_Device nat | Request nat int nat int nat

fun may_call :: "'w kernel \<Rightarrow> 'w driver \<Rightarrow> iop_call \<Rightarrow> bool" where
  "may_call K s Load = (state_head s = None \<and> minors s = {})"
| "may_call K s Unload = (minors s = {})"
| "may_call K s (Attach d cmd) = (state_head s \<noteq> None \<and> k_get_instance K d \<notin> minors s)"
| "may_call K s (Detach d) = (k_get_instance K d \<in> minors s)"
| "may_call K s (Request n cmd arg mode cred) = (n \<in> minors s)"
| "may_call K s _ = True"

fun run_iop :: "'w kernel \<Rightarrow> iop_call \<Rightarrow> (unit, 'w driver) prog" where
  "run_iop K Load = bindp (iop_init_module K) (\<lambda>_. ret ())"
| "run_iop K Unload = bindp (iop_fini K) (\<lambda>_. ret ())"
| "run_iop K (Attach d cmd) = bindp (iopattach K d cmd) (\<lambda>_. ret ())"
| "run_iop K (Detach d) = bindp (iopdetach K d DDI_DETACH) (\<lambda>_. ret ())"
| "run_iop K (Getinfo cmd n) = bindp (iopgetinfo cmd n) (\<lambda>_. ret ())"
| "run_iop K (Open_Device n flag otyp cred) = bindp (iopopen K n flag otyp cred) (\<lambda>_. ret ())"
| "run_iop K (Close_Device n) = bindp (iopclose n) (\<lambda>_. ret ())"
| "run_iop K (Request n cmd arg mode cred) = bindp (iopioctl K n cmd arg mode cred) (\<lambda>_. ret ())"

lemma iop_invD:
  assumes "iop_inv K s" and "soft_state s n = Some i"
  shows "mutex i = Free" "k_get_instance K (dip i) = n"
  using assms by (simp_all add: iop_inv_def)

lemma iop_inv_world [simp]: "iop_inv K (s\<lparr>kworld := w\<rparr>) = iop_inv K s"
  by (simp add: iop_inv_def)

lemma iop_inv_empty: "minors s = {} \<Longrightarrow> iop_inv K (s\<lparr>state_head := None\<rparr>)"
  "minors s = {} \<Longrightarrow> iop_inv K (s\<lparr>state_head := Some (\<lambda>_. None)\<rparr>)"
  by (simp_all add: iop_inv_def soft_state_def)

text \<open>Every operation returns without a fault and keeps the invariant.\<close>

lemma attach_total:
  assumes inv: "iop_inv K s" and head: "state_head s \<noteq> None" and new: "k_get_instance K d \<notin> minors s"
  shows "total (iopattach K d cmd) s (\<lambda>r s'. iop_inv K s' \<and> state_head s' \<noteq> None \<and>
     (r = DDI_SUCCESS \<longrightarrow> k_get_instance K d \<in> minors s') \<and>
     (r \<noteq> DDI_SUCCESS \<longrightarrow> r = DDI_FAILURE \<and> minors s' = minors s))"
proof -
  let ?n = "k_get_instance K d"
  obtain tab where tab: "state_head s = Some tab" using head by auto
  have none: "iop_inv K (s\<lparr>kworld := w, state_head := Some (tab(?n := None))\<rparr>)" for w
    using inv new tab by (auto simp: iop_inv_def soft_state_tab)
  have some: "iop_inv K (s\<lparr>state_head := Some (tab(?n \<mapsto> \<lparr> dip = d, mutex = Free \<rparr>)), kworld := w,
      minors := insert ?n (minors s)\<rparr>)" for w
    using inv tab by (auto simp: iop_inv_def soft_state_tab)
  show ?thesis
    unfolding iopattach_def put_soft_state_def Let_def
    by (intro wp_intro) (use inv tab none some in simp_all)
qed

lemma detach_total:
  assumes inv: "iop_inv K s" and minor: "k_get_instance K d \<in> minors s"
  shows "total (iopdetach K d DDI_DETACH) s (\<lambda>r s'. r = DDI_SUCCESS \<and> iop_inv K s' \<and>
     soft_state s' (k_get_instance K d) = None \<and> minors s' = minors s - {k_get_instance K d})"
proof -
  let ?n = "k_get_instance K d"
  from inv minor have p: "soft_state s ?n \<noteq> None" by (auto simp: iop_inv_def)
  then obtain tab where tab: "state_head s = Some tab" by (cases "state_head s") (auto simp: soft_state_def)
  let ?s1 = "s\<lparr>minors := minors s - {?n}, state_head := Some (tab(?n := None))\<rparr>"
  have "iop_inv K ?s1" using inv tab by (auto simp: iop_inv_def soft_state_tab)
  moreover have "soft_state ?s1 ?n = None" by (simp add: soft_state_tab)
  moreover have "iopdetach K d DDI_DETACH s = Some (Ret DDI_SUCCESS ?s1)"
    using p tab
    by (auto simp: iopdetach_def get_soft_state_def put_soft_state_def Let_def soft_state_tab
        bindp_def modify_def gets_def ret_def)
  ultimately show ?thesis by (simp add: total_def)
qed

lemma request_total:
  assumes inv: "iop_inv K s" and minor: "n \<in> minors s"
  shows "total (iopioctl K n cmd arg mode cred) s (\<lambda>r s'. (\<exists>w. s' = s\<lparr>kworld := w\<rparr>) \<and>
     (r = 0 \<or> r = EFAULT \<or> r = EINVAL) \<and> (r = EINVAL \<longleftrightarrow> cmd \<noteq> IOPREAD_CMD \<and> cmd \<noteq> IOPWRITE_CMD))"
proof -
  from inv minor obtain i where i: "soft_state s n = Some i" by (auto simp: iop_inv_def)
  note free = iop_invD(1) [OF inv i]
  obtain r buf w1 where c: "k_copyin K arg 8 mode (kworld s) = ((r, buf), w1)" by (metis prod.exhaust_sel)
  obtain v w2 where v: "k_inb K (buf_port buf) w1 = (v, w2)" by fastforce
  obtain r' w3 where o: "k_copyout K (take 4 (drop 4 (buf[4 := v]))) (arg + 4) mode w2 = (r', w3)"
    by fastforce
  consider "cmd = IOPREAD_CMD" | "cmd = IOPWRITE_CMD" | "cmd \<noteq> IOPREAD_CMD" "cmd \<noteq> IOPWRITE_CMD" by blast
  then show ?thesis
  proof cases
    case 1
    with iopread_run [OF i free c v o, of cred] show ?thesis by (auto simp: total_def)
  next
    case 2
    with iopwrite_run [OF i free c, of cred] show ?thesis by (auto simp: total_def)
  next
    case 3
    have "s = s\<lparr>kworld := kworld s\<rparr>" by simp
    then have "\<exists>w. s = s\<lparr>kworld := w\<rparr>" by (rule exI)
    with 3 show ?thesis by (simp add: total_def iopioctl_def ret_def)
  qed
qed

lemma run_iop_total:
  assumes inv: "iop_inv K s" and may: "may_call K s c"
  shows "total (run_iop K c) s (\<lambda>_. iop_inv K)"
proof (cases c)
  case Load
  have "total (iop_init_module K) s (\<lambda>_. iop_inv K)"
    unfolding iop_init_module_def soft_state_fini_def
    by (intro wp_intro) (use inv may Load in \<open>simp_all add: iop_inv_def soft_state_def\<close>)
  with Load show ?thesis by (auto intro!: total_bindp total_ret elim: total_weaken)
next
  case Unload
  have "total (iop_fini K) s (\<lambda>_. iop_inv K)"
    unfolding iop_fini_def soft_state_fini_def
    by (intro wp_intro) (use inv may Unload in \<open>simp_all add: iop_inv_def soft_state_def\<close>)
  with Unload show ?thesis by (auto intro!: total_bindp total_ret elim: total_weaken)
next
  case (Attach d cmd)
  with inv may attach_total [of K s d cmd] show ?thesis
    by (auto intro!: total_bindp total_ret elim!: total_weaken)
next
  case (Detach d)
  with inv may detach_total [of K s d] show ?thesis
    by (auto intro!: total_bindp total_ret elim!: total_weaken)
next
  case (Request n cmd arg mode cred)
  with inv may request_total [of K s n cmd arg mode cred] show ?thesis
    by (auto intro!: total_bindp total_ret elim!: total_weaken)
next
  case (Getinfo cmd n)
  have "total (iopgetinfo cmd n) s (\<lambda>_ s'. s' = s)"
  proof (cases "soft_state s n")
    case None
    then show ?thesis
      by (cases cmd) (simp_all add: total_def iopgetinfo_def get_soft_state_def bindp_def gets_def ret_def)
  next
    case (Some i)
    have lock: "bindp (mutex_enter n) (\<lambda>_. bindp (mutex_exit n) (\<lambda>_. ret x)) s = Some (Ret x s)"
      for x :: "int \<times> info_result"
      using locked_run [OF Some iop_invD(1) [OF inv Some], of "ret x" x "kworld s"]
      by (simp only: bindp_ret_left) (simp add: ret_def)
    with Some show ?thesis
      by (cases cmd)
         (simp_all add: total_def iopgetinfo_def get_soft_state_def run_bindp_Ret run_gets run_ret)
  qed
  with Getinfo inv show ?thesis by (auto intro!: total_bindp total_ret elim!: total_weaken)
next
  case (Open_Device n flag otyp cred)
  with inv show ?thesis
    by (auto simp: iopopen_def get_soft_state_def intro!: total_bindp total_gets total_ret)
next
  case (Close_Device n)
  with inv show ?thesis
    by (auto simp: iopclose_def get_soft_state_def intro!: total_bindp total_gets total_ret)
qed

text \<open>The states the kernel can bring the driver to.\<close>

inductive iop_reachable :: "'w kernel \<Rightarrow> 'w driver \<Rightarrow> bool" for K where
  unloaded: "state_head s = None \<Longrightarrow> minors s = {} \<Longrightarrow> iop_reachable K s"
| called: "iop_reachable K s \<Longrightarrow> may_call K s c \<Longrightarrow> run_iop K c s = Some (Ret () s') \<Longrightarrow>
     iop_reachable K s'"
| elsewhere: "iop_reachable K s \<Longrightarrow> iop_reachable K (s\<lparr>kworld := w\<rparr>)"

lemma reachable_inv: "iop_reachable K s \<Longrightarrow> iop_inv K s"
proof (induction rule: iop_reachable.induct)
  case (unloaded s)
  then show ?case by (simp add: iop_inv_def soft_state_def)
next
  case (called s c s')
  then show ?case using run_iop_total [of K s c] by (auto simp: total_def)
qed simp

end
