(* ===== verification/Solaris_Io.thy ===== *)
theory Solaris_Io
  imports Access_Io Iop_Driver
begin

section \<open>Direct I/O on Solaris: the library over the driver\<close>

text \<open>
  \<^verbatim>\<open>src/access_io.c\<close> and \<^verbatim>\<open>solaris_io/iop.c\<close> put together: the requests that \<open>raw_inb\<close> and
  \<open>raw_outb\<close> make on Solaris are answered by \<open>iopioctl\<close>, which finds the structure \<^verbatim>\<open>iopbuf\<close> in the
  memory of the process and leaves the result there.  The theorems: on an attached device the
  two functions are exactly one port instruction each, and the driver is left as it was.
\<close>

subsection \<open>The process and the machine\<close>

text \<open>The memory of the process is the one buffer; \<open>hardware\<close> is the rest of the machine.\<close>

record 'h machine =
  user_buf :: "u8 list"
  hardware :: 'h

text \<open>
  What the driver relies on: \<^verbatim>\<open>ddi_copyin\<close> and \<^verbatim>\<open>ddi_copyout\<close> copy, and the port instructions do not
  touch the memory.
\<close>

definition machine_kernel ::
  "'h machine kernel \<Rightarrow> (u32 \<Rightarrow> 'h \<Rightarrow> u8 \<times> 'h) \<Rightarrow> (u32 \<Rightarrow> u8 \<Rightarrow> 'h \<Rightarrow> 'h) \<Rightarrow> bool" where
  "machine_kernel K inb outb \<longleftrightarrow>
     (\<forall>arg n mode w. k_copyin K arg n mode w = ((0, take n (drop arg (user_buf w))), w)) \<and>
     (\<forall>bs arg mode w. k_copyout K bs arg mode w =
        (0, w\<lparr>user_buf := take arg (user_buf w) @ bs @ drop (arg + length bs) (user_buf w)\<rparr>)) \<and>
     (\<forall>p w. k_inb K p w = (fst (inb p (hardware w)), w\<lparr>hardware := snd (inb p (hardware w))\<rparr>)) \<and>
     (\<forall>p v w. k_outb K p v w = w\<lparr>hardware := outb p v (hardware w)\<rparr>)"

text \<open>The mode of the descriptor, which the library opens with \<^verbatim>\<open>O_RDWR\<close>.\<close>

definition opened_rw :: int where
  "opened_rw = FREAD OR FWRITE"

text \<open>The structure that the library passes: the port with its low byte first.\<close>

definition iopbuf :: "u32 \<Rightarrow> u8 \<Rightarrow> u8 list" where
  "iopbuf p v = [ucast p, ucast (drop_bit 8 p), ucast (drop_bit 16 p), ucast (drop_bit 24 p), v, 0, 0, 0]"

fun iop_request :: "ioctl \<Rightarrow> (int \<times> u8 list) option" where
  "iop_request (IOPREAD p) = Some (IOPREAD_CMD, iopbuf p 0)"
| "iop_request (IOPWRITE p v) = Some (IOPWRITE_CMD, iopbuf p v)"
| "iop_request _ = None"

definition driver_ioctl ::
  "'h machine kernel \<Rightarrow> nat \<Rightarrow> ioctl \<Rightarrow> 'h machine driver \<Rightarrow> ioctl_reply \<times> 'h machine driver" where
  "driver_ioctl K minor req s =
     (case iop_request req of
        None \<Rightarrow> (\<lparr> reply_ret = -1, reply_int = 0, reply_time = \<lparr> tv_sec = 0, tv_usec = 0 \<rparr> \<rparr>, s)
      | Some (cmd, buf) \<Rightarrow>
          let s1 = s\<lparr>kworld := (kworld s)\<lparr>user_buf := buf\<rparr>\<rparr> in
          (case iopioctl K minor cmd 0 opened_rw 0 s1 of
             Some (Ret r s2) \<Rightarrow> (\<lparr> reply_ret = (if r = 0 then 0 else -1),
               reply_int = uint (user_buf (kworld s2) ! 4),
               reply_time = \<lparr> tv_sec = 0, tv_usec = 0 \<rparr> \<rparr>, s2)
           | _ \<Rightarrow> (\<lparr> reply_ret = -1, reply_int = 0, reply_time = \<lparr> tv_sec = 0, tv_usec = 0 \<rparr> \<rparr>, s1)))"

lemma buf_port_iopbuf: "buf_port (iopbuf p v) = p"
proof (rule bit_word_eqI)
  fix n assume "n < LENGTH(32)"
  then have "n < 8 \<or> 8 \<le> n \<and> n < 16 \<or> 16 \<le> n \<and> n < 24 \<or> 24 \<le> n \<and> n < 32" by auto
  then show "bit (buf_port (iopbuf p v)) n = bit p n"
    by (auto simp: buf_port_def iopbuf_def bit_or_iff bit_push_bit_iff bit_ucast_iff bit_drop_bit_eq
        possible_bit_word)
qed

lemma buf_value_iopbuf: "buf_value (iopbuf p v) = v" "length (iopbuf p v) = 8"
  by (simp_all add: buf_value_def iopbuf_def)

subsection \<open>One request\<close>

text \<open>The part of a driver's state that a request leaves alone.\<close>

definition attached :: "'h machine driver \<Rightarrow> (nat \<Rightarrow> iop option) option \<times> nat set" where
  "attached s = (state_head s, minors s)"

lemma driver_read:
  assumes K: "machine_kernel K inb outb" and inv: "iop_inv K s" and minor: "minor \<in> minors s"
  shows "reply_ret (fst (driver_ioctl K minor (IOPREAD p) s)) = 0"
    and "reply_int (fst (driver_ioctl K minor (IOPREAD p) s)) = uint (fst (inb p (hardware (kworld s))))"
    and "attached (snd (driver_ioctl K minor (IOPREAD p) s)) = attached s"
    and "hardware (kworld (snd (driver_ioctl K minor (IOPREAD p) s))) = snd (inb p (hardware (kworld s)))"
proof -
  let ?s1 = "s\<lparr>kworld := (kworld s)\<lparr>user_buf := iopbuf p 0\<rparr>\<rparr>"
  let ?v = "fst (inb p (hardware (kworld s)))" and ?h = "snd (inb p (hardware (kworld s)))"
  let ?w2 = "(kworld s)\<lparr>user_buf := iopbuf p 0, hardware := ?h\<rparr>"
  let ?b = "take 4 (iopbuf p 0) @ take 4 (drop 4 ((iopbuf p 0)[4 := ?v]))"
  let ?w3 = "(kworld s)\<lparr>user_buf := ?b, hardware := ?h\<rparr>"
  from inv minor obtain i where i: "soft_state ?s1 minor = Some i" by (auto simp: iop_inv_def)
  have free: "mutex i = Free" using iop_invD(1) [OF inv] i by simp
  have 1: "k_copyin K 0 8 opened_rw (kworld ?s1) = ((0, iopbuf p 0), kworld ?s1)"
    using K by (simp add: machine_kernel_def buf_value_iopbuf)
  have 2: "k_inb K (buf_port (iopbuf p 0)) (kworld ?s1) = (?v, ?w2)"
    using K by (simp add: machine_kernel_def buf_port_iopbuf)
  have 3: "k_copyout K (take 4 (drop 4 ((iopbuf p 0)[4 := ?v]))) (0 + 4) opened_rw ?w2 = (0, ?w3)"
    using K by (simp add: machine_kernel_def buf_value_iopbuf)
  have run: "driver_ioctl K minor (IOPREAD p) s =
      (\<lparr> reply_ret = 0, reply_int = uint ?v, reply_time = \<lparr> tv_sec = 0, tv_usec = 0 \<rparr> \<rparr>, ?s1\<lparr>kworld := ?w3\<rparr>)"
    using iopread_run [OF i free 1 2 3, of 0] by (simp add: driver_ioctl_def iopbuf_def)
  show "reply_ret (fst (driver_ioctl K minor (IOPREAD p) s)) = 0"
    "reply_int (fst (driver_ioctl K minor (IOPREAD p) s)) = uint ?v"
    "attached (snd (driver_ioctl K minor (IOPREAD p) s)) = attached s"
    "hardware (kworld (snd (driver_ioctl K minor (IOPREAD p) s))) = ?h"
    by (simp_all only: run) (simp_all add: attached_def)
qed

lemma driver_write:
  assumes K: "machine_kernel K inb outb" and inv: "iop_inv K s" and minor: "minor \<in> minors s"
  shows "reply_ret (fst (driver_ioctl K minor (IOPWRITE p v) s)) = 0"
    and "attached (snd (driver_ioctl K minor (IOPWRITE p v) s)) = attached s"
    and "hardware (kworld (snd (driver_ioctl K minor (IOPWRITE p v) s))) = outb p v (hardware (kworld s))"
proof -
  let ?s1 = "s\<lparr>kworld := (kworld s)\<lparr>user_buf := iopbuf p v\<rparr>\<rparr>"
  from inv minor obtain i where i: "soft_state ?s1 minor = Some i" by (auto simp: iop_inv_def)
  have free: "mutex i = Free" using iop_invD(1) [OF inv] i by simp
  have 1: "k_copyin K 0 8 opened_rw (kworld ?s1) = ((0, iopbuf p v), kworld ?s1)"
    using K by (simp add: machine_kernel_def buf_value_iopbuf)
  have 2: "k_outb K p v (kworld ?s1) = (kworld ?s1)\<lparr>hardware := outb p v (hardware (kworld s))\<rparr>"
    using K by (simp add: machine_kernel_def)
  show "reply_ret (fst (driver_ioctl K minor (IOPWRITE p v) s)) = 0"
    "attached (snd (driver_ioctl K minor (IOPWRITE p v) s)) = attached s"
    "hardware (kworld (snd (driver_ioctl K minor (IOPWRITE p v) s))) = outb p v (hardware (kworld s))"
    using iopwrite_run [OF i free 1, of 0] 2
    by (simp_all add: driver_ioctl_def Let_def buf_port_iopbuf buf_value_iopbuf attached_def)
qed

subsection \<open>The library\<close>

text \<open>An environment in which the device is this driver.\<close>

definition runs_driver :: "'h machine driver env \<Rightarrow> 'h machine kernel \<Rightarrow> nat \<Rightarrow> bool" where
  "runs_driver E K minor \<longleftrightarrow> env_build E = Solaris \<and> (\<forall>d. env_ioctl E d = driver_ioctl K minor)"

lemma iop_ioctl_run:
  assumes "runs_driver E K minor"
  shows "\<exists>tr. iop_ioctl E req s = Some (Ret (fst (driver_ioctl K minor req (world s)))
     (s\<lparr>world := snd (driver_ioctl K minor req (world s)), trace := tr\<rparr>))"
  using assms
  by (simp add: runs_driver_def iop_ioctl_def bindp_def gets_def env_call_def split: prod.split)
     blast

lemma solaris_raw_inb:
  assumes E: "runs_driver E K minor" and K: "machine_kernel K inb outb"
    and inv: "iop_inv K (world s)" and minor: "minor \<in> minors (world s)"
  shows "total (raw_inb E addr) s (\<lambda>b s'. prt s' = prt s \<and> attached (world s') = attached (world s) \<and>
     (b, hardware (kworld (world s'))) = inb (ucast addr) (hardware (kworld (world s))))"
proof -
  have "raw_inb E addr s =
      bindp (iop_ioctl E (IOPREAD (ucast addr))) (\<lambda>r. ret (uchar (reply_int r))) s"
    using E by (simp add: raw_inb_def runs_driver_def)
  with iop_ioctl_run [OF E, of "IOPREAD (ucast addr)" s] driver_read [OF K inv minor, of "ucast addr"]
  show ?thesis by (auto simp: total_def bindp_def ret_def prod_eq_iff)
qed

lemma solaris_raw_outb:
  assumes E: "runs_driver E K minor" and K: "machine_kernel K inb outb"
    and inv: "iop_inv K (world s)" and minor: "minor \<in> minors (world s)"
  shows "total (raw_outb E val addr) s (\<lambda>_ s'. prt s' = prt s \<and>
     attached (world s') = attached (world s) \<and>
     hardware (kworld (world s')) = outb (ucast addr) val (hardware (kworld (world s))))"
proof -
  have "raw_outb E val addr s =
      bindp (iop_ioctl E (IOPWRITE (ucast addr) val)) (\<lambda>_. ret ()) s"
    using E by (simp add: raw_outb_def runs_driver_def)
  with iop_ioctl_run [OF E, of "IOPWRITE (ucast addr) val" s] driver_write [OF K inv minor, of "ucast addr" val]
  show ?thesis by (auto simp: total_def bindp_def ret_def)
qed

subsection \<open>The test program of the driver\<close>

text \<open>
  \<^verbatim>\<open>solaris_io/ioprtest.c\<close> reads one port and prints what it found; a failure of either call is
  reported, and does not stop it.
\<close>

definition ioprtest :: "'w env \<Rightarrow> (u32 \<times> u8, 'w sys) prog" where
  "ioprtest E =
     bindp (io_open E ''/devices/pseudo/iop@0:iop'' O_RDONLY) (\<lambda>d.
     bindp (env_call (env_ioctl E d (IOPREAD 0x80)) (\<lambda>r. [Ioctl d (IOPREAD 0x80) (reply_ret r)])) (\<lambda>r.
     ret (0x80, if reply_ret r \<noteq> 0 then 0 else uchar (reply_int r))))"

end
