(* ===== verification/Headers.thy ===== *)
theory Headers
  imports Environment
begin

section \<open>The kernel's headers: \<^verbatim>\<open>src/parport.h\<close>, \<^verbatim>\<open>src/ppdev.h\<close>, \<^verbatim>\<open>src/par_nt.h\<close>\<close>

text \<open>
  The library carries copies of the headers of the drivers it talks to.  Its own constants for
  modes and lines are those of its public header, and it hands them to the drivers without a
  conversion; the theorems say that the two sets of constants agree, and that the requests a
  driver is sent are told apart by their numbers.
\<close>

subsection \<open>Modes\<close>

datatype transfer_mode =
    NIBBLE | BYTE | COMPAT | BECP | ECP | ECPRLE | ECPSWE | EPP | EPPSL | EPPSWE
  | FLAG_DEVICEID | FLAG_EXT_LINK

fun M1284 :: "transfer_mode \<Rightarrow> int" where
  "M1284 NIBBLE = M1284_NIBBLE"
| "M1284 BYTE = M1284_BYTE"
| "M1284 COMPAT = M1284_COMPAT"
| "M1284 BECP = M1284_BECP"
| "M1284 ECP = M1284_ECP"
| "M1284 ECPRLE = M1284_ECPRLE"
| "M1284 ECPSWE = M1284_ECPSWE"
| "M1284 EPP = M1284_EPP"
| "M1284 EPPSL = M1284_EPPSL"
| "M1284 EPPSWE = M1284_EPPSWE"
| "M1284 FLAG_DEVICEID = M1284_FLAG_DEVICEID"
| "M1284 FLAG_EXT_LINK = M1284_FLAG_EXT_LINK"

fun IEEE1284_MODE :: "transfer_mode \<Rightarrow> int" where
  "IEEE1284_MODE NIBBLE = 0"
| "IEEE1284_MODE BYTE = push_bit 0 1"
| "IEEE1284_MODE COMPAT = push_bit 8 1"
| "IEEE1284_MODE BECP = push_bit 9 1"
| "IEEE1284_MODE ECP = push_bit 4 1"
| "IEEE1284_MODE ECPRLE = push_bit 4 1 OR push_bit 5 1"
| "IEEE1284_MODE ECPSWE = push_bit 10 1"
| "IEEE1284_MODE EPP = push_bit 6 1"
| "IEEE1284_MODE EPPSL = push_bit 11 1"
| "IEEE1284_MODE EPPSWE = push_bit 12 1"
| "IEEE1284_MODE FLAG_DEVICEID = push_bit 2 1"
| "IEEE1284_MODE FLAG_EXT_LINK = push_bit 14 1"

lemma modes_agree: "M1284 m = IEEE1284_MODE m"
  by (cases m) (simp_all add: push_bit_eq_mult)

text \<open>
  The flags that are added to a mode share no bit with one: \<^verbatim>\<open>IEEE1284_ADDR\<close> of the kernel, and
  the two flags of the library.
\<close>

definition mode_bits :: int where
  "mode_bits = 0x1f71"

lemma modes_within:
  "m \<noteq> FLAG_DEVICEID \<Longrightarrow> m \<noteq> FLAG_EXT_LINK \<Longrightarrow> M1284 m AND NOT mode_bits = 0"
  by (cases m) (simp_all add: mode_bits_def)

lemma flags_outside:
  "mode_bits AND IEEE1284_ADDR = 0" "mode_bits AND M1284 FLAG_DEVICEID = 0"
  "mode_bits AND M1284 FLAG_EXT_LINK = 0"
  by (simp_all add: mode_bits_def)

subsection \<open>Lines\<close>

datatype status_line = Error | Select | Paperout | Ack | Busy

fun PARPORT_STATUS :: "status_line \<Rightarrow> u8" where
  "PARPORT_STATUS Error = 0x8"
| "PARPORT_STATUS Select = 0x10"
| "PARPORT_STATUS Paperout = 0x20"
| "PARPORT_STATUS Ack = 0x40"
| "PARPORT_STATUS Busy = 0x80"

fun S1284 :: "status_line \<Rightarrow> u8" where
  "S1284 Error = S1284_NFAULT"
| "S1284 Select = S1284_SELECT"
| "S1284 Paperout = S1284_PERROR"
| "S1284 Ack = S1284_NACK"
| "S1284 Busy = S1284_BUSY"

datatype control_line = Strobe | Autofd | Init | Select_In

fun PARPORT_CONTROL :: "control_line \<Rightarrow> u8" where
  "PARPORT_CONTROL Strobe = 0x1"
| "PARPORT_CONTROL Autofd = 0x2"
| "PARPORT_CONTROL Init = 0x4"
| "PARPORT_CONTROL Select_In = 0x8"

fun C1284 :: "control_line \<Rightarrow> u8" where
  "C1284 Strobe = C1284_NSTROBE"
| "C1284 Autofd = C1284_NAUTOFD"
| "C1284 Init = C1284_NINIT"
| "C1284 Select_In = C1284_NSELECTIN"

lemma lines_agree: "S1284 l = PARPORT_STATUS l" "C1284 c = PARPORT_CONTROL c"
  by (cases l; simp) (cases c; simp)

lemma control_lines_all:
  "control_lines = C1284 Strobe OR C1284 Autofd OR C1284 Init OR C1284 Select_In"
  by (simp add: control_lines_def)

subsection \<open>Requests\<close>

text \<open>
  A request is encoded from its direction, the size of its argument, the type \<^verbatim>\<open>PP_IOCTL\<close> and a
  number; the macros that do so are the kernel's.  A size is that of the platform \<^verbatim>\<open>LP64\<close>.
\<close>

datatype direction = IO | IOR nat | IOW nat

abbreviation (input) sizeof_int :: nat where "sizeof_int \<equiv> 4"
abbreviation (input) sizeof_char :: nat where "sizeof_char \<equiv> 1"
abbreviation (input) sizeof_timeval :: nat where "sizeof_timeval \<equiv> 16"
abbreviation (input) sizeof_frob_struct :: nat where "sizeof_frob_struct \<equiv> 2"

text \<open>The requests of the header, those that the library never makes included.\<close>

datatype pp_command =
    Pp_Set_Mode | Pp_Read_Status | Pp_Write_Status | Pp_Read_Control | Pp_Write_Control
  | Pp_Frob_Control | Pp_Read_Data | Pp_Write_Data | Pp_Read_Econtrol
  | Pp_Write_Econtrol | Pp_Read_Fifo | Pp_Write_Fifo | Pp_Claim | Pp_Release | Pp_Yield
  | Pp_Excl | Pp_Data_Dir | Pp_Negot | Pp_Wctl_On_Irq | Pp_Clear_Irq | Pp_Set_Phase
  | Pp_Get_Time | Pp_Set_Time | Pp_Get_Modes | Pp_Get_Mode | Pp_Get_Phase | Pp_Get_Flags
  | Pp_Set_Flags

fun pp_code :: "pp_command \<Rightarrow> nat \<times> direction" where
  "pp_code Pp_Set_Mode = (0x80, IOW sizeof_int)"
| "pp_code Pp_Read_Status = (0x81, IOR sizeof_char)"
| "pp_code Pp_Write_Status = (0x82, IOW sizeof_char)"
| "pp_code Pp_Read_Control = (0x83, IOR sizeof_char)"
| "pp_code Pp_Write_Control = (0x84, IOW sizeof_char)"
| "pp_code Pp_Frob_Control = (0x8e, IOW sizeof_frob_struct)"
| "pp_code Pp_Read_Data = (0x85, IOR sizeof_char)"
| "pp_code Pp_Write_Data = (0x86, IOW sizeof_char)"
| "pp_code Pp_Read_Econtrol = (0x87, IOR sizeof_char)"
| "pp_code Pp_Write_Econtrol = (0x88, IOW sizeof_char)"
| "pp_code Pp_Read_Fifo = (0x89, IOR sizeof_char)"
| "pp_code Pp_Write_Fifo = (0x8a, IOW sizeof_char)"
| "pp_code Pp_Claim = (0x8b, IO)"
| "pp_code Pp_Release = (0x8c, IO)"
| "pp_code Pp_Yield = (0x8d, IO)"
| "pp_code Pp_Excl = (0x8f, IO)"
| "pp_code Pp_Data_Dir = (0x90, IOW sizeof_int)"
| "pp_code Pp_Negot = (0x91, IOW sizeof_int)"
| "pp_code Pp_Wctl_On_Irq = (0x92, IOW sizeof_char)"
| "pp_code Pp_Clear_Irq = (0x93, IOR sizeof_int)"
| "pp_code Pp_Set_Phase = (0x94, IOW sizeof_int)"
| "pp_code Pp_Get_Time = (0x95, IOR sizeof_timeval)"
| "pp_code Pp_Set_Time = (0x96, IOW sizeof_timeval)"
| "pp_code Pp_Get_Modes = (0x97, IOR sizeof_int)"
| "pp_code Pp_Get_Mode = (0x98, IOR sizeof_int)"
| "pp_code Pp_Get_Phase = (0x99, IOR sizeof_int)"
| "pp_code Pp_Get_Flags = (0x9a, IOR sizeof_int)"
| "pp_code Pp_Set_Flags = (0x9b, IOW sizeof_int)"

lemma pp_code_inj: "fst (pp_code c) = fst (pp_code c') \<Longrightarrow> c = c'"
  by (cases c; simp; cases c'; simp)

text \<open>The requests of the model, by the commands they are.\<close>

fun pp_request :: "ioctl \<Rightarrow> pp_command option" where
  "pp_request (PPSETMODE _) = Some Pp_Set_Mode"
| "pp_request PPRSTATUS = Some Pp_Read_Status"
| "pp_request PPRCONTROL = Some Pp_Read_Control"
| "pp_request (PPWCONTROL _) = Some Pp_Write_Control"
| "pp_request (PPFCONTROL _ _) = Some Pp_Frob_Control"
| "pp_request PPRDATA = Some Pp_Read_Data"
| "pp_request (PPWDATA _) = Some Pp_Write_Data"
| "pp_request PPCLAIM = Some Pp_Claim"
| "pp_request PPRELEASE = Some Pp_Release"
| "pp_request PPEXCL = Some Pp_Excl"
| "pp_request (PPDATADIR _) = Some Pp_Data_Dir"
| "pp_request (PPNEGOT _) = Some Pp_Negot"
| "pp_request (PPWCTLONIRQ _) = Some Pp_Wctl_On_Irq"
| "pp_request PPCLRIRQ = Some Pp_Clear_Irq"
| "pp_request PPGETTIME = Some Pp_Get_Time"
| "pp_request (PPSETTIME _) = Some Pp_Set_Time"
| "pp_request PPGETMODES = Some Pp_Get_Modes"
| "pp_request (PPSETFLAGS _) = Some Pp_Set_Flags"
| "pp_request _ = None"

definition PP_FLAGMASK :: int where
  "PP_FLAGMASK = push_bit 2 1 OR push_bit 3 1 OR push_bit 4 1"

definition NT_CTL_CODE :: "u32 \<Rightarrow> u32" where
  "NT_CTL_CODE Function = push_bit 16 0x2C OR push_bit 2 Function"

fun nt_request :: "ioctl \<Rightarrow> u32 option" where
  "nt_request (NT_IOCTL_DATA _) = Some (NT_CTL_CODE 1)"
| "nt_request (NT_IOCTL_CONTROL _) = Some (NT_CTL_CODE 2)"
| "nt_request NT_IOCTL_STATUS = Some (NT_CTL_CODE 3)"
| "nt_request _ = None"

text \<open>Two requests of the same driver with the same number differ at most in their arguments.\<close>

definition erase :: "ioctl \<Rightarrow> ioctl" where
  "erase r = (case r of
      PPSETMODE _ \<Rightarrow> PPSETMODE 0 | PPWCONTROL _ \<Rightarrow> PPWCONTROL 0 | PPFCONTROL _ _ \<Rightarrow> PPFCONTROL 0 0
    | PPWDATA _ \<Rightarrow> PPWDATA 0 | PPDATADIR _ \<Rightarrow> PPDATADIR 0 | PPNEGOT _ \<Rightarrow> PPNEGOT 0
    | PPWCTLONIRQ _ \<Rightarrow> PPWCTLONIRQ 0 | PPSETTIME _ \<Rightarrow> PPSETTIME \<lparr> tv_sec = 0, tv_usec = 0 \<rparr>
    | PPSETFLAGS _ \<Rightarrow> PPSETFLAGS 0 | NT_IOCTL_DATA _ \<Rightarrow> NT_IOCTL_DATA 0
    | NT_IOCTL_CONTROL _ \<Rightarrow> NT_IOCTL_CONTROL 0 | _ \<Rightarrow> r)"

lemma pp_requests_distinct:
  assumes "pp_request r1 = Some c1" and "pp_request r2 = Some c2"
    and "fst (pp_code c1) = fst (pp_code c2)"
  shows "erase r1 = erase r2"
proof -
  have "pp_request r2 = pp_request r1" using assms pp_code_inj by metis
  with assms(1) show ?thesis by (cases r1; simp; cases r2; simp add: erase_def)
qed

lemma nt_requests_distinct:
  assumes "nt_request r1 = Some c" and "nt_request r2 = Some c"
  shows "erase r1 = erase r2"
  using assms by (cases r1; simp; cases r2; simp add: erase_def NT_CTL_CODE_def push_bit_eq_mult)

end
