(* ===== verification/Debug.thy ===== *)
theory Debug
  imports Lib_State
begin

section \<open>Debugging output: \<^verbatim>\<open>src/debug.c\<close>\<close>

text \<open>
  The tracing functions and their static variables.  The other theories leave the calls of
  these functions out, since no function of the library depends on their state and they
  return their argument; here is what they print.  The environment of the process is a
  record of two facts, whether the variable \<^verbatim>\<open>LIBIEEE1284_DEBUG\<close> is set and whether standard
  error is open; the time stamp is an argument of the functions that print one, and \<open>timeofday\<close>
  makes it from what the C library says of the time.
\<close>

record debug_env =
  env_getenv :: bool
  env_stderr_open :: bool

record debug_state =
  debugging_enabled :: int
  soft_ctr :: u8
  last_status :: u8
  stderr :: "string list"

definition debug_start :: debug_state where
  "debug_start = \<lparr> debugging_enabled = -1, soft_ctr = 0xff, last_status = 0xff, stderr = [] \<rparr>"

definition debugprintf :: "debug_env \<Rightarrow> string \<Rightarrow> (unit, debug_state) prog" where
  "debugprintf G msg =
     bindp (gets debugging_enabled) (\<lambda>on.
     if \<not> truth on then ret ()
     else
     bindp (if on = -1
            then if \<not> env_getenv G
                 then bindp (modify (\<lambda>s. s\<lparr>debugging_enabled := 0\<rparr>)) (\<lambda>_. ret False)
                 else if \<not> env_stderr_open G
                 then bindp (modify (\<lambda>s. s\<lparr>debugging_enabled := 0\<rparr>)) (\<lambda>_. ret False)
                 else bindp (modify (\<lambda>s. s\<lparr>debugging_enabled := 1\<rparr>)) (\<lambda>_. ret True)
            else ret True) (\<lambda>go.
     if go then modify (\<lambda>s. s\<lparr>stderr := stderr s @ [msg]\<rparr>) else ret ()))"

subsection \<open>The time stamp\<close>

text \<open>
  \<^verbatim>\<open>timeofday\<close>: the broken-down time and the microseconds, or nothing when \<^verbatim>\<open>gettimeofday\<close> fails.
  On MinGW the call is left out and the variable it would fill is read as it is.
\<close>

record tm =
  tm_hour :: nat
  tm_min :: nat
  tm_sec :: nat

definition padded :: "nat \<Rightarrow> string \<Rightarrow> string" where
  "padded n str = replicate (n - length str) (CHR ''0'') @ str"

definition strftime_HMS :: "tm \<Rightarrow> string" where
  "strftime_HMS t = padded 2 (decimal (tm_hour t)) @ '':'' @ padded 2 (decimal (tm_min t)) @ '':'' @
     padded 2 (decimal (tm_sec t)) @ ''.''"

definition timeofday :: "build \<Rightarrow> (tm \<times> nat) option \<Rightarrow> (string, debug_state) prog" where
  "timeofday b now =
     (if b = MinGW then fail Uninitialised
      else ret (case now of None \<Rightarrow> [] | Some (t, usec) \<Rightarrow> strftime_HMS t @ padded 6 (decimal usec)))"

text \<open>The stamp fits its buffer of a hundred bytes, with its terminator.\<close>

lemma padded_length: "length str \<le> n \<Longrightarrow> length (padded n str) = n"
  by (simp add: padded_def)

lemma timeofday_fits:
  assumes "b \<noteq> MinGW" and "tm_hour t < 24" "tm_min t < 60" "tm_sec t < 61" "usec < 1000000"
  shows "\<exists>stamp. timeofday b (Some (t, usec)) s = Some (Ret stamp s) \<and> length stamp = 15"
  using assms decimal_length [of _ 2] decimal_length [of usec 6]
  by (simp add: timeofday_def strftime_HMS_def padded_length ret_def)

text \<open>\<^verbatim>\<open>bits & mask ? ' ' : '!'\<close>.\<close>

definition mark :: "u8 \<Rightarrow> u8 \<Rightarrow> char" where
  "mark bits msk = (if bits AND msk \<noteq> 0 then CHR '' '' else CHR ''!'')"

definition status_text :: "string \<Rightarrow> u8 \<Rightarrow> string" where
  "status_text stamp st =
     stamp @ '' STATUS: '' @ [mark st S1284_NFAULT] @ ''nFault '' @ [mark st S1284_SELECT] @ ''Select '' @
     [mark st S1284_PERROR] @ ''PError '' @ [mark st S1284_NACK] @ ''nAck '' @ [mark st S1284_BUSY] @
     ''Busy'' @ [CHR 0x0a]"

definition control_text :: "string \<Rightarrow> u8 \<Rightarrow> string" where
  "control_text stamp ct =
     stamp @ '' CONTROL: '' @ [mark ct C1284_NSTROBE] @ ''nStrobe '' @ [mark ct C1284_NAUTOFD] @ ''nAutoFd '' @
     [mark ct C1284_NINIT] @ ''nInit '' @ [mark ct C1284_NSELECTIN] @ ''nSelectIn'' @ [CHR 0x0a]"

definition debug_display_status :: "debug_env \<Rightarrow> string \<Rightarrow> u8 \<Rightarrow> (u8, debug_state) prog" where
  "debug_display_status G stamp st =
     bindp (gets id) (\<lambda>s.
     bindp (if \<not> truth (debugging_enabled s) then ret ()
            else if last_status s = st then ret ()
            else bindp (modify (\<lambda>s. s\<lparr>last_status := st\<rparr>)) (\<lambda>_. debugprintf G (status_text stamp st))) (\<lambda>_.
     ret st))"

definition debug_display_control :: "debug_env \<Rightarrow> string \<Rightarrow> u8 \<Rightarrow> (u8, debug_state) prog" where
  "debug_display_control G stamp ct =
     bindp (gets id) (\<lambda>s.
     bindp (if \<not> truth (debugging_enabled s) then ret ()
            else if soft_ctr s = ct then ret ()
            else bindp (modify (\<lambda>s. s\<lparr>soft_ctr := ct\<rparr>)) (\<lambda>_. debugprintf G (control_text stamp ct))) (\<lambda>_.
     ret ct))"

definition debug_frob_control :: "debug_env \<Rightarrow> string \<Rightarrow> u8 \<Rightarrow> u8 \<Rightarrow> (unit, debug_state) prog" where
  "debug_frob_control G stamp msk val =
     bindp (gets id) (\<lambda>s.
     if truth (debugging_enabled s)
     then bindp (debug_display_control G stamp (frob (soft_ctr s) msk val)) (\<lambda>_. ret ())
     else ret ())"

subsection \<open>Properties\<close>

lemmas debug_defs = debugprintf_def debug_display_status_def debug_display_control_def
  debug_frob_control_def

lemma returns_debug:
  "returns (debugprintf G msg)" "returns (debug_display_status G stamp st)"
  "returns (debug_display_control G stamp ct)" "returns (debug_frob_control G stamp m v)"
  unfolding debug_defs by (intro returns_intro)+

text \<open>The text shows the five status lines and the four control lines, and nothing else.\<close>

lemma mark_eq: "mark a m = mark b m \<longleftrightarrow> (a AND m \<noteq> 0 \<longleftrightarrow> b AND m \<noteq> 0)"
  by (simp add: mark_def)

lemma lines_eq:
  fixes a b :: u8
  assumes "a AND m = b AND m" and "k AND m = k"
  shows "a AND k = b AND k"
proof -
  have "x AND k = (x AND m) AND k" for x
    using assms(2) by (metis and.commute and.assoc)
  with assms(1) show ?thesis by metis
qed

lemma status_lines:
  fixes a b :: u8
  shows "a AND 0xf8 = b AND 0xf8 \<longleftrightarrow> (\<forall>n\<in>{3, 4, 5, 6, 7}. bit a n = bit b n)"
proof
  assume e: "a AND 0xf8 = b AND 0xf8"
  have "bit (0xf8 :: u8) n" if "n \<in> {3, 4, 5, 6, 7}" for n using that by auto
  with e show "\<forall>n\<in>{3, 4, 5, 6, 7}. bit a n = bit b n" by (metis bit_and_iff)
next
  assume e: "\<forall>n\<in>{3, 4, 5, 6, 7}. bit a n = bit b n"
  show "a AND 0xf8 = b AND 0xf8"
  proof (rule bit_word_eqI)
    fix n assume "n < LENGTH(8)"
    then have "n \<in> {0, 1, 2} \<union> {3, 4, 5, 6, 7}" by auto
    moreover have "\<not> bit (0xf8 :: u8) n" if "n \<in> {0, 1, 2}" using that by auto
    ultimately show "bit (a AND 0xf8) n = bit (b AND 0xf8) n"
      using e by (auto simp: bit_and_iff)
  qed
qed

lemma mark_bit: "mark a (2 ^ n) = mark b (2 ^ n) \<longleftrightarrow> bit a n = bit b n"
  using and_exp_eq_0_iff_not_bit [of a n] and_exp_eq_0_iff_not_bit [of b n] by (simp add: mark_eq)

lemma status_text_eq:
  "status_text stamp a = status_text stamp b \<longleftrightarrow> a AND 0xf8 = b AND 0xf8"
  unfolding status_lines
  using mark_bit [of a 3 b] mark_bit [of a 4 b] mark_bit [of a 5 b] mark_bit [of a 6 b] mark_bit [of a 7 b]
  by (simp add: status_text_def)

text \<open>
  The shadow of the control register follows the frobs while tracing is on or undecided, and
  a line is printed only when the value changes.
\<close>

definition tracing :: "debug_env \<Rightarrow> debug_state \<Rightarrow> bool" where
  "tracing G s =
     (if debugging_enabled s = -1 then env_getenv G \<and> env_stderr_open G else truth (debugging_enabled s))"

lemma debug_frob_post:
  "total (debug_frob_control G stamp m v) s (\<lambda>_ s'.
     soft_ctr s' = (if truth (debugging_enabled s) then frob (soft_ctr s) m v else soft_ctr s) \<and>
     stderr s' = (if tracing G s \<and> frob (soft_ctr s) m v \<noteq> soft_ctr s
                  then stderr s @ [control_text stamp (soft_ctr s')] else stderr s) \<and>
     last_status s' = last_status s)"
  by (rule returns_total [OF returns_debug(4)])
     (auto simp: debug_defs tracing_def truth_def intro!: wp_intro)

lemma debug_status_post:
  "total (debug_display_status G stamp st) s (\<lambda>r s'. r = st \<and> soft_ctr s' = soft_ctr s \<and>
     (stderr s' = stderr s \<or> stderr s' = stderr s @ [status_text stamp st] \<and> last_status s \<noteq> st))"
  by (rule returns_total [OF returns_debug(2)])
     (auto simp: debug_defs intro!: wp_intro)

text \<open>Without the variable nothing is ever printed, whatever is called and in whatever order.\<close>

inductive debug_run :: "debug_env \<Rightarrow> debug_state \<Rightarrow> debug_state \<Rightarrow> bool" for G where
  debug_run_start: "debug_run G s s"
| debug_run_print: "debug_run G s s1 \<Longrightarrow> debugprintf G msg s1 = Some (Ret () s2) \<Longrightarrow> debug_run G s s2"
| debug_run_status: "debug_run G s s1 \<Longrightarrow> debug_display_status G stamp st s1 = Some (Ret r s2) \<Longrightarrow> debug_run G s s2"
| debug_run_frob: "debug_run G s s1 \<Longrightarrow> debug_frob_control G stamp m v s1 = Some (Ret () s2) \<Longrightarrow> debug_run G s s2"

definition quiet :: "debug_state \<Rightarrow> bool" where
  "quiet s \<longleftrightarrow> stderr s = [] \<and> (debugging_enabled s = -1 \<or> debugging_enabled s = 0)"

lemma quiet_stays:
  assumes "\<not> (env_getenv G \<and> env_stderr_open G)"
  shows "stays quiet (debugprintf G msg)" "stays quiet (debug_display_status G stamp st)"
    "stays quiet (debug_frob_control G stamp m v)"
  using assms unfolding debug_defs
  by (auto simp: quiet_def truth_def intro!: staysI wp_intro)

lemma debug_run_quiet:
  assumes "debug_run G s s'" and "quiet s" and "\<not> (env_getenv G \<and> env_stderr_open G)"
  shows "quiet s'"
  using assms(1,2)
proof (induction rule: debug_run.induct)
  case (debug_run_print s s1 msg s2)
  then show ?case using postD [OF staysD [OF quiet_stays(1) [OF assms(3)]]] by blast
next
  case (debug_run_status s s1 stamp st r s2)
  then show ?case using postD [OF staysD [OF quiet_stays(2) [OF assms(3)]]] by blast
next
  case (debug_run_frob s s1 stamp m v s2)
  then show ?case using postD [OF staysD [OF quiet_stays(3) [OF assms(3)]]] by blast
qed

end
