(* ===== verification/Simulator.thy ===== *)
theory Simulator
  imports Port_Registers Open_Ports Receiver Sender Python_Types Test_Client Solaris_Io Headers Debug
begin

section \<open>A simulated peripheral\<close>

text \<open>
  A concrete environment for the examples: the world is the time in microseconds, every
  register reads as \<open>st\<close> and every call to the kernel succeeds with the result \<open>st\<close>.  Its
  clock makes progress: each look at it takes a microsecond, and a sleep takes at least the
  time asked for.
\<close>

definition time_of :: "int \<Rightarrow> timeval" where
  "time_of w = \<lparr> tv_sec = w div 1000000, tv_usec = w mod 1000000 \<rparr>"

definition reply_of :: "int \<Rightarrow> u8 \<Rightarrow> ioctl_reply" where
  "reply_of r st = \<lparr> reply_ret = r, reply_int = uint st, reply_time = time_of 0 \<rparr>"

definition still_env :: "u8 \<Rightarrow> int env" where
  "still_env st = \<lparr>
     env_build = Linux,
     env_inb = (\<lambda>_ w. (st, w)), env_outb = (\<lambda>_ _ w. w), env_ioperm = (\<lambda>_ _ _ w. (0, w)),
     env_get_iomap = (\<lambda>w. ((0, replicate 32 (-1)), w)), env_set_iomap = (\<lambda>_ w. (0, w)),
     env_get_version = (\<lambda>w. (0, w)),
     env_open = (\<lambda>_ _ w. (3, w)), env_close = (\<lambda>_ w. w),
     env_ioctl = (\<lambda>_ _ w. (reply_of 0 st, w)), env_errno = (\<lambda>_. EIO),
     env_getfl = (\<lambda>_ w. (0, w)), env_setfl = (\<lambda>_ _ w. (0, w)),
     env_lseek = (\<lambda>_ n w. (n, w)), env_read = (\<lambda>_ n w. ((0, []), w)),
     env_write = (\<lambda>_ b w. (int (length b), w)), env_select_read = (\<lambda>_ _ w. (0, w)),
     env_sleep = (\<lambda>t w. w + max 0 (usecs t)), env_gettimeofday = (\<lambda>w. (time_of w, w + 1)),
     env_ftime = (\<lambda>w. ((w div 1000000, w mod 1000000 div 1000), w + 1)),
     env_malloc = (\<lambda>_ w. (True, w)), env_fopen = (\<lambda>_ w. (False, w)),
     env_fgets = (\<lambda>_ w. (None, w)), env_fclose = (\<lambda>w. w), env_stat = (\<lambda>_ w. (None, w)),
     env_opendir = (\<lambda>_ w. (False, w)), env_readdir = (\<lambda>w. (None, w)), env_closedir = (\<lambda>w. w) \<rparr>"

lemma usecs_time_of: "usecs (time_of w) = w"
  by (simp add: usecs_def time_of_def)

lemma time_of_range: "0 \<le> tv_usec (time_of w)" "tv_usec (time_of w) < 1000000"
  by (simp_all add: time_of_def)

lemma still_env_clock: "clock_ok (still_env st) (\<lambda>w. w)"
proof -
  have "clock_ticks (still_env st) (\<lambda>w. w) (\<lambda>_. 0)"
    by (simp add: clock_ticks_def still_env_def)
  then show ?thesis
    unfolding clock_ok_def
    by (auto simp: still_env_def usecs_time_of time_of_range)
qed

text \<open>
  A peripheral that answers: as long as nAutoFd is low (the world is odd) it holds nAck low and Busy
  high, and it always has \<^verbatim>\<open>0x5a\<close> on the data lines.
\<close>

definition answering_env :: "int env" where
  "answering_env = (still_env 0)\<lparr>
     env_inb := \<lambda>p w. (if p = 0x379 then (if odd w then 0 else 0xc0) else 0x5a, w),
     env_outb := \<lambda>v p w. if p = 0x37a then 2 * (w div 2) + of_bool (bit v 1) else w,
     env_sleep := \<lambda>t w. w + 2 * max 0 (usecs t),
     env_gettimeofday := \<lambda>w. (time_of (w div 2), w + 2) \<rparr>"

lemma answering_env_clock: "clock_ok answering_env (\<lambda>w. w div 2)"
proof -
  have half: "(w + 2) div 2 = w div 2 + 1" "(2 * (w div 2) + of_bool b) div 2 = w div 2" for w :: int and b
    by (cases b; simp)+
  have "clock_ticks answering_env (\<lambda>w. w div 2) (\<lambda>_. 0)"
    by (simp add: clock_ticks_def still_env_def answering_env_def half)
  then show ?thesis
    unfolding clock_ok_def
    by (auto simp: still_env_def answering_env_def usecs_time_of time_of_range half)
qed

text \<open>A port with a given table, and the states a port can be in.\<close>

definition sample_port :: "parport_access_methods \<Rightarrow> int \<Rightarrow> int \<Rightarrow> parport_internal" where
  "sample_port methods op cl = \<lparr>
     ptype = IO_CAPABLE, device = Some ''/dev/parport0'', udevice = None, base = 0x378, base_hi = 0,
     interrupt = -1, fd = 3, opened = op, claimed = cl, ctr = 0x0c, current_mode = M1284_COMPAT,
     current_channel = 0, current_phase = PH1284_FWD_IDLE, refcount = 2, fn = methods,
     access_priv = Some \<lparr> inactivity_timer = None, nonblock = 0, current_flags = 0 \<rparr> \<rparr>"

definition sample_state :: "parport_access_methods \<Rightarrow> int \<Rightarrow> int \<Rightarrow> int sys" where
  "sample_state methods op cl = \<lparr>
     pub = \<lparr> pname = ''parport0'', base_addr = 0x378, hibase_addr = 0, filename = None \<rparr>,
     prt = sample_port methods op cl, glob = \<lparr> g_capabilities = IO_CAPABLE, disallow_ppdev = 0 \<rparr>,
     world = 0, trace = [] \<rparr>"

lemma sample_simps [simp]:
  "prt (sample_state m op cl) = sample_port m op cl" "fn (sample_port m op cl) = m"
  "opened (sample_port m op cl) = op" "claimed (sample_port m op cl) = cl"
  "current_mode (sample_port m op cl) = M1284_COMPAT" "fd (sample_port m op cl) = 3"
  "ctr (sample_port m op cl) = 0x0c" "refcount (sample_port m op cl) = 2"
  "current_phase (sample_port m op cl) = PH1284_FWD_IDLE"
  "access_priv (sample_port m op cl) =
     Some \<lparr> inactivity_timer = None, nonblock = 0, current_flags = 0 \<rparr>"
  "world (sample_state m op cl) = 0" "trace (sample_state m op cl) = []"
  by (simp_all add: sample_state_def sample_port_def)

abbreviation (input) io_sample :: "int sys" where
  "io_sample \<equiv> sample_state io_access_methods 1 1"

lemma io_sample_ok: "io_ok (still_env st) (\<lambda>w. w) io_sample"
  by (simp add: io_ok_def still_env_clock io_ready_def)

lemma io_sample_raw: "raw_io_port io_sample"
  by (simp add: raw_io_port_def)

lemma io_sample_answered: "io_ok answering_env (\<lambda>w. w div 2) io_sample"
  by (simp add: io_ok_def answering_env_clock io_ready_def)

text \<open>Devices that have seen nothing yet.\<close>

lemma sample_start:
  "observe step start (sample_state m op cl) = start" "\<not> strobe receiver_start" "\<not> shown sender_start"
  "\<not> taking sender_start" "place sender_start = 0"
  by (simp_all add: observe_def receiver_start_def sender_start_def)

text \<open>The same port, turned round for reading in ECP mode.\<close>

definition reverse_sample :: "int sys" where
  "reverse_sample = io_sample\<lparr>prt := (prt io_sample)\<lparr>current_phase := PH1284_REV_IDLE\<rparr>\<rparr>"

subsection \<open>The state of the library\<close>

text \<open>The library as the program loader leaves it, but with detection done or not, and a heap.\<close>

definition lib_with ::
  "int \<Rightarrow> int \<Rightarrow> (nat \<Rightarrow> (parport \<times> parport_internal) option) \<Rightarrow> nat \<Rightarrow> int lib" where
  "lib_with caps det h n = \<lparr>
     capabilities = caps, detected = det,
     lib_tok = \<lparr> current_line = None, current_line_len = 0, at_pos = 0 \<rparr>, lib_disallow = 0,
     lib_config_read = 0, heap = h, next_addr = n, found = [], lworld = 0, ltrace = [] \<rparr>"

definition lib_start :: "int lib" where
  "lib_start = lib_with 0 0 (\<lambda>_. None) 0"

definition sample_public :: parport where
  "sample_public = \<lparr> pname = ''parport0'', base_addr = 0x378, hibase_addr = 0, filename = None \<rparr>"

text \<open>One port, with a table, opened and claimed as given, and one reference of the client's.\<close>

definition one_port :: "int \<Rightarrow> parport_access_methods \<Rightarrow> int \<Rightarrow> int \<Rightarrow> int lib" where
  "one_port caps methods op cl =
     lib_with caps 1 (\<lambda>p. if p = 0 then Some (sample_public, sample_port methods op cl) else None) 1"

lemma one_port_simps [simp]:
  "heap (one_port caps m op cl) = (\<lambda>p. if p = 0 then Some (sample_public, sample_port m op cl) else None)"
  "capabilities (one_port caps m op cl) = caps" "next_addr (one_port caps m op cl) = 1"
  "found (one_port caps m op cl) = []" "lworld (one_port caps m op cl) = 0"
  by (simp_all add: one_port_def lib_with_def)

subsection \<open>Systems with files\<close>

text \<open>A configuration file of one line, read once.\<close>

definition conf_file_env :: "string \<Rightarrow> int env" where
  "conf_file_env line = (still_env 0)\<lparr>
     env_fopen := \<lambda>_ w. (True, w),
     env_fgets := \<lambda>_ w. if w = 0 then (Some line, 1) else (None, w) \<rparr>"

text \<open>
  A directory with the given names, in which every file has the contents \<open>c\<close>, cut off at the
  number of bytes asked for.
\<close>

definition proc_env :: "string list \<Rightarrow> u8 list \<Rightarrow> int env" where
  "proc_env names c = (still_env 0)\<lparr>
     env_opendir := \<lambda>_ w. (True, 0),
     env_readdir := \<lambda>w. (if 0 \<le> w \<and> nat w < length names then Some (names ! nat w) else None, w + 1),
     env_read := \<lambda>_ n w. ((min n (int (length c)), take (nat n) c), w) \<rparr>"

text \<open>A ppdev driver that does not let the port be claimed.\<close>

definition busy_env :: "int env" where
  "busy_env = (still_env 0)\<lparr> env_ioctl := \<lambda>_ req w. (reply_of (if req = PPCLAIM then -1 else 0) 0, w) \<rparr>"

text \<open>A ppdev driver that refuses every request, without an I/O error and with the device present.\<close>

definition refusing_env :: "int env" where
  "refusing_env = (still_env 0)\<lparr> env_ioctl := \<lambda>_ _ w. (reply_of (-1) 0, w), env_errno := \<lambda>_. 22 \<rparr>"

lemma still_env_mallocs: "mallocs (still_env st)"
  by (simp add: mallocs_def still_env_def)

lemma conf_file_env_readable:
  "length line < 1000 \<Longrightarrow> no_end_backslash line \<Longrightarrow>
     readable (conf_file_env line) (\<lambda>w. if w = 0 then 1 else 0)"
  by (simp add: readable_def conf_file_env_def still_env_def)

lemma proc_env_read_ok: "read_ok (proc_env names c)"
  by (auto simp: read_ok_def proc_env_def min_def)

subsection \<open>A search that guesses\<close>

text \<open>A system on which every probe succeeds, but which has no directory of ports.\<close>

lemma still_conf: "on_conf (read_config_file (still_env st)) (lib_with c d h n) =
    Some (Ret () ((lib_with c d h n)\<lparr>lib_config_read := 1\<rparr>))"
  by (simp add: on_conf_def read_config_file_def try_read_config_file_def conf_env_def still_env_def
      lib_with_def bindp_def gets_def modify_def ret_def truth_def)

lemma still_detect:
  "\<exists>tr. detect_environment (still_env st) 0 (lib_start\<lparr>lib_config_read := 1\<rparr>) =
    Some (Ret 0 (lib_start\<lparr>lib_config_read := 1, capabilities := 35, detected := 1, ltrace := tr\<rparr>))"
  by (simp add: detect_environment_def unless_forbidden_def check_dev_node_def check_io_def
    check_dev_port_def check_lpt_def check_proc_type_def still_env_def eval_nat_numeral Let_def
    sys_defs lib_call_def sys_stat_def sys_ioperm_def add_cap_def lib_start_def lib_with_def
    bindp_def gets_def modify_def ret_def truth_def reply_of_def)

lemma still_search:
  "\<exists>s' ps. ieee1284_find_ports (still_env st) lib_start = Some (Ret (0, Some ps) s') \<and>
     length ps = 3"
proof -
  let ?s = "lib_start\<lparr>lib_config_read := 1\<rparr>"
  obtain tr where tr: "detect_environment (still_env st) 0 ?s =
      Some (Ret 0 (?s\<lparr>capabilities := 35, detected := 1, ltrace := tr\<rparr>))"
    using still_detect by blast
  let ?t = "?s\<lparr>capabilities := 35, detected := 1, ltrace := tr\<rparr>"
  have "found ?t = []" by (simp add: lib_start_def lib_with_def)
  from guess_total [OF still_env_mallocs [of st] this]
  obtain a s' where "populate_by_guessing (still_env st) ?t = Some (Ret a s')"
    and "a = 0 \<and> map (\<lambda>p. case heap s' p of None \<Rightarrow> ([], 0) | Some (q, i) \<Rightarrow> (pname q, base_addr q)) (found s') =
      [(''0x278'', 0x278), (''0x378'', 0x378), (''0x3bc'', 0x3bc)]"
    by (rule totalE)
  then have s': "populate_by_guessing (still_env st) ?t = Some (Ret 0 s')"
    and names: "map (\<lambda>p. case heap s' p of None \<Rightarrow> ([], 0) | Some (q, i) \<Rightarrow> (pname q, base_addr q)) (found s') =
      [(''0x278'', 0x278), (''0x378'', 0x378), (''0x3bc'', 0x3bc)]"
    by blast+
  from arg_cong [OF names, of length] have three: "length (found s') = 3" by simp
  have same: "?s\<lparr>found := []\<rparr> = ?s" by (simp add: lib_start_def lib_with_def)
  have malloc: "sys_malloc (still_env st) n ?s = Some (Ret True ?s)" for n
    by (simp add: sys_malloc_def lib_call_def still_env_def lib_start_def lib_with_def)
  have "ieee1284_find_ports (still_env st) lib_start = Some (Ret (0, Some (found s')) s')"
    using three s'
    by (auto simp: ieee1284_find_ports_def bindp_def still_conf [of _ 0 0 "\<lambda>_. None" 0, folded lib_start_def]
        modify_def same malloc tr populate_def
        gets_def ret_def truth_def)
  with three show ?thesis by blast
qed

subsection \<open>An open port\<close>

text \<open>On a system where only direct I/O has been found, a client searches and opens a port.\<close>

definition io_lib :: "int lib" where
  "io_lib = lib_with IO_CAPABLE 1 (\<lambda>_. None) 0"

lemma keeps_capabilities_guessing: "keeps capabilities (populate_by_guessing E)"
proof -
  have "keeps capabilities (sort_ports :: (unit, 'w lib) prog)"
    by (auto simp: keeps_def post_def sort_ports_def)
  then have "keeps capabilities (install_port name dev udev bas hibase irq :: (int, 'w lib) prog)"
    for name dev udev bas hibase irq
    unfolding install_port_def by (intro keeps_bindp keeps_ret) (auto simp: keeps_def post_modify)
  then show ?thesis
    unfolding populate_by_guessing_def add_guess_def add_port_def strdup_def sys_malloc_def
    by (intro keeps_intro) (auto intro!: keeps_intro keeps_lib_call split: option.split)
qed

lemma still_search_io:
  "\<exists>s' ps. ieee1284_find_ports (still_env st) io_lib = Some (Ret (0, Some ps) s') \<and> ps \<noteq> [] \<and>
     capabilities s' = IO_CAPABLE"
proof -
  let ?s = "io_lib\<lparr>lib_config_read := 1\<rparr>"
  have "found ?s = []" by (simp add: io_lib_def lib_with_def)
  from guess_total [OF still_env_mallocs [of st] this]
  obtain s' where s': "populate_by_guessing (still_env st) ?s = Some (Ret 0 s')" and "found s' \<noteq> []"
    by (auto elim!: totalE)
  moreover have "ieee1284_find_ports (still_env st) io_lib = Some (Ret (0, Some (found s')) s')"
  proof -
    have same: "?s\<lparr>found := []\<rparr> = ?s" by (simp add: io_lib_def lib_with_def)
    have malloc: "sys_malloc (still_env st) n ?s = Some (Ret True ?s)" for n
      by (simp add: sys_malloc_def lib_call_def still_env_def io_lib_def lib_with_def)
    have detect: "detect_environment (still_env st) 0 ?s = Some (Ret 0 ?s)"
      by (simp add: detect_environment_def io_lib_def lib_with_def bindp_def gets_def ret_def truth_def)
    have "populate (still_env st) ?s = populate_by_guessing (still_env st) ?s"
      by (simp add: populate_def io_lib_def lib_with_def bindp_def gets_def truth_def)
    with s' \<open>found s' \<noteq> []\<close> show ?thesis
      by (simp add: ieee1284_find_ports_def bindp_def modify_def same malloc detect gets_def ret_def
          still_conf [of _ IO_CAPABLE 1 "\<lambda>_. None" 0, folded io_lib_def])
  qed
  moreover have "capabilities s' = IO_CAPABLE"
    using keeps_eq [OF keeps_capabilities_guessing s'] by (simp add: io_lib_def lib_with_def)
  ultimately show ?thesis by blast
qed

lemma still_open:
  assumes "fn (prt t) = null_methods" "opened (prt t) = 0" "g_capabilities (glob t) = IO_CAPABLE"
  shows "\<exists>t'. run_api (still_env st) (Open 0 None) t = Some (Ret (Some E1284_OK) t') \<and>
     opened (prt t') = 1 \<and> fn (prt t') = io_access_methods"
  using assms
  by (simp add: fst_result_def ieee1284_open_def init_port_def try_method_def via_run io_access_methods_def
      io_init_def io_permission_def ioperm_def env_call_def still_env_def bindp_def gets_def ret_def upd_def
      modify_def truth_def)

lemma still_open_run:
  "\<exists>s p H. client_run (still_env st) (io_lib, {#}) (s, H) \<and> is_open s p \<and> p \<in># H \<and>
     (\<forall>q i. heap s p = Some (q, i) \<longrightarrow> fn i \<noteq> lpt_access_methods)"
proof -
  obtain s1 ps where s1: "ieee1284_find_ports (still_env st) io_lib = Some (Ret (0, Some ps) s1)"
    and ps: "ps \<noteq> []" and caps: "capabilities s1 = IO_CAPABLE"
    using still_search_io by blast
  define p where "p = hd ps"
  have free: "\<forall>p\<ge>next_addr io_lib. heap io_lib p = None" by (simp add: io_lib_def lib_with_def)
  have "search_inv (heap io_lib) (next_addr io_lib) s1 \<and> found s1 = ps"
    using postD [OF find_ports_post [OF free] s1] ps by (auto split: if_splits)
  then have "listed (heap s1 p)"
    using ps by (auto simp: search_inv_def found_inv_def p_def)
  then obtain q i where h: "heap s1 p = Some (q, i)" and i: "fresh_port i"
    by (auto simp: listed_def split: option.splits)
  obtain t where t: "run_api (still_env st) (Open 0 None) (port_state s1 q i) = Some (Ret (Some E1284_OK) t)"
    "opened (prt t) = 1" "fn (prt t) = io_access_methods"
    using still_open [of "port_state s1 q i"] i caps by (auto simp: fresh_port_def)
  let ?s = "put_port s1 p t"
  have call: "on_port p (run_api (still_env st) (Open 0 None)) s1 = Some (Ret (Some E1284_OK) ?s)"
    using t(1) h by (simp add: on_port_def)
  have p: "p \<in># mset ps" using ps by (simp add: p_def)
  then have step: "client_step (still_env st) (s1, mset ps) (?s, mset ps)"
    by (intro step_call [OF _ call]) (simp add: usable_def)
  have "client_step (still_env st) (io_lib, {#}) (s1, {#} + list_refs (Some ps))"
    by (rule step_find [OF s1])
  with step have "client_run (still_env st) (io_lib, {#}) (?s, mset ps)"
    by (simp add: list_refs_def) (blast intro: run_start run_step)
  moreover have "is_open ?s p" "\<forall>q i. heap ?s p = Some (q, i) \<longrightarrow> fn i \<noteq> lpt_access_methods"
    using t by (simp_all add: is_open_def truth_def io_access_methods_def lpt_access_methods_def)
  ultimately show ?thesis using p by blast
qed

subsection \<open>A port that cannot be claimed\<close>

lemma case_run:
  "(case x of None \<Rightarrow> False | Some y \<Rightarrow> (case y of Ret a s \<Rightarrow> P a s | Fault f \<Rightarrow> False)) \<longleftrightarrow>
     (\<exists>a s. x = Some (Ret a s) \<and> P a s)"
  by (auto split: option.splits outcome.splits)

lemma busy_open_claim:
  "case on_port 0 (ieee1284_open busy_env 0 None) (one_port PPDEV_CAPABLE null_methods 0 0) of
     Some (Ret (r, c) s1) \<Rightarrow> r = E1284_OK \<and>
       (case on_port 0 (ieee1284_claim busy_env) s1 of Some (Ret r2 s2) \<Rightarrow> r2 = E1284_SYS | _ \<Rightarrow> False)
   | _ \<Rightarrow> False"
  by code_simp

subsection \<open>A Solaris machine\<close>

text \<open>
  The hardware is one byte per port; the kernel grants everything, and the module is loaded with
  one device attached.
\<close>

definition plain_kernel :: "(u32 \<Rightarrow> u8) machine kernel" where
  "plain_kernel = \<lparr>
     k_soft_state_init = (\<lambda>w. (0, w)), k_mod_install = (\<lambda>w. (0, w)), k_mod_info = (\<lambda>w. (1, w)),
     k_mod_remove = (\<lambda>w. (0, w)), k_get_instance = (\<lambda>d. d), k_zalloc = (\<lambda>_ w. (0, w)),
     k_create_minor_node = (\<lambda>_ _ w. (0, w)), k_drv_priv = (\<lambda>_. 1),
     k_copyin = (\<lambda>arg n _ w. ((0, take n (drop arg (user_buf w))), w)),
     k_copyout = (\<lambda>bs arg _ w.
       (0, w\<lparr>user_buf := take arg (user_buf w) @ bs @ drop (arg + length bs) (user_buf w)\<rparr>)),
     k_inb = (\<lambda>p w. (hardware w p, w)),
     k_outb = (\<lambda>p v w. w\<lparr>hardware := (hardware w)(p := v)\<rparr>) \<rparr>"

definition plain_inb :: "u32 \<Rightarrow> (u32 \<Rightarrow> u8) \<Rightarrow> u8 \<times> (u32 \<Rightarrow> u8)" where
  "plain_inb p h = (h p, h)"

definition plain_outb :: "u32 \<Rightarrow> u8 \<Rightarrow> (u32 \<Rightarrow> u8) \<Rightarrow> (u32 \<Rightarrow> u8)" where
  "plain_outb p v h = h(p := v)"

definition unloaded_driver :: "(u32 \<Rightarrow> u8) machine driver" where
  "unloaded_driver = \<lparr> state_head = None, minors = {},
     kworld = \<lparr> user_buf = [], hardware = (\<lambda>_. 0) \<rparr> \<rparr>"

definition loaded_driver :: "(u32 \<Rightarrow> u8) machine driver" where
  "loaded_driver = unloaded_driver\<lparr>state_head := Some (\<lambda>_. None)\<rparr>"

definition attached_driver :: "(u32 \<Rightarrow> u8) machine driver" where
  "attached_driver = unloaded_driver\<lparr>
     state_head := Some ((\<lambda>_. None)(0 \<mapsto> \<lparr> dip = 0, mutex = Free \<rparr>)), minors := {0}\<rparr>"

lemma plain_kernel_ok: "machine_kernel plain_kernel plain_inb plain_outb"
  by (simp add: machine_kernel_def plain_kernel_def plain_inb_def plain_outb_def)

lemma attached_driver_reachable: "iop_reachable plain_kernel attached_driver"
proof -
  have start: "iop_reachable plain_kernel unloaded_driver"
    by (rule unloaded) (simp_all add: unloaded_driver_def)
  have load: "run_iop plain_kernel Load unloaded_driver = Some (Ret () loaded_driver)"
    by (simp add: iop_init_module_def plain_kernel_def k_call_def loaded_driver_def unloaded_driver_def
        bindp_def modify_def ret_def)
  have attach: "run_iop plain_kernel (Attach 0 DDI_ATTACH) loaded_driver = Some (Ret () attached_driver)"
    by (simp add: iopattach_def put_soft_state_def plain_kernel_def k_call_def loaded_driver_def
        attached_driver_def unloaded_driver_def bindp_def modify_def ret_def)
  show ?thesis
    by (rule called [OF called [OF start _ load] _ attach])
       (simp_all add: loaded_driver_def unloaded_driver_def)
qed

definition solaris_env :: "(u32 \<Rightarrow> u8) machine driver env" where
  "solaris_env = \<lparr>
     env_build = Solaris,
     env_inb = (\<lambda>_ w. (0, w)), env_outb = (\<lambda>_ _ w. w), env_ioperm = (\<lambda>_ _ _ w. (-1, w)),
     env_get_iomap = (\<lambda>w. ((-1, []), w)), env_set_iomap = (\<lambda>_ w. (-1, w)),
     env_get_version = (\<lambda>w. (0, w)),
     env_open = (\<lambda>_ _ w. (3, w)), env_close = (\<lambda>_ w. w),
     env_ioctl = (\<lambda>_. driver_ioctl plain_kernel 0), env_errno = (\<lambda>_. EIO),
     env_getfl = (\<lambda>_ w. (0, w)), env_setfl = (\<lambda>_ _ w. (0, w)),
     env_lseek = (\<lambda>_ n w. (n, w)), env_read = (\<lambda>_ n w. ((0, []), w)),
     env_write = (\<lambda>_ b w. (int (length b), w)), env_select_read = (\<lambda>_ _ w. (0, w)),
     env_sleep = (\<lambda>t w. w), env_gettimeofday = (\<lambda>w. (time_of 0, w)),
     env_ftime = (\<lambda>w. ((0, 0), w)),
     env_malloc = (\<lambda>_ w. (True, w)), env_fopen = (\<lambda>_ w. (False, w)),
     env_fgets = (\<lambda>_ w. (None, w)), env_fclose = (\<lambda>w. w), env_stat = (\<lambda>_ w. (None, w)),
     env_opendir = (\<lambda>_ w. (False, w)), env_readdir = (\<lambda>w. (None, w)), env_closedir = (\<lambda>w. w) \<rparr>"

lemma solaris_env_driver: "runs_driver solaris_env plain_kernel 0"
  by (simp add: runs_driver_def solaris_env_def)

text \<open>The library on it, before detection.\<close>

definition solaris_lib :: "(u32 \<Rightarrow> u8) machine driver lib" where
  "solaris_lib = \<lparr>
     capabilities = 0, detected = 0,
     lib_tok = \<lparr> current_line = None, current_line_len = 0, at_pos = 0 \<rparr>, lib_disallow = 0,
     lib_config_read = 0, heap = (\<lambda>_. None), next_addr = 0, found = [], lworld = attached_driver,
     ltrace = [] \<rparr>"

text \<open>The direct I/O port on it.\<close>

definition solaris_state :: "(u32 \<Rightarrow> u8) machine driver sys" where
  "solaris_state = \<lparr> pub = sample_public, prt = sample_port io_access_methods 1 1,
     glob = \<lparr> g_capabilities = IO_CAPABLE, disallow_ppdev = 0 \<rparr>, world = attached_driver, trace = [] \<rparr>"

subsection \<open>A Python program\<close>

text \<open>An interpreter that takes arguments as they are, if there are at most as many as the format has.\<close>

definition plain_python :: python where
  "plain_python = \<lparr> py_parse = (\<lambda>fmt args.
     if length args \<le> length (filter (\<lambda>c. c \<noteq> CHR ''|'' \<and> c \<noteq> CHR ''#'') fmt) then Some args else None) \<rparr>"

lemma still_python_run:
  "\<exists>s' objs. py_run Y (still_env st) (lib_start, {#}) (s', objs) \<and> objs \<noteq> {#}"
proof -
  obtain s1 ps where found: "ieee1284_find_ports (still_env st) lib_start = Some (Ret (0, Some ps) s1)"
    and "length ps = 3"
    using still_search by blast
  then have "ps \<noteq> []" by auto
  have "counted lib_start {#}" by (rule counted_start) (simp add: lib_start_def lib_with_def)
  from find_ports_value [OF still_env_mallocs this found] obtain d s' where
    search: "pyieee1284_find_ports (still_env st) lib_start = Some (Ret (Value d) s')" by blast
  with find_ports_nonempty [OF found \<open>ps \<noteq> []\<close>] have "d \<noteq> []" by (auto simp: post_def)
  with py_more [OF py_start py_search [OF search, of Y "{#}"]] show ?thesis by fastforce
qed

end
