(* ===== verification/Spec2Isabelle.thy ===== *)
theory Spec2Isabelle
  imports Simulator
begin

text \<open>
  libieee1284, a C library for IEEE 1284 peripherals on parallel ports: a model of its own logic
  and the theorems that make it correct.

  The program.  A client asks for the list of ports (\<^verbatim>\<open>src/ports.c\<close>), which reads the configuration
  (\<^verbatim>\<open>src/conf.c\<close>) and detects what the system offers (\<^verbatim>\<open>src/detect.c\<close>); opens a port
  (\<^verbatim>\<open>src/state.c\<close>), which picks a table of access methods: direct I/O
  (\<^verbatim>\<open>src/access_io.c\<close>), the kernel's ppdev driver (\<^verbatim>\<open>src/access_ppdev.c\<close>) or the Windows NT driver
  (\<^verbatim>\<open>src/access_lpt.c\<close>); claims it; and calls the functions of \<^verbatim>\<open>src/interface.c\<close>, which check
  the claim and jump through the table.  What a method does not do itself is done in software
  by \<^verbatim>\<open>src/default.c\<close>, on the pins, which it reaches through the same table.
  \<^verbatim>\<open>src/deviceid.c\<close> is a client of all this inside the library; \<^verbatim>\<open>src/debug.c\<close> prints a trace.
  Two clients come with the library, the module for Python (\<^verbatim>\<open>src/ieee1284module.c\<close>) and a
  test program (\<^verbatim>\<open>tests/test.c\<close>), and, for Solaris, a kernel driver that gives processes the
  instructions for ports (\<^verbatim>\<open>solaris_io/iop.c\<close>).

  The theories.
    \<^item> \<open>Prelude\<close>: programs that return, fault or never return, and the predicates on their runs
      (\<open>post\<close>, \<open>total\<close>, \<open>sound\<close>, \<open>keeps\<close>, \<open>stays\<close>, \<open>solid\<close>) with one rule per constructor.
    \<^item> \<open>Ieee1284\<close>, \<open>Environment\<close>: the constants and structures of \<^verbatim>\<open>include/ieee1284.h.in\<close>,
      \<^verbatim>\<open>src/detect.h\<close>, \<^verbatim>\<open>src/parport.h\<close>; the state of one port; the outside world as a record of
      functions, an argument of every definition that touches it.  \<open>Headers\<close>: the constants of
      the drivers, and that they agree with those of the library.
    \<^item> \<open>Timing\<close>: \<^verbatim>\<open>src/delay.c\<close> and the polling loop; that it ends if the clock goes on.
    \<^item> \<open>Io_Permission\<close>: the bitmap of I/O ports of the BSDs.  \<open>Access_Io\<close>, \<open>Access_Ppdev\<close>,
      \<open>Access_Lpt\<close>: the three methods, one definition per function.
    \<^item> \<open>Pins\<close>: the operations on the pins as records, and the locales of the laws that the software
      transfers rely on; \<open>Negotiation\<close>, \<open>Transfers\<close>: \<^verbatim>\<open>src/default.c\<close> over these records, with lemmas
      proved in the locales; \<open>Dispatch\<close>: the table, and the interpretation of the locales on it;
      \<open>Wire\<close>: what the transfers put on the data lines, as a locale with an interpretation for
      direct I/O and one for the Windows driver.
    \<^item> \<open>Interface\<close>: \<^verbatim>\<open>src/interface.c\<close> and \<^verbatim>\<open>src/state.c\<close>; the invariant of the table of a port.
      \<open>Port_Soundness\<close>: that no call through the table of an opened port faults, by locales of the laws
      that the pins, the data direction and the modes keep the port well typed, with interpretations
      for direct I/O and for ppdev.  \<open>Port_Registers\<close>: that direct I/O touches its own registers only.
    \<^item> \<open>Observer\<close>: devices at the other end of the cable, as folds over the trace of the accesses to
      the registers, and what each operation of direct I/O shows them, in a locale over the step of the
      device; its interpretations are \<open>Receiver\<close>, a device that takes a byte at the falling edge of its strobe
      (compatibility mode, EPP and ECP writes), and \<open>Sender\<close>, one that is read by the handshake on
      nAutoFd (nibble, byte, EPP and ECP reads) and says whether it has kept to that.
    \<^item> \<open>Conf\<close>: \<^verbatim>\<open>src/conf.c\<close>, the tokenizer with its static variables.
    \<^item> \<open>Lib_State\<close>: the globals and the heap of ports; numbers in strings.  \<open>Detect\<close>:
      \<^verbatim>\<open>src/detect.c\<close>.  \<open>Ports\<close>: \<^verbatim>\<open>src/ports.c\<close>, and \<^verbatim>\<open>ieee1284_ref\<close>, \<^verbatim>\<open>ieee1284_unref\<close>,
      \<^verbatim>\<open>ieee1284_close\<close> of \<^verbatim>\<open>src/interface.c\<close>, which may free a port.  \<open>Deviceid\<close>:
      \<^verbatim>\<open>src/deviceid.c\<close>.  \<open>Lifecycle\<close>: the reference counts in all runs of a client.
      \<open>Open_Ports\<close>: the types of the open ports in these runs, and the calls of the library on one.
    \<^item> \<open>Python_Module\<close>: the methods of the Python object and the search;
      \<open>Python_Types\<close>: the tables of the type and of the module, calls by name, and whole programs.
    \<^item> \<open>Test_Client\<close>: the test program with what it prints.
    \<^item> \<open>Iop_Driver\<close>: the driver for Solaris, over a record of the functions of its kernel;
      \<open>Solaris_Io\<close>: the direct I/O method run against it.
    \<^item> \<open>Debug\<close>: \<^verbatim>\<open>src/debug.c\<close>.  \<open>Simulator\<close>: concrete environments and states for the examples.

  State and effects.  A function of the code is a function from a state to a return value and a
  new state, a fault (a call through a null pointer, an access outside an array, to memory that
  has not been written or to a freed port), or \<open>None\<close>, a run that never returns.  A function on
  one port runs on the record \<open>sys\<close>: the two structures of the port, the globals it reads, the
  world, and a trace of its calls.  The functions that find and free ports run on the record
  \<open>lib\<close>, with a heap of ports; \<open>on_port\<close> runs the former inside the latter.

  Bounds and loops.  No fuel is used: bounded loops are recursive functions, and the loops that
  may not end (the polling loops, the wait for event 43, the retries of an ECP write, the
  scanners of files and directories) are \<open>loop\<close>, the least fixed point of its body, so that not
  returning is the value \<open>None\<close>; that they return is proved where it is true, from a clock that
  goes on or a file that ends, and C36 is a case where it is not.  Registers are \<open>8 word\<close>, port addresses
  \<open>16 word\<close>, addresses of ports \<open>64 word\<close>; the C \<open>int\<close> results are integers, converted where the code narrows them.

  The properties.  C1, C7, C15, C25 and C30 are about the life of a port: no port a client may use
  is ever freed, and none is left behind.  C2, C6, C14 and C26 are about the interface: its tables,
  its guards, and that its calls do not fault.  C3 to C5, C17 to C21 and C23 are about
  negotiation and the transfer modes on a direct I/O port: that they return, which bytes the
  peripheral receives and which of its bytes they store, how many they count, in which mode they leave the port.  C9, C10, C12,
  C16 and C24 are about the registers, the instructions that reach them and the permission to use
  them, C11 about the inverted register of the control lines.  C8, C27 and C28 are about finding
  ports, C13, C22 and C32 about the configuration, C29 about device IDs, C31 about ppdev.  C33 to
  C40 show where the code does not do what it means to.

  The builds.  The code is compiled differently for Linux (with and without \<^verbatim>\<open>sys/io.h\<close>), the three
  BSDs, Solaris, Cygwin and MinGW, the cases of \<^verbatim>\<open>configure.in\<close>.  The build is the field
  \<open>env_build\<close> of the environment, and each definition takes the branches of that build;
  a theorem that does not mention it holds for all of them.

  Not modelled: the declarations of \<^verbatim>\<open>src/parport.h\<close> under \<^verbatim>\<open>__KERNEL__\<close>, which are for the
  kernel and which no file here can reach; the calls of the tracing functions outside \<open>Debug\<close>, which
  change nothing the library reads, and the messages of the Solaris driver under \<^verbatim>\<open>DEBUG\<close>;
  memory other than ports and the buffers that the theories name (a failing \<^verbatim>\<open>malloc\<close> is, a leak
  of a string is not); which of two ports with the same name \<^verbatim>\<open>qsort\<close> puts first; the interpreter of
  Python, with its parsing of arguments, and the kernel of Solaris, which are parameters.
\<close>

section \<open>Properties\<close>

text \<open>C1. In every run of a client that starts with an empty heap and uses only ports it holds a
  reference to or has open, the ports in the heap are exactly those it may use, and the
  reference count of each is the number of references to it: no port in use is ever freed,
  and none is left behind.\<close>

theorem references_keep_ports:
  assumes "client_run E (s, {#}) (s', H)" and "heap s = (\<lambda>_. None)"
  shows "(heap s' p \<noteq> None \<longleftrightarrow> usable s' H p) \<and>
     (\<forall>q i. heap s' p = Some (q, i) \<longrightarrow> refcount i = int (expected s' H p))"
proof -
  have c: "counted s' H" using client_run_counted [OF assms(1)] counted_start [OF assms(2)] by simp
  show ?thesis
    using client_run_live [OF assms] countedD(2) [OF c]
    by (auto simp: expected_def is_open_def)
qed

theorem references_keep_ports_witness:
  "\<exists>s' ps. client_run (still_env 0) (lib_start, {#}) (s', mset ps) \<and> length ps = 3 \<and>
     heap s' (hd ps) \<noteq> None"
proof -
  obtain s' ps where s': "ieee1284_find_ports (still_env 0) lib_start = Some (Ret (0, Some ps) s')"
    and ps: "length ps = 3"
    using still_search by blast
  from run_step [OF run_start step_find [OF s', of "{#}"]]
  have run: "client_run (still_env 0) (lib_start, {#}) (s', mset ps)"
    by (simp add: list_refs_def)
  moreover have "hd ps \<in># mset ps" using ps by (cases ps) auto
  then have "heap s' (hd ps) \<noteq> None"
    using references_keep_ports [OF run, of "hd ps"]
    by (simp add: lib_start_def lib_with_def usable_def)
  ultimately show ?thesis using ps by blast
qed

text \<open>C2. Type soundness: in every state that a client reaches from an empty heap by searching,
  opening, closing, counting references, asking for device IDs and calling, on ports it may use, in
  any order, whatever the peripheral, the kernel and the clock do, a port that is open and not one
  of the Windows NT driver has a table that its private data match, and none of its public calls faults:
  each call that goes through the port returns with the port still open and matched, or it does not
  return; \<^verbatim>\<open>ieee1284_ref\<close>, \<^verbatim>\<open>ieee1284_unref\<close> and \<^verbatim>\<open>ieee1284_close\<close> return, the second with the port freed
  if the client gave up its last reference, the third with the port closed; and so does
  \<^verbatim>\<open>ieee1284_get_deviceid\<close>, if the buffer has the length it is said to have, and at least three bytes.
  (Without that it stores outside the buffer.)\<close>

theorem opened_ports_never_fault:
  assumes "client_run E (s0, {#}) (s, H)" and "heap s0 = (\<lambda>_. None)" and "is_open s p"
    and "\<forall>q i. heap s p = Some (q, i) \<longrightarrow> fn i \<noteq> lpt_access_methods"
  shows "in_service s p \<and>
     sound (on_port p (run_api E c)) s (\<lambda>_ s'. in_service s' p) \<and>
     total (ieee1284_ref p) s (\<lambda>_ s'. in_service s' p) \<and>
     total (ieee1284_unref E p) s (\<lambda>_ s'. if p \<in># H then in_service s' p else heap s' p = None) \<and>
     total (ieee1284_close E p) s (\<lambda>r s'. r = E1284_OK \<and> \<not> is_open s' p) \<and>
     (read_ok E \<and> daisy < 2 ^ 31 \<and> 3 \<le> len \<and> len \<le> length buf \<and> len < 2 ^ 31 \<longrightarrow>
      total (ieee1284_get_deviceid E p daisy flags buf len) s (\<lambda>(_, b) s'.
        length b = length buf \<and> in_service s' p))"
proof -
  have c: "counted s H" and typed: "typed_heap s" using client_run_typed [OF assms(1,2)] by simp_all
  have s: "in_service s p" using assms(3,4) by (intro open_in_service [OF typed]) auto
  have "usable s H p" using assms(3) by (simp add: usable_def)
  from close_total [OF c this, of E]
  have "total (ieee1284_close E p) s (\<lambda>r s'. r = E1284_OK \<and> \<not> is_open s' p)"
    by (rule total_weaken) (simp add: assms(3))
  then show ?thesis
    using s in_service_call [OF s] in_service_refs(1) [OF s] in_service_refs(2) [OF s c]
      in_service_deviceid [OF _ s, of E]
    by blast
qed

theorem opened_ports_never_fault_witness:
  "\<exists>s p. is_open s p \<and>
     sound (on_port p (run_api (still_env 0) (Ecp_read_data 0 4))) s (\<lambda>_ s'. in_service s' p) \<and>
     total (ieee1284_unref (still_env 0) p) s (\<lambda>_ s'. in_service s' p) \<and>
     total (ieee1284_close (still_env 0) p) s (\<lambda>r s'. r = E1284_OK \<and> \<not> is_open s' p) \<and>
     total (ieee1284_get_deviceid (still_env 0) p (-1) 0 [0, 0, 0] 3) s (\<lambda>(_, b) s'.
       length b = length [0 :: u8, 0, 0] \<and> in_service s' p)"
proof -
  obtain s p H where run: "client_run (still_env 0) (io_lib, {#}) (s, H)" and p: "is_open s p" "p \<in># H"
    and "\<forall>q i. heap s p = Some (q, i) \<longrightarrow> fn i \<noteq> lpt_access_methods"
    using still_open_run by blast
  moreover have "read_ok (still_env 0)" "heap io_lib = (\<lambda>_. None)"
    by (simp_all add: read_ok_def still_env_def io_lib_def lib_with_def)
  ultimately have "is_open s p \<and>
     sound (on_port p (run_api (still_env 0) (Ecp_read_data 0 4))) s (\<lambda>_ s'. in_service s' p) \<and>
     total (ieee1284_unref (still_env 0) p) s (\<lambda>_ s'. in_service s' p) \<and>
     total (ieee1284_close (still_env 0) p) s (\<lambda>r s'. r = E1284_OK \<and> \<not> is_open s' p) \<and>
     total (ieee1284_get_deviceid (still_env 0) p (-1) 0 [0, 0, 0] 3) s (\<lambda>(_, b) s'.
       length b = length [0 :: u8, 0, 0] \<and> in_service s' p)"
    using opened_ports_never_fault [OF run _ p(1), of "Ecp_read_data 0 4" "-1" 3 "[0, 0, 0]" 0]
    by simp
  then show ?thesis by blast
qed

text \<open>C3. Negotiation on a claimed direct I/O port always returns, whatever the peripheral
  does; the result is success, rejection or failure, and the recorded mode is the requested
  one exactly on success and compatibility mode otherwise.  With the I/O instructions, a
  negotiation for a new mode sends the peripheral the extensibility request of that mode once, by
  one pulse of nStrobe, or fails without having sent anything.\<close>

theorem negotiate_returns:
  assumes "io_ok E clk s" and "truth (claimed (prt s))"
  shows "total (ieee1284_negotiate E mode) s (\<lambda>r s'. (io_ok E clk s' \<and>
     (r = E1284_OK \<or> r = E1284_NEGFAILED \<or> r = E1284_REJECTED) \<and>
     current_mode (prt s') = (if r = E1284_OK then mode else M1284_COMPAT)) \<and>
     (in_out_build (env_build E) \<and> raw_io_port s \<and> \<not> strobe (printer_of s) \<and> \<not> bit (ctr (prt s)) 0 \<and>
      mode \<noteq> current_mode (prt s) \<and> mode \<noteq> M1284_COMPAT \<longrightarrow>
      \<not> strobe (printer_of s') \<and>
      (received (printer_of s') = received (printer_of s) @ [uchar (extensibility_request mode)] \<or>
       received (printer_of s') = received (printer_of s) \<and> r = E1284_NEGFAILED)))"
proof -
  have "post (default_negotiate E (port_mode_pins E) mode) s (\<lambda>r s'.
     in_out_build (env_build E) \<and> raw_io_port s \<and> \<not> strobe (printer_of s) \<and> \<not> bit (ctr (prt s)) 0 \<and>
      mode \<noteq> current_mode (prt s) \<and> mode \<noteq> M1284_COMPAT \<longrightarrow>
      \<not> strobe (printer_of s') \<and>
      (received (printer_of s') = received (printer_of s) @ [uchar (extensibility_request mode)] \<or>
       received (printer_of s') = received (printer_of s) \<and> r = E1284_NEGFAILED))"
    by (intro post_when, rule post_weaken [OF negotiate_requests])
       (auto simp: takes_def wired_def requested_def)
  from total_conj [OF io_mode.default_negotiate_total [OF assms(1), of mode] this] show ?thesis
    by (simp add: total_def io_calls(1) [OF io_ok_ready [OF assms(1)] assms(2)])
qed

theorem negotiate_returns_witness:
  "total (ieee1284_negotiate (still_env 0x38) M1284_NIBBLE) io_sample (\<lambda>r s'.
     (io_ok (still_env 0x38) (\<lambda>w. w) s' \<and>
     (r = E1284_OK \<or> r = E1284_NEGFAILED \<or> r = E1284_REJECTED) \<and>
     current_mode (prt s') = (if r = E1284_OK then M1284_NIBBLE else M1284_COMPAT)) \<and>
     \<not> strobe (printer_of s') \<and>
      (received (printer_of s') = received (printer_of io_sample) @ [uchar (extensibility_request M1284_NIBBLE)] \<or>
       received (printer_of s') = received (printer_of io_sample) \<and> r = E1284_NEGFAILED))"
  using negotiate_returns [OF io_sample_ok, of "0x38" M1284_NIBBLE]
  by (simp add: truth_def still_env_def raw_io_port_def sample_start)

text \<open>C4. A compatibility mode write through the I/O instructions, seen from a printer that
  takes the byte on the data lines whenever nStrobe goes low: it receives exactly the bytes that
  the call counts, the first ones of the buffer, each once and in order; it is never strobed
  before Busy has been read as low; and nStrobe is high again. When the count falls short of the
  buffer the port is back in compatibility mode.\<close>

theorem compat_write_received:
  assumes "clock_ok E clk" and "raw_io_port s" and "truth (claimed (prt s))"
    and "in_out_build (env_build E)"
    and "\<not> strobe (printer_of s)" and "\<not> bit (ctr (prt s)) 0"
  shows "total (ieee1284_compat_write E flags buffer) s (\<lambda>r s'. \<exists>n \<le> length buffer. r = int n \<and>
     received (printer_of s') = received (printer_of s) @ take n buffer \<and>
     overrun (printer_of s') = overrun (printer_of s) \<and> \<not> strobe (printer_of s') \<and>
     (n < length buffer \<longrightarrow> current_mode (prt s') = M1284_COMPAT))"
proof -
  have ok: "io_ok E clk s" using assms(1) raw_io_ready [OF assms(2)] by (simp add: io_ok_def)
  have "prints s [] s" using assms(2,5,6) by (simp add: prints_def takes_def wired_def)
  from total_conj [OF io_mode.compat_write_total [OF ok, of buffer] compat_write_prints [OF this assms(4), of buffer]]
  have "total (default_compat_write E (port_mode_pins E) buffer) s (\<lambda>r s'. \<exists>n \<le> length buffer. r = int n \<and>
     received (printer_of s') = received (printer_of s) @ take n buffer \<and>
     overrun (printer_of s') = overrun (printer_of s) \<and> \<not> strobe (printer_of s') \<and>
     (n < length buffer \<longrightarrow> current_mode (prt s') = M1284_COMPAT))"
    by (rule total_weaken) (auto simp: printed_def prints_def takes_def)
  then show ?thesis by (simp add: total_def io_calls(3) [OF raw_io_ready [OF assms(2)] assms(3)])
qed

theorem compat_write_received_witness:
  "total (ieee1284_compat_write (still_env 0x80) 0 [72, 105]) io_sample (\<lambda>r s'.
     \<exists>n \<le> length [72 :: u8, 105]. r = int n \<and>
     received (printer_of s') = received (printer_of io_sample) @ take n [72, 105] \<and>
     overrun (printer_of s') = overrun (printer_of io_sample) \<and> \<not> strobe (printer_of s') \<and>
     (n < length [72 :: u8, 105] \<longrightarrow> current_mode (prt s') = M1284_COMPAT))"
  by (rule compat_write_received [OF still_env_clock io_sample_raw])
     (simp_all add: truth_def still_env_def sample_start)

text \<open>C5. A nibble mode read on a direct I/O port always returns, stores at most
  \<open>len\<close> bytes, and returns \<open>len\<close> or, after a failed handshake, the
  number of bytes stored, the port being back in compatibility mode. With the I/O instructions and
  a peripheral that presents each byte as two nibbles on nFault, Select, PError and Busy, and
  keeps to the handshake, what is stored are the bytes of the peripheral, from the first one on
  that has not been fetched.\<close>

theorem nibble_read_bounds:
  assumes "io_ok E clk s" and "truth (claimed (prt s))"
  shows "total (ieee1284_nibble_read E flags len) s (\<lambda>(r, buf) s'. (io_ok E clk s' \<and>
     length buf \<le> len \<and>
     (r = int len \<or> r = int (length buf) \<and> current_mode (prt s') = M1284_COMPAT)) \<and>
     (in_out_build (env_build E) \<and> starts_at (nibbles ds) (2 * m) s \<longrightarrow>
      honest (sender_of (nibbles ds) s') \<longrightarrow> buf = map ds [m..<m + length buf]))"
proof -
  have "post (default_nibble_read (port_mode_pins E) len) s (\<lambda>(r, buf) s'.
     in_out_build (env_build E) \<and> starts_at (nibbles ds) (2 * m) s \<longrightarrow>
     honest (sender_of (nibbles ds) s') \<longrightarrow> buf = map ds [m..<m + length buf])"
    by (intro post_when_pair, elim conjE, rule post_weaken [OF nibble_read_sent], assumption+)
       (simp add: vouched_def split_def)
  from total_conj [OF io_mode.nibble_read_total [OF assms(1), of len] this] show ?thesis
    by (simp add: total_def split_def io_calls(2) [OF io_ok_ready [OF assms(1)] assms(2)])
qed

theorem nibble_read_bounds_witness:
  "total (ieee1284_nibble_read answering_env 0 2) io_sample (\<lambda>(r, buf) s'.
     (io_ok answering_env (\<lambda>w. w div 2) s' \<and> length buf \<le> 2 \<and>
     (r = int 2 \<or> r = int (length buf) \<and> current_mode (prt s') = M1284_COMPAT)) \<and>
     (in_out_build (env_build answering_env) \<and> starts_at (nibbles (\<lambda>_. 0x88)) (2 * 0) io_sample \<longrightarrow>
      honest (sender_of (nibbles (\<lambda>_. 0x88)) s') \<longrightarrow> buf = map (\<lambda>_. 0x88) [0..<0 + length buf])) \<and>
   starts_at (nibbles (\<lambda>_. 0x88)) (2 * 0) io_sample \<and>
   (case ieee1284_nibble_read answering_env 0 2 io_sample of
      Some (Ret (r, buf) s') \<Rightarrow> buf = [0x88, 0x88] \<and> honest (sender_of (nibbles (\<lambda>_. 0x88)) s')
    | _ \<Rightarrow> False)"
  by (intro conjI, rule nibble_read_bounds [OF io_sample_answered], simp add: truth_def,
      simp add: starts_at_def sample_start raw_io_port_def, code_simp)

text \<open>C6. On a direct I/O port every public call whose loops are bounded (all guarded calls but
  the ECP transfers) returns without a fault, from every state, claimed or not, and whatever
  the peripheral does; the clock does not go back and the port stays a direct I/O port.\<close>

theorem bounded_calls_return:
  assumes "io_ok E clk s" and "bounded_call c"
  shows "total (run_api E c) s (\<lambda>_ s'. io_ok E clk s' \<and> clk (world s) \<le> clk (world s'))"
  by (rule worksD [OF io_bounded_works [OF assms(2)] assms(1)])

theorem bounded_calls_return_witness:
  "total (run_api (still_env 0x80) (Epp_write_data 0 [1, 2])) io_sample (\<lambda>_ s'.
     io_ok (still_env 0x80) (\<lambda>w. w) s' \<and> world io_sample \<le> world s')"
  by (rule bounded_calls_return [OF io_sample_ok]) simp

text \<open>C7. In every run of a Python program (searches, calls of methods by name with any arguments,
  objects dropped, in any order) that starts with an empty heap, the ports in the heap are
  those that an object holds or that are open, and the reference count of each is the number
  of the objects that hold it, one more if it is open.\<close>

theorem python_programs_balanced:
  assumes "py_run Y E (s, {#}) (s', objs)" and "heap s = (\<lambda>_. None)"
  shows "(heap s' p \<noteq> None \<longleftrightarrow> p \<in># objs \<or> is_open s' p) \<and>
     (\<forall>q i. heap s' p = Some (q, i) \<longrightarrow> refcount i = int (count objs p) + (if truth (opened i) then 1 else 0))"
proof -
  have c: "counted s' objs" using py_run_counted [OF assms(1)] counted_start [OF assms(2)] by simp
  have "heap s' p \<noteq> None \<longleftrightarrow> usable s' objs p"
    using live_usable [OF c] usable_live [OF c] by fastforce
  then show ?thesis using countedD(2) [OF c] by (auto simp: usable_def)
qed

theorem python_programs_balanced_witness:
  "\<exists>s' objs p. py_run plain_python (still_env 0) (lib_start, {#}) (s', objs) \<and>
     p \<in># objs \<and> heap s' p \<noteq> None"
proof -
  obtain s' objs where run: "py_run plain_python (still_env 0) (lib_start, {#}) (s', objs)"
    and "objs \<noteq> {#}"
    using still_python_run by blast
  then obtain p where p: "p \<in># objs" by blast
  have "heap lib_start = (\<lambda>_. None)" by (simp add: lib_start_def lib_with_def)
  from python_programs_balanced [OF run this, of p] p have "heap s' p \<noteq> None" by simp
  with run p show ?thesis by blast
qed

text \<open>C8. The list of ports that a search returns: sorted by name in the order of
  \<^verbatim>\<open>strcmp\<close>, without duplicates, at most 19 ports, all of them new, each with one reference,
  closed and unclaimed; the ports found earlier are as they were.\<close>

theorem find_ports_list:
  assumes "\<forall>p\<ge>next_addr s. heap s p = None"
  shows "post (ieee1284_find_ports E) s (\<lambda>(r, list) s'.
     (r = 0 \<or> r = E1284_NOMEM \<and> list = None) \<and>
     (case list of None \<Rightarrow> True | Some ps \<Rightarrow>
        ps \<noteq> [] \<and> sorted_by (name_of s') ps \<and> distinct ps \<and> length ps < MAX_PORTS \<and>
        set ps = {next_addr s..<next_addr s'} \<and> (\<forall>p\<in>set ps. listed (heap s' p))) \<and>
     (\<forall>p<next_addr s. heap s' p = heap s p))"
  by (rule post_weaken [OF find_ports_post [OF assms]])
     (auto simp: search_inv_def found_inv_def split: option.splits if_splits)

theorem find_ports_list_witness:
  "post (ieee1284_find_ports (still_env 0)) lib_start (\<lambda>(r, list) s'.
     (r = 0 \<or> r = E1284_NOMEM \<and> list = None) \<and>
     (case list of None \<Rightarrow> True | Some ps \<Rightarrow>
        ps \<noteq> [] \<and> sorted_by (name_of s') ps \<and> distinct ps \<and> length ps < MAX_PORTS \<and>
        set ps = {next_addr lib_start..<next_addr s'} \<and> (\<forall>p\<in>set ps. listed (heap s' p))) \<and>
     (\<forall>p<next_addr lib_start. heap s' p = heap lib_start p))"
  by (rule find_ports_list) (simp add: lib_start_def lib_with_def)



text \<open>C10. On Solaris the two port operations of the library, run against the driver of this
  repository in any state it can get into, refine the two instructions: one read or one write
  of the port asked for, at 32 bits, with nothing else changed in the hardware, in the driver's
  table or in the port.\<close>

theorem solaris_port_access:
  assumes "runs_driver E K minor" and "machine_kernel K inb outb"
    and "iop_reachable K (world s)" and "minor \<in> minors (world s)"
  shows "total (raw_inb E addr) s (\<lambda>b s'. prt s' = prt s \<and> attached (world s') = attached (world s) \<and>
     (b, hardware (kworld (world s'))) = inb (ucast addr) (hardware (kworld (world s)))) \<and>
   total (raw_outb E val addr) s (\<lambda>_ s'. prt s' = prt s \<and> attached (world s') = attached (world s) \<and>
     hardware (kworld (world s')) = outb (ucast addr) val (hardware (kworld (world s))))"
  using solaris_raw_inb [OF assms(1,2) reachable_inv [OF assms(3)] assms(4)]
    solaris_raw_outb [OF assms(1,2) reachable_inv [OF assms(3)] assms(4)] by blast

theorem solaris_port_access_witness:
  "total (raw_outb solaris_env 0x5a 0x378) solaris_state (\<lambda>_ s'. prt s' = prt solaris_state \<and>
     attached (world s') = attached (world solaris_state) \<and>
     hardware (kworld (world s')) = plain_outb (ucast (0x378 :: 64 word)) 0x5a (hardware (kworld (world solaris_state))))"
proof -
  have "iop_reachable plain_kernel (world solaris_state)" "0 \<in> minors (world solaris_state)"
    using attached_driver_reachable by (simp_all add: solaris_state_def attached_driver_def)
  from solaris_port_access [OF solaris_env_driver plain_kernel_ok this, of "0x378" "0x5a"]
  show ?thesis by blast
qed

text \<open>C11. Frobbing the control lines of a claimed direct I/O port refines the register of
  logical levels: the four lines change exactly as the caller's mask and value say, the
  inversions of the hardware being hidden, and bit 5 turns the data lines round.\<close>

theorem frob_refines_lines:
  assumes "io_ok E clk s" and "truth (claimed (prt s))"
  shows "total (ieee1284_frob_control E m v) s (\<lambda>_ s'. io_ok E clk s' \<and>
     lines s' = frob (lines s) (m AND control_lines) (v AND control_lines) \<and>
     reversed s' = (if bit m 5 then bit v 5 else reversed s))"
proof -
  have "post (ieee1284_frob_control E m v) s (\<lambda>_ s'.
     lines s' = frob (lines s) (m AND control_lines) (v AND control_lines) \<and>
     reversed s' = (if bit m 5 then bit v 5 else reversed s))"
    using io_frob_control_lines [of E m v s]
    by (simp add: post_def io_calls(10) [OF io_ok_ready [OF assms(1)] assms(2)])
  from works_total [OF io_pin_works(9) assms(1) this] show ?thesis .
qed

theorem frob_refines_lines_witness:
  "total (ieee1284_frob_control (still_env 0) C1284_NAUTOFD C1284_NAUTOFD) io_sample (\<lambda>_ s'.
     io_ok (still_env 0) (\<lambda>w. w) s' \<and>
     lines s' = frob (lines io_sample) (C1284_NAUTOFD AND control_lines) (C1284_NAUTOFD AND control_lines) \<and>
     reversed s' = (if bit C1284_NAUTOFD 5 then bit C1284_NAUTOFD 5 else reversed io_sample))"
  by (rule frob_refines_lines [OF io_sample_ok]) (simp add: truth_def)

text \<open>C12. Editing the bitmap of I/O ports: for any range inside the bitmap, \<^verbatim>\<open>set_bitmap\<close>, which
  works on a first partial word, whole words and a last partial word, returns, stays inside the
  bitmap, and gives exactly the bits of the range the new value.\<close>

theorem set_bitmap_sets_range:
  assumes "0 \<le> start" and "0 \<le> extent" and "start + extent \<le> 32 * int (length ws)"
  shows "\<exists>ws'. set_bitmap ws start extent new_value = Some ws' \<and> length ws' = length ws \<and>
     (\<forall>p < 32 * length ws. denied ws' p =
        (if start \<le> int p \<and> int p < start + extent then truth new_value else denied ws p))"
  using set_bitmap_range [OF assms, of new_value] by (simp add: range_set_def)

theorem set_bitmap_sets_range_witness:
  "\<exists>ws'. set_bitmap (replicate 32 (-1)) 30 40 0 = Some ws' \<and> length ws' = length (replicate 32 (-1 :: u32)) \<and>
     (\<forall>p < 32 * length (replicate 32 (-1 :: u32)). denied ws' p =
        (if (30 :: int) \<le> int p \<and> int p < 30 + 40 then truth 0 else denied (replicate 32 (-1)) p))"
  by (rule set_bitmap_sets_range) simp_all

text \<open>C13. Reading the configuration ends, without a fault, for every finite file that has no line
  of 1000 characters and none that ends in a backslash, whatever else it holds.\<close>

theorem config_reading_ends:
  assumes "readable E left" and "tok_ok (tok s)"
  shows "total (read_config_file E) s (\<lambda>_ s'. tok_ok (tok s'))"
  using assms by (rule read_config_file_total)

theorem config_reading_ends_witness:
  "total (read_config_file (conf_file_env ''{= disallow x''))
     \<lparr> tok = \<lparr> current_line = None, current_line_len = 0, at_pos = 0 \<rparr>,
       conf_disallow = 0, config_read = 0, cworld = 0 \<rparr> (\<lambda>_ s'. tok_ok (tok s'))"
  by (rule config_reading_ends [OF conf_file_env_readable])
     (simp_all add: no_end_backslash_def tok_ok_def)




text \<open>C15. A search from Python is a run of a client: it ends with one reference for each object
  in the dictionary it returns, the references of the list given up, also if two ports have
  the same name; and it raises no exception if the search finds ports and memory does not run
  out.\<close>

theorem python_search_refines:
  assumes "mallocs E" and "counted s H"
    and "ieee1284_find_ports E s = Some (Ret (0, Some ps) s1)"
  shows "\<exists>d s'. pyieee1284_find_ports E s = Some (Ret (Value d) s') \<and>
     client_run E (s, H) (s', H + mset (map snd d))"
  using find_ports_value [OF assms] find_ports_refs [of E s "Value _" _ H] by fastforce

theorem python_search_refines_witness:
  "\<exists>d s'. pyieee1284_find_ports (still_env 0) lib_start = Some (Ret (Value d) s') \<and>
     client_run (still_env 0) (lib_start, {#}) (s', {#} + mset (map snd d))"
proof -
  obtain s1 ps where found: "ieee1284_find_ports (still_env 0) lib_start = Some (Ret (0, Some ps) s1)"
    using still_search by blast
  have "counted lib_start {#}" by (rule counted_start) (simp add: lib_start_def lib_with_def)
  from python_search_refines [OF still_env_mallocs this found] show ?thesis .
qed

text \<open>C16. The Solaris driver, called by the kernel as kernels call drivers (loaded before it is attached,
  requests only on device nodes, unloaded when nothing is attached), never faults and never
  waits for a mutex it holds; between the calls every mutex is free, every entry of the table
  belongs to the device with its number, and every device node has an entry.\<close>

theorem iop_calls_sound:
  assumes "iop_reachable K s" and "may_call K s c"
  shows "total (run_iop K c) s (\<lambda>_ s'. iop_reachable K s' \<and> (\<forall>n\<in>minors s'. soft_state s' n \<noteq> None) \<and>
     (\<forall>n i. soft_state s' n = Some i \<longrightarrow> mutex i = Free \<and> k_get_instance K (dip i) = n))"
proof -
  from run_iop_total [OF reachable_inv [OF assms(1)] assms(2)] obtain s' where
    s': "run_iop K c s = Some (Ret () s')" "iop_inv K s'" by (auto simp: total_def)
  from called [OF assms s'(1)] have "iop_reachable K s'" .
  with s' show ?thesis by (auto simp: total_def iop_inv_def)
qed

theorem iop_calls_sound_witness:
  "total (run_iop plain_kernel (Request 0 1 0 3 0)) attached_driver (\<lambda>_ s'. iop_reachable plain_kernel s' \<and>
     (\<forall>n\<in>minors s'. soft_state s' n \<noteq> None) \<and>
     (\<forall>n i. soft_state s' n = Some i \<longrightarrow> mutex i = Free \<and> k_get_instance plain_kernel (dip i) = n))"
  by (rule iop_calls_sound [OF attached_driver_reachable]) (simp add: attached_driver_def)

text \<open>C17. An ECP read never stores more than \<open>len\<close> bytes, runs included,
  returns exactly the number stored, and leaves the port reverse idle, or (with nothing stored) in
  an unknown direction when the port could not be turned round. Begun in the reverse direction
  with the I/O instructions, it stores what the items of a peripheral that keeps to the handshake
  unpack to, from the first one on that has not been fetched; all items fetched are in the buffer,
  but for the last one when its event 45 did not come.\<close>

theorem ecp_read_bounds:
  assumes "io_ready s" and "truth (claimed (prt s))"
  shows "post (ieee1284_ecp_read_data E flags len) s (\<lambda>(r, buf) s'.
     (r = int (length buf) \<and> length buf \<le> len \<and>
     (current_phase (prt s') = PH1284_REV_IDLE \<or>
      current_phase (prt s') = PH1284_ECP_DIR_UNKNOWN \<and> buf = [])) \<and>
     (in_out_build (env_build E) \<and> raw_io_port s \<and> current_phase (prt s) = PH1284_REV_IDLE \<and>
      \<not> shown (sender_of (packets ts) s) \<longrightarrow> unpacked ts (place (sender_of (packets ts) s)) len buf s'))"
proof -
  have "post (default_ecp_read_data (port_dir_pins E) len) s (\<lambda>(r, buf) s'.
     in_out_build (env_build E) \<and> raw_io_port s \<and> current_phase (prt s) = PH1284_REV_IDLE \<and>
      \<not> shown (sender_of (packets ts) s) \<longrightarrow> unpacked ts (place (sender_of (packets ts) s)) len buf s')"
    by (intro post_when_pair, elim conjE, rule ecp_read_sent)
  from post_conj [OF port_dir.ecp_read_post [of E len s] this] show ?thesis
    by (simp add: post_def split_def io_calls(7) [OF assms])
qed

theorem ecp_read_bounds_witness:
  "post (ieee1284_ecp_read_data answering_env 0 2) reverse_sample (\<lambda>(r, buf) s'.
     (r = int (length buf) \<and> length buf \<le> 2 \<and>
     (current_phase (prt s') = PH1284_REV_IDLE \<or>
      current_phase (prt s') = PH1284_ECP_DIR_UNKNOWN \<and> buf = [])) \<and>
     (in_out_build (env_build answering_env) \<and> raw_io_port reverse_sample \<and>
      current_phase (prt reverse_sample) = PH1284_REV_IDLE \<and>
      \<not> shown (sender_of (packets (\<lambda>_. (False, 0x5a))) reverse_sample) \<longrightarrow>
      unpacked (\<lambda>_. (False, 0x5a)) (place (sender_of (packets (\<lambda>_. (False, 0x5a))) reverse_sample)) 2 buf s')) \<and>
   (case ieee1284_ecp_read_data answering_env 0 2 reverse_sample of
      Some (Ret (r, buf) s') \<Rightarrow> buf = [0x5a, 0x5a] \<and> honest (sender_of (packets (\<lambda>_. (False, 0x5a))) s')
    | _ \<Rightarrow> False)"
  by (rule conjI, rule ecp_read_bounds, simp add: reverse_sample_def io_ready_def, simp add: reverse_sample_def truth_def,
      code_simp)

text \<open>C18. An ECP write reports between 0 and \<open>len\<close> bytes and leaves the port
  forward idle, or in an unknown direction with nothing written. Through the I/O instructions, a
  peripheral that takes the byte on the data lines whenever nStrobe goes low receives the first
  bytes of the buffer, each once and in order, however often a byte is offered again after a Host
  Transfer Recovery: as many as the call counts, or one more when the handshake of that byte
  failed.\<close>

theorem ecp_write_bounds:
  assumes "io_ready s" and "truth (claimed (prt s))"
  shows "post (ieee1284_ecp_write_data E flags buffer) s (\<lambda>r s'.
     (0 \<le> r \<and> r \<le> int (length buffer) \<and>
     (current_phase (prt s') = PH1284_FWD_IDLE \<or>
      current_phase (prt s') = PH1284_ECP_DIR_UNKNOWN \<and> r = 0)) \<and>
     (in_out_build (env_build E) \<and> raw_io_port s \<and> \<not> strobe (printer_of s) \<and> \<not> bit (ctr (prt s)) 0 \<longrightarrow>
      (\<exists>n \<le> length buffer. received (printer_of s') = received (printer_of s) @ take n buffer \<and>
         (r = int n \<and> \<not> strobe (printer_of s') \<or> r = int n - 1))))"
proof -
  have "post (ecp_write E (port_dir_pins E) (C1284_NAUTOFD OR C1284_NINIT) buffer) s (\<lambda>r s'.
     in_out_build (env_build E) \<and> raw_io_port s \<and> \<not> strobe (printer_of s) \<and> \<not> bit (ctr (prt s)) 0 \<longrightarrow>
      (\<exists>n \<le> length buffer. received (printer_of s') = received (printer_of s) @ take n buffer \<and>
         (r = int n \<and> \<not> strobe (printer_of s') \<or> r = int n - 1)))"
    by (intro post_when, rule post_weaken [OF ecp_write_taken]) (simp_all add: taken_def wired_def)
  from post_conj [OF port_dir.ecp_write_post this] show ?thesis
    by (simp add: post_def io_calls(8) [OF assms] default_ecp_write_data_def)
qed

theorem ecp_write_bounds_witness:
  "post (ieee1284_ecp_write_data (still_env 0x80) 0 [1, 2, 3]) io_sample (\<lambda>r s'.
     (0 \<le> r \<and> r \<le> int (length [1 :: u8, 2, 3]) \<and>
     (current_phase (prt s') = PH1284_FWD_IDLE \<or>
      current_phase (prt s') = PH1284_ECP_DIR_UNKNOWN \<and> r = 0)) \<and>
     (in_out_build (env_build (still_env 0x80)) \<and> raw_io_port io_sample \<and> \<not> strobe (printer_of io_sample) \<and>
        \<not> bit (ctr (prt io_sample)) 0 \<longrightarrow>
      (\<exists>n \<le> length [1 :: u8, 2, 3]. received (printer_of s') = received (printer_of io_sample) @ take n [1, 2, 3] \<and>
         (r = int n \<and> \<not> strobe (printer_of s') \<or> r = int n - 1))))"
  by (rule ecp_write_bounds [OF io_ok_ready [OF io_sample_ok]]) (simp add: truth_def)

text \<open>C19. An EPP write on a direct I/O port puts the first bytes of the buffer on the data
  lines, in order and nothing else; the count it returns is the number of those bytes, or one less
  when the handshake of the last one failed. With the I/O instructions, a peripheral that takes
  the byte on the data lines whenever nAutoFd (nDStrb) goes low receives exactly those
  bytes.\<close>

theorem epp_write_data_lines:
  assumes "clock_ok E clk" and "raw_io_port s" and "truth (claimed (prt s))"
    and "reaches_ports (env_build E)"
  shows "total (ieee1284_epp_write_data E flags buffer) s (\<lambda>r s'.
     (\<exists>n \<le> length buffer. (r = int n \<or> r = int n - 1) \<and> io_wire s' = io_wire s @ take n buffer) \<and>
     (in_out_build (env_build E) \<longrightarrow>
      (\<exists>n \<le> length buffer. received (receiver_of 1 s') = received (receiver_of 1 s) @ take n buffer \<and>
         (r = int n \<and> \<not> strobe (receiver_of 1 s') \<or> r = int n - 1))))"
proof -
  have ok: "io_ok E clk s" using assms(1) raw_io_ready [OF assms(2)] by (simp add: io_ok_def)
  have "post (default_epp_write_data E (port_pins E) buffer) s (\<lambda>r s'. in_out_build (env_build E) \<longrightarrow>
      (\<exists>n \<le> length buffer. received (receiver_of 1 s') = received (receiver_of 1 s) @ take n buffer \<and>
         (r = int n \<and> \<not> strobe (receiver_of 1 s') \<or> r = int n - 1)))"
    by (intro post_when, rule post_weaken [OF epp_write_taken [OF assms(2)]]) (simp_all add: taken_def)
  from post_conj [OF io_wire.epp_write_wire [OF conjI [OF assms(2,4)], unfolded epp_write_port_pins] this]
    io_calls(6) [OF raw_io_ready [OF assms(2)] assms(3)]
  have "post (ieee1284_epp_write_data E flags buffer) s (\<lambda>r s'.
     (\<exists>n \<le> length buffer. (r = int n \<or> r = int n - 1) \<and> io_wire s' = io_wire s @ take n buffer) \<and>
     (in_out_build (env_build E) \<longrightarrow>
      (\<exists>n \<le> length buffer. received (receiver_of 1 s') = received (receiver_of 1 s) @ take n buffer \<and>
         (r = int n \<and> \<not> strobe (receiver_of 1 s') \<or> r = int n - 1))))"
    by (simp only: post_def)
  from works_total [OF io_call_works(6) ok this] show ?thesis
    by (rule total_weaken) (erule conjunct2)
qed

theorem epp_write_data_lines_witness:
  "total (ieee1284_epp_write_data answering_env 0 [7, 8]) io_sample (\<lambda>r s'.
     (\<exists>n \<le> length [7 :: u8, 8]. (r = int n \<or> r = int n - 1) \<and>
       io_wire s' = io_wire io_sample @ take n [7, 8]) \<and>
     (in_out_build (env_build answering_env) \<longrightarrow>
      (\<exists>n \<le> length [7 :: u8, 8]. received (receiver_of 1 s') = received (receiver_of 1 io_sample) @ take n [7, 8] \<and>
         (r = int n \<and> \<not> strobe (receiver_of 1 s') \<or> r = int n - 1)))) \<and>
   (case ieee1284_epp_write_data answering_env 0 [7, 8] io_sample of
      Some (Ret r s') \<Rightarrow> r = 2 \<and> received (receiver_of 1 s') = [7, 8] | _ \<Rightarrow> False)"
  by (rule conjI, rule epp_write_data_lines [OF answering_env_clock io_sample_raw],
      simp_all add: truth_def reaches_ports_def answering_env_def still_env_def, code_simp)

text \<open>C20. Byte mode reads on a claimed direct I/O port always return, store at most \<open>len\<close>
  bytes, and at most one byte more than they report.  With the I/O instructions, every byte that
  has been fetched from the peripheral is in the buffer, and if the peripheral keeps to the
  handshake the buffer holds its bytes, from the first one on that has not been fetched; the next
  read begins where this one has ended.\<close>

theorem byte_read_bounds:
  assumes "io_ok E clk s" and "truth (claimed (prt s))"
  shows "total (ieee1284_byte_read E flags len) s (\<lambda>(r, buf) s'.
     (io_ok E clk s' \<and> length buf \<le> len \<and> (int (length buf) = r \<or> int (length buf) = r + 1)) \<and>
     (in_out_build (env_build E) \<and> starts_at (byte_wares ds) m s \<longrightarrow>
      starts_at (byte_wares ds) (m + length buf) s' \<and>
      (honest (sender_of (byte_wares ds) s') \<longrightarrow> buf = map ds [m..<m + length buf])))"
proof -
  have "post (default_byte_read E (port_pins E) len) s (\<lambda>(r, buf) s'.
     in_out_build (env_build E) \<and> starts_at (byte_wares ds) m s \<longrightarrow>
      starts_at (byte_wares ds) (m + length buf) s' \<and>
      (honest (sender_of (byte_wares ds) s') \<longrightarrow> buf = map ds [m..<m + length buf]))"
    by (intro post_when_pair, elim conjE, rule post_weaken [OF byte_read_sent], assumption+)
       (auto simp: vouched_def dest: between_starts)
  from post_conj [OF byte_read_stored [of E "port_pins E" len s] this]
  have "post (ieee1284_byte_read E flags len) s (\<lambda>(r, buf) s'.
     (length buf \<le> len \<and> (int (length buf) = r \<or> int (length buf) = r + 1)) \<and>
     (in_out_build (env_build E) \<and> starts_at (byte_wares ds) m s \<longrightarrow>
      starts_at (byte_wares ds) (m + length buf) s' \<and>
      (honest (sender_of (byte_wares ds) s') \<longrightarrow> buf = map ds [m..<m + length buf])))"
    by (simp add: post_def split_def stored_one_more_def
        io_calls(4) [OF io_ok_ready [OF assms(1)] assms(2)])
  from works_total [OF io_call_works(4) assms(1) this] show ?thesis
    by (rule total_weaken) (simp add: split_def)
qed

theorem byte_read_bounds_witness:
  "total (ieee1284_byte_read answering_env 0 2) io_sample (\<lambda>(r, buf) s'.
     (io_ok answering_env (\<lambda>w. w div 2) s' \<and> length buf \<le> 2 \<and>
      (int (length buf) = r \<or> int (length buf) = r + 1)) \<and>
     (in_out_build (env_build answering_env) \<and> starts_at (byte_wares (\<lambda>_. 0x5a)) 0 io_sample \<longrightarrow>
      starts_at (byte_wares (\<lambda>_. 0x5a)) (0 + length buf) s' \<and>
      (honest (sender_of (byte_wares (\<lambda>_. 0x5a)) s') \<longrightarrow> buf = map (\<lambda>_. 0x5a) [0..<0 + length buf]))) \<and>
   starts_at (byte_wares (\<lambda>_. 0x5a)) 0 io_sample \<and>
   (case ieee1284_byte_read answering_env 0 2 io_sample of
      Some (Ret (r, buf) s') \<Rightarrow> r = 2 \<and> buf = [0x5a, 0x5a] \<and> honest (sender_of (byte_wares (\<lambda>_. 0x5a)) s')
    | _ \<Rightarrow> False)"
  by (intro conjI, rule byte_read_bounds [OF io_sample_answered], simp add: truth_def,
      simp add: starts_at_def sample_start raw_io_port_def, code_simp)

text \<open>C21. An EPP read through the I/O instructions always returns, reports what it stores
  or one byte less, and every byte that has been fetched from the peripheral is in the buffer; if
  the peripheral keeps to the handshake of the data strobe the buffer holds its bytes, from the
  first one on that has not been fetched.\<close>

theorem epp_read_delivers:
  assumes "clock_ok E clk" and "raw_io_port s" and "truth (claimed (prt s))"
    and "in_out_build (env_build E)"
    and "\<not> shown (sender_of (epp_wares ds) s)" and "place (sender_of (epp_wares ds) s) = m"
  shows "total (ieee1284_epp_read_data E flags len) s (\<lambda>(r, buf) s'.
     length buf \<le> len \<and> (int (length buf) = r \<or> int (length buf) = r + 1) \<and>
     place (sender_of (epp_wares ds) s') = m + length buf \<and>
     (honest (sender_of (epp_wares ds) s') \<longrightarrow> buf = map ds [m..<m + length buf]))"
proof -
  have ok: "io_ok E clk s" using assms(1) raw_io_ready [OF assms(2)] by (simp add: io_ok_def)
  from post_conj [OF epp_read_stored [of "port_pins E" len s] epp_read_sent [OF assms(2,5,4), of len]]
    io_calls(5) [OF raw_io_ready [OF assms(2)] assms(3)] assms(6)
  have "post (ieee1284_epp_read_data E flags len) s (\<lambda>(r, buf) s'.
     length buf \<le> len \<and> (int (length buf) = r \<or> int (length buf) = r + 1) \<and>
     place (sender_of (epp_wares ds) s') = m + length buf \<and>
     (honest (sender_of (epp_wares ds) s') \<longrightarrow> buf = map ds [m..<m + length buf]))"
    by (simp add: post_def split_def stored_one_more_def delivered_def vouched_def)
  from works_total [OF io_call_works(5) ok this] show ?thesis
    by (rule total_weaken) (erule conjunct2)
qed

theorem epp_read_delivers_witness:
  "total (ieee1284_epp_read_data answering_env 0 2) io_sample (\<lambda>(r, buf) s'.
     length buf \<le> 2 \<and> (int (length buf) = r \<or> int (length buf) = r + 1) \<and>
     place (sender_of (epp_wares (\<lambda>_. 0x5a)) s') = 0 + length buf \<and>
     (honest (sender_of (epp_wares (\<lambda>_. 0x5a)) s') \<longrightarrow> buf = map (\<lambda>_. 0x5a) [0..<0 + length buf])) \<and>
   (case ieee1284_epp_read_data answering_env 0 2 io_sample of
      Some (Ret (r, buf) s') \<Rightarrow> r = 2 \<and> buf = [0x5a, 0x5a] \<and> honest (sender_of (epp_wares (\<lambda>_. 0x5a)) s')
    | _ \<Rightarrow> False)"
  by (rule conjI, rule epp_read_delivers [OF answering_env_clock io_sample_raw],
      simp_all add: truth_def answering_env_def still_env_def sample_start, code_simp)

text \<open>C22. A line of words, each in single quotes, as the manual shows them, gives its words back
  when the tokenizer is called once for each: printing and reading are inverse for all words
  without a single quote or a zero.\<close>

theorem words_roundtrip:
  assumes "mallocs E" and "\<forall>w\<in>set ws. quote1 \<notin> set w \<and> CHR 0x00 \<notin> set w"
    and "tok s = \<lparr> current_line = Some (print_words ws),
                    current_line_len = length (print_words ws), at_pos = 0 \<rparr>"
  shows "\<exists>s'. get_tokens E (length ws) s = Some (Ret (map Some ws) s')"
  by (rule print_words_tokens [OF assms(1,2), where pre = "[]"]) (simp_all add: assms(3))

theorem words_roundtrip_witness:
  "\<exists>s'. get_tokens (still_env 0) (length [''a b'', [], ''=''])
      \<lparr> tok = \<lparr> current_line = Some (print_words [''a b'', [], ''='']),
                current_line_len = length (print_words [''a b'', [], ''='']), at_pos = 0 \<rparr>,
        conf_disallow = 0, config_read = 0, cworld = 0 \<rparr> =
    Some (Ret (map Some [''a b'', [], ''='']) s')"
  by (rule words_roundtrip [OF still_env_mallocs]) simp_all



text \<open>C24. On OpenBSD the library asks the kernel for its own bitmap with four ports more and nothing
  else changed: the three registers of the adapter, \<^verbatim>\<open>base\<close> to \<^verbatim>\<open>base + 2\<close>, and the port of the
  pauses, \<^verbatim>\<open>0x80\<close>; success means that the kernel has granted it.  (The comment in the code speaks of
  the ports \<^verbatim>\<open>base\<close> to \<^verbatim>\<open>base+3\<close> and of a port 80; the code asks for no fourth register.)  This is for ports below 1022; a higher one leads outside the
  bitmap, whose size is fixed.\<close>

theorem openbsd_permission:
  assumes "iomap_ok E" and "unat port + 3 \<le> 1024"
  shows "total (openbsd_ioports E port) s (\<lambda>r s'. prt s' = prt s \<and>
     (r = E1284_OK \<longrightarrow> (\<exists>w ws. grants (snd (fst (env_get_iomap E w))) (unat port) ws \<and>
        trace s' = trace s @ [Get_iomap 0, Set_iomap ws 0])))"
  using assms by (rule openbsd_ioports_total)

theorem openbsd_permission_witness:
  "total (openbsd_ioports (still_env 0) 0x378) io_sample (\<lambda>r s'. prt s' = prt io_sample \<and>
     (r = E1284_OK \<longrightarrow> (\<exists>w ws. grants (snd (fst (env_get_iomap (still_env 0) w))) (unat (0x378 :: 64 word)) ws \<and>
        trace s' = trace io_sample @ [Get_iomap 0, Set_iomap ws 0])))"
  by (rule openbsd_permission) (simp_all add: iomap_ok_def still_env_def)

text \<open>C25. Opening a port: on success it was closed before, is open now, holds one more
  reference and one of the library's tables; on failure its open flag, claim and reference
  count are as before.\<close>

theorem open_effect:
  "post (ieee1284_open E flags caps) s (\<lambda>(r, _) s'.
     if r = E1284_OK
     then \<not> truth (opened (prt s)) \<and> opened (prt s') = 1 \<and> known_table (fn (prt s')) \<and>
          refcount (prt s') = refcount (prt s) + 1 \<and> claimed (prt s') = claimed (prt s)
     else opened (prt s') = opened (prt s) \<and> claimed (prt s') = claimed (prt s) \<and>
          refcount (prt s') = refcount (prt s))"
  by (rule post_weaken [OF ieee1284_open_post]) (auto simp: life_rest_def split: if_splits)

text \<open>C26. A guarded call on a port that is not claimed does nothing: it touches neither the
  hardware nor the state, and reports an invalid port if it has a result.\<close>

theorem unclaimed_calls_refused:
  assumes "guarded c" and "\<not> truth (claimed (prt s))"
  shows "\<exists>r. run_api E c s = Some (Ret r s) \<and> (r = None \<or> r = Some E1284_INVALIDPORT)"
  using assms by (rule unclaimed_run)

theorem unclaimed_calls_refused_witness:
  "\<exists>r. run_api (still_env 0) (Negotiate M1284_ECP) (sample_state io_access_methods 1 0) =
     Some (Ret r (sample_state io_access_methods 1 0)) \<and> (r = None \<or> r = Some E1284_INVALIDPORT)"
  by (rule unclaimed_calls_refused) (simp_all add: truth_def)

text \<open>C27. Detection, when it is not answered from an earlier call, returns 0 and finds no method that
  the caller forbids and no capability that the library does not define, in any build.  In any build
  but that of Solaris it closes every descriptor its probes open, and closes no other; on Solaris it leaves at
  most one open, that of the I/O driver.\<close>

theorem detection_within:
  assumes "open_ok E" and "\<not> (truth (detected s) \<and> \<not> truth forbidden)"
  shows "total (detect_environment E forbidden) s (\<lambda>r s'. r = 0 \<and>
     capabilities s' AND NOT (may_find forbidden) = 0 \<and>
     (if env_build E \<noteq> Solaris then still_open s' = still_open s
      else still_open s' = still_open s \<or> still_open s' = still_open s + 1))"
  by (rule returns_total [OF returns_detect_environment], rule post_weaken [OF detect_environment_post [OF assms]])
     (auto simp: left_open_def)

theorem detection_within_witness:
  "total (detect_environment (still_env 0) PPDEV_CAPABLE) lib_start (\<lambda>r s'. r = 0 \<and>
     capabilities s' AND NOT (may_find PPDEV_CAPABLE) = 0 \<and> still_open s' = still_open lib_start) \<and>
   total (detect_environment solaris_env 0) solaris_lib (\<lambda>r s'. r = 0 \<and>
     capabilities s' AND NOT (may_find 0) = 0 \<and>
     (still_open s' = still_open solaris_lib \<or> still_open s' = still_open solaris_lib + 1))"
  using detection_within [of "still_env 0" lib_start PPDEV_CAPABLE]
    detection_within [of solaris_env solaris_lib 0]
  by (simp add: open_ok_def still_env_def solaris_env_def solaris_lib_def truth_def)





text \<open>C29. A device ID from the kernel's files is stored inside a buffer of at least three bytes,
  the port is not touched, and the result is an error or a count of at most the length.\<close>

theorem cached_deviceid_bounds:
  assumes "read_ok E" and "heap s p \<noteq> None" and "daisy < 2 ^ 31"
    and "3 \<le> len" and "len \<le> length buf" and "len < 2 ^ 31"
  shows "total (cached_deviceid E p daisy buf len) s (\<lambda>(r, b) s'. length b = length buf \<and>
     (r = - ETRYNEXT \<or> r = -1 \<or> 1 \<le> r \<and> r \<le> int len) \<and> port_view s' = port_view s)"
  using assms by (rule cached_total)

theorem cached_deviceid_bounds_witness:
  "total (cached_deviceid (proc_env [] [0, 5, 77, 70, 71]) 0 (-1) [1, 2, 3, 4] 4)
     (one_port PROC_SYS_DEV_PARPORT_CAPABLE null_methods 0 0)
     (\<lambda>(r, b) s'. length b = length [1 :: u8, 2, 3, 4] \<and>
        (r = - ETRYNEXT \<or> r = -1 \<or> 1 \<le> r \<and> r \<le> int 4) \<and>
        port_view s' = port_view (one_port PROC_SYS_DEV_PARPORT_CAPABLE null_methods 0 0))"
  by (rule cached_deviceid_bounds [OF proc_env_read_ok]) simp_all

text \<open>C30. The test program, started with an empty heap, gives up every reference it takes, whatever
  the system answers: if it ends, its result is 0 and a port that is still in the heap is open,
  with the one reference of its opening (which is what a device ID request leaves behind when the
  port cannot be claimed).\<close>

theorem test_program_balanced:
  assumes "heap s = (\<lambda>_. None)"
  shows "post (test_main E buf) (s, out) (\<lambda>r (s', _). r = 0 \<and>
     (\<forall>p q i. heap s' p = Some (q, i) \<longrightarrow> truth (opened i) \<and> refcount i = 1))"
proof (rule post_weaken [OF test_main_counted [OF counted_start [OF assms]]])
  fix r and t :: "'a console"
  assume "r = 0 \<and> counted (fst t) {#} \<and> (\<forall>p. heap (fst t) p \<noteq> None \<longrightarrow> is_open (fst t) p)"
  then show "case t of (s', _) \<Rightarrow> r = 0 \<and>
     (\<forall>p q i. heap s' p = Some (q, i) \<longrightarrow> truth (opened i) \<and> refcount i = 1)"
    using countedD(2) [of "fst t" "{#}"] by (cases t) (fastforce simp: is_open_def)
qed

theorem test_program_balanced_witness:
  "post (test_main (still_env 0) (replicate 500 0)) (lib_start, []) (\<lambda>r (s', _). r = 0 \<and>
     (\<forall>p q i. heap s' p = Some (q, i) \<longrightarrow> truth (opened i) \<and> refcount i = 1))"
  by (rule test_program_balanced) (simp add: lib_start_def lib_with_def)

text \<open>C31. Negotiation on a claimed ppdev port makes exactly one request, for the mode it was given if
  that is one of the eight modes of the standard or has one of the two flags, and for \<open>-1\<close>
  otherwise; and it tells what the kernel has answered.  If the kernel has granted the request, the
  result is \<^verbatim>\<open>E1284_OK\<close> and the mode of the port is the new one; if not, nothing of the port
  changes, and the result is \<^verbatim>\<open>E1284_NEGFAILED\<close> for an I/O error, \<^verbatim>\<open>E1284_REJECTED\<close> for a missing
  device, and another error otherwise.\<close>

theorem ppdev_negotiate_effect:
  assumes "ppdev_table s" and "truth (claimed (prt s))"
    and "env_ioctl E (fd (prt s)) (PPNEGOT (asked_mode mode)) (world s) = (p, w)"
  shows "total (ieee1284_negotiate E mode) s (\<lambda>r s'. world s' = w \<and>
     trace s' = trace s @ [Ioctl (fd (prt s)) (PPNEGOT (asked_mode mode)) (reply_ret p)] \<and>
     (if reply_ret p = 0 then r = E1284_OK \<and> prt s' = (prt s)\<lparr>current_mode := mode\<rparr>
      else r = refusal (reply_ret p) (env_errno E w) \<and> r \<noteq> E1284_OK \<and> prt s' = prt s))"
proof -
  have "ieee1284_negotiate E mode s = ppdev_negotiate E mode s"
    using ppdev_calls(1) [OF assms(1,2)] .
  moreover have "refusal n e \<noteq> E1284_OK" if "n \<noteq> 0" for n e
    using that by (simp add: refusal_def)
  ultimately show ?thesis
    by (subst total_cong [of _ _ "ppdev_negotiate E mode"])
       (auto intro: total_weaken [OF ppdev_negotiate_total [OF assms(3)]])
qed

theorem ppdev_negotiate_effect_witness:
  "total (ieee1284_negotiate (still_env 0) M1284_ECP) (sample_state ppdev_access_methods 1 1) (\<lambda>r s'.
     trace s' = [Ioctl 3 (PPNEGOT M1284_ECP) 0] \<and> r = E1284_OK \<and> current_mode (prt s') = M1284_ECP) \<and>
   total (ieee1284_negotiate refusing_env M1284_ECP) (sample_state ppdev_access_methods 1 1) (\<lambda>r s'.
     trace s' = [Ioctl 3 (PPNEGOT M1284_ECP) (-1)] \<and> r = E1284_SYS \<and>
     current_mode (prt s') = M1284_COMPAT)"
proof -
  let ?s = "sample_state ppdev_access_methods 1 1"
  have "ppdev_table ?s" "truth (claimed (prt ?s))" "asked_mode M1284_ECP = M1284_ECP"
    by (simp_all add: ppdev_table_def truth_def asked_mode_def)
  note s = this
  have "env_ioctl (still_env 0) (fd (prt ?s)) (PPNEGOT (asked_mode M1284_ECP)) (world ?s) = (reply_of 0 0, 0)"
    "env_ioctl refusing_env (fd (prt ?s)) (PPNEGOT (asked_mode M1284_ECP)) (world ?s) = (reply_of (-1) 0, 0)"
    by (simp_all add: still_env_def refusing_env_def)
  from this [THEN ppdev_negotiate_effect [OF s(1,2)]] show ?thesis
    by (auto elim!: total_weaken simp: s(3) reply_of_def refusal_def refusing_env_def)
qed


text \<open>C32. The directive of the manual, \<^verbatim>\<open>disallow method ppdev\<close>, alone in the file, switches the
  ppdev method off.\<close>

theorem directive_disallows:
  assumes "\<And>n w. env_malloc E n w = (True, w)"
    and "tok s = \<lparr> current_line = None, current_line_len = 0, at_pos = 0 \<rparr>" and "config_read s = 0"
    and "env_fopen E ''/etc/ieee1284.conf'' (cworld s) = (True, w1)"
    and "env_fgets E max_line_len w1 = (Some directive, w2)"
    and "env_fgets E max_line_len w2 = (None, w3)"
  shows "\<exists>s'. read_config_file E s = Some (Ret () s') \<and> conf_disallow s' = 1 \<and> config_read s' = 0"
  using assms by (rule directive_read)

theorem directive_disallows_witness:
  "\<exists>s'. read_config_file (conf_file_env directive)
       \<lparr> tok = \<lparr> current_line = None, current_line_len = 0, at_pos = 0 \<rparr>,
         conf_disallow = 0, config_read = 0, cworld = 0 \<rparr> = Some (Ret () s') \<and>
     conf_disallow s' = 1 \<and> config_read s' = 0"
  by (rule directive_disallows [where ?w1.0 = 0 and ?w2.0 = 1 and ?w3.0 = 1])
     (simp_all add: conf_file_env_def still_env_def)

text \<open>C33. None of the ten transfers of a claimed ppdev port ever reports a timeout, on any kernel whose
  calls fail with \<open>-1\<close>, as system calls do: the code compares their result with \<^verbatim>\<open>-EAGAIN\<close>.
  (\<^verbatim>\<open>ieee1284_ecp_read_addr\<close>, which the driver does not implement, is not a transfer.)\<close>

theorem ppdev_never_times_out:
  assumes "ppdev_table s" and "truth (claimed (prt s))" and "fails_with_minus_one E"
  shows "post (ieee1284_nibble_read E flags len) s (\<lambda>(r, _) _. r \<noteq> E1284_TIMEDOUT) \<and>
     post (ieee1284_compat_write E flags buffer) s (\<lambda>r _. r \<noteq> E1284_TIMEDOUT) \<and>
     post (ieee1284_byte_read E flags len) s (\<lambda>(r, _) _. r \<noteq> E1284_TIMEDOUT) \<and>
     post (ieee1284_epp_read_data E flags len) s (\<lambda>(r, _) _. r \<noteq> E1284_TIMEDOUT) \<and>
     post (ieee1284_epp_write_data E flags buffer) s (\<lambda>r _. r \<noteq> E1284_TIMEDOUT) \<and>
     post (ieee1284_epp_read_addr E flags len) s (\<lambda>(r, _) _. r \<noteq> E1284_TIMEDOUT) \<and>
     post (ieee1284_epp_write_addr E flags buffer) s (\<lambda>r _. r \<noteq> E1284_TIMEDOUT) \<and>
     post (ieee1284_ecp_read_data E flags len) s (\<lambda>(r, _) _. r \<noteq> E1284_TIMEDOUT) \<and>
     post (ieee1284_ecp_write_data E flags buffer) s (\<lambda>r _. r \<noteq> E1284_TIMEDOUT) \<and>
     post (ieee1284_ecp_write_addr E flags buffer) s (\<lambda>r _. r \<noteq> E1284_TIMEDOUT)"
proof -
  note results = ppdev_read_result [OF assms(3)] ppdev_write_result [OF assms(3)]
  have "post (ppdev_nibble_read E flags len) s (\<lambda>(r, _) _. r \<noteq> E1284_TIMEDOUT)"
    "post (ppdev_compat_write E flags buffer) s (\<lambda>r _. r \<noteq> E1284_TIMEDOUT)"
    "post (ppdev_byte_read E flags len) s (\<lambda>(r, _) _. r \<noteq> E1284_TIMEDOUT)"
    "post (ppdev_epp_read_data E flags len) s (\<lambda>(r, _) _. r \<noteq> E1284_TIMEDOUT)"
    "post (ppdev_epp_write_data E flags buffer) s (\<lambda>r _. r \<noteq> E1284_TIMEDOUT)"
    "post (ppdev_epp_read_addr E flags len) s (\<lambda>(r, _) _. r \<noteq> E1284_TIMEDOUT)"
    "post (ppdev_epp_write_addr E flags buffer) s (\<lambda>r _. r \<noteq> E1284_TIMEDOUT)"
    "post (ppdev_ecp_read_data E flags len) s (\<lambda>(r, _) _. r \<noteq> E1284_TIMEDOUT)"
    "post (ppdev_ecp_write_data E flags buffer) s (\<lambda>r _. r \<noteq> E1284_TIMEDOUT)"
    "post (ppdev_ecp_write_addr E flags buffer) s (\<lambda>r _. r \<noteq> E1284_TIMEDOUT)"
    unfolding ppdev_transfer_defs by (rule results, simp)+
  then show ?thesis by (simp only: post_def ppdev_calls [OF assms(1,2)])
qed

theorem ppdev_never_times_out_witness:
  "post (ieee1284_nibble_read (still_env 0) 0 4) (sample_state ppdev_access_methods 1 1)
     (\<lambda>(r, _) _. r \<noteq> E1284_TIMEDOUT) \<and>
   post (ieee1284_ecp_write_addr (still_env 0) 0 [1]) (sample_state ppdev_access_methods 1 1)
     (\<lambda>r _. r \<noteq> E1284_TIMEDOUT)"
proof -
  have "ppdev_table (sample_state ppdev_access_methods 1 1)" "truth (claimed (prt (sample_state ppdev_access_methods 1 1)))"
    "fails_with_minus_one (still_env 0)"
    by (simp_all add: ppdev_table_def truth_def fails_with_minus_one_def still_env_def reply_of_def)
  from ppdev_never_times_out [OF this] show ?thesis by blast
qed


text \<open>C34. A peripheral that signals no data (nFault high) makes a nibble mode read of any
  positive length return that length, although nothing has been stored.\<close>

theorem nibble_read_overreports:
  assumes "io_ok E clk s" and "raw_io_port s" and "truth (claimed (prt s))"
    and "in_out_build (env_build E)" and "bit (fst (env_inb E (ucast (base (prt s) + 1)) (world s))) 3"
  shows "\<exists>s'. ieee1284_nibble_read E flags (Suc n) s = Some (Ret (int (Suc n), []) s')"
  using assms by (rule nibble_read_silent)

theorem nibble_read_overreports_witness:
  "\<exists>s'. ieee1284_nibble_read (still_env 0x08) 0 (Suc 9) io_sample = Some (Ret (int (Suc 9), []) s')"
  by (rule nibble_read_overreports [OF io_sample_ok io_sample_raw])
     (simp_all add: truth_def still_env_def bit_numeral_rec)

text \<open>C35. A nibble mode read from Python takes its string from memory that has never been written,
  if the peripheral has no data.\<close>

theorem python_read_uninitialised:
  assumes "mallocs E" and "clock_ok E clk" and "heap s p = Some (q, i)"
    and "raw_io_port (port_state s q i)" and "truth (claimed i)"
    and "in_out_build (env_build E)" and "\<And>a w. bit (fst (env_inb E a w)) 3"
  shows "Parport_nibble_read E (Some p) (Suc n) flags s = Some (Fault Uninitialised)"
  using assms by (rule nibble_read_uninitialised)

theorem python_read_uninitialised_witness:
  "Parport_nibble_read (still_env 8) (Some 0) (Suc 9) 0 (one_port IO_CAPABLE io_access_methods 1 1) =
     Some (Fault Uninitialised)"
  by (rule python_read_uninitialised [OF still_env_mallocs still_env_clock,
        where q = sample_public and i = "sample_port io_access_methods 1 1"])
     (simp_all add: raw_io_port_def truth_def still_env_def bit_numeral_rec)

text \<open>C36. An ECP read has no time limit: if the peripheral keeps nAck high, a read of one byte
  or more, begun with the port reverse idle, never returns.\<close>

theorem ecp_read_never_returns:
  assumes "nack_stuck E" and "io_ok E clk s" and "raw_io_port s" and "truth (claimed (prt s))"
    and "current_phase (prt s) = PH1284_REV_IDLE"
  shows "ieee1284_ecp_read_data E flags (Suc n) s = None"
  using assms by (rule ecp_read_waits)

theorem ecp_read_never_returns_witness:
  "ieee1284_ecp_read_data (still_env 0x40) 0 (Suc 0)
     (io_sample\<lparr>prt := (prt io_sample)\<lparr>current_phase := PH1284_REV_IDLE\<rparr>\<rparr>) = None"
  by (rule ecp_read_never_returns [where clk = "\<lambda>w. w"])
     (simp_all add: nack_stuck_def still_env_def [of "0x40"] bit_numeral_rec truth_def io_ok_def
       still_env_clock [unfolded still_env_def] io_ready_def raw_io_port_def)

text \<open>C37. The table of the LPT driver has no \<^verbatim>\<open>data_dir\<close>, but its EPP and ECP slots hold the
  defaults, which call it: on a claimed LPT port these calls go through a null pointer.\<close>

theorem lpt_transfers_fault:
  assumes "lpt_port s" and "truth (claimed (prt s))"
  shows "ieee1284_epp_read_data E flags len s = Some (Fault Null_call) \<and>
     ieee1284_epp_write_data E flags buffer s = Some (Fault Null_call) \<and>
     ieee1284_ecp_fwd_to_rev E s = Some (Fault Null_call)"
  using lpt_port_faults [OF assms] by blast

theorem lpt_transfers_fault_witness:
  "ieee1284_epp_read_data (still_env 0) 0 1 (sample_state lpt_access_methods 1 1) =
     Some (Fault Null_call)"
  using lpt_transfers_fault [of "sample_state lpt_access_methods 1 1" "still_env 0" 0 1 "[]"]
  by (simp add: lpt_port_def truth_def)

text \<open>C38. On NetBSD direct I/O does nothing: the guard of the two port operations tests a macro that no
  configuration defines, so a write to the data lines, and a write to the control lines up to
  the soft copy of the register, leaves the world as it is, and the status is a constant.\<close>

theorem netbsd_reaches_nothing:
  assumes "env_build E = NetBSD" and "raw_io_port s" and "truth (claimed (prt s))"
  shows "ieee1284_write_data E b s = Some (Ret () s) \<and>
     ieee1284_read_status E s = Some (Ret (uint (uchar E1284_SYS XOR S1284_INVERTED)) s) \<and>
     (\<exists>c. ieee1284_frob_control E m v s = Some (Ret () (s\<lparr>prt := (prt s)\<lparr>ctr := c\<rparr>\<rparr>)))"
  using assms by (rule netbsd_silent)

theorem netbsd_reaches_nothing_witness:
  "ieee1284_write_data ((still_env 0)\<lparr>env_build := NetBSD\<rparr>) 0x5a io_sample = Some (Ret () io_sample)"
  using netbsd_reaches_nothing [of "(still_env 0)\<lparr>env_build := NetBSD\<rparr>" io_sample]
  by (simp add: raw_io_port_def truth_def)

text \<open>C39. Closing a port that is claimed and has another reference succeeds but leaves
  \<^verbatim>\<open>claimed\<close> set and the table in place, so the guarded calls still go through.\<close>

theorem close_leaves_claim:
  assumes "heap s p = Some (q, i)" and "truth (opened i)" and "1 < refcount i"
  shows "total (ieee1284_close E p) s (\<lambda>r s'. r = E1284_OK \<and>
     (\<exists>q' i'. heap s' p = Some (q', i') \<and> opened i' = 0 \<and> claimed i' = claimed i \<and> fn i' = fn i))"
  using assms by (rule close_keeps_claim)

theorem close_leaves_claim_witness:
  "total (ieee1284_close (still_env 0) 0) (one_port 0 io_access_methods 1 1) (\<lambda>r s'. r = E1284_OK \<and>
     (\<exists>q' i'. heap s' 0 = Some (q', i') \<and> opened i' = 0 \<and>
        claimed i' = claimed (sample_port io_access_methods 1 1) \<and>
        fn i' = fn (sample_port io_access_methods 1 1)))"
  by (rule close_leaves_claim [where q = sample_public]) (simp_all add: truth_def)

text \<open>C40. Asking for a fresh device ID when the port cannot be claimed returns the error but
  leaves the port open, with one reference more.\<close>

theorem deviceid_leaves_open:
  assumes "on_port p (ieee1284_open E 0 None) s = Some (Ret (E1284_OK, c) s1)"
    and "on_port p (ieee1284_claim E) s1 = Some (Ret r s2)" and "r \<noteq> E1284_OK"
    and "heap s p = Some (q, i)"
  shows "ieee1284_get_deviceid E p daisy F1284_FRESH buf len s = Some (Ret (r, buf) s2) \<and>
     (\<exists>q' i'. heap s2 p = Some (q', i') \<and> opened i' = 1 \<and> refcount i' = refcount i + 1)"
  using assms by (rule deviceid_claim_leak)

theorem deviceid_leaves_open_witness:
  "\<exists>s2. ieee1284_get_deviceid busy_env 0 (-1) F1284_FRESH [0, 0, 0] 3 (one_port PPDEV_CAPABLE null_methods 0 0) =
       Some (Ret (E1284_SYS, [0, 0, 0]) s2) \<and>
     (\<exists>q' i'. heap s2 0 = Some (q', i') \<and> opened i' = 1 \<and>
        refcount i' = refcount (sample_port null_methods 0 0) + 1)"
proof -
  obtain c s1 s2 where
    "on_port 0 (ieee1284_open busy_env 0 None) (one_port PPDEV_CAPABLE null_methods 0 0) =
       Some (Ret (E1284_OK, c) s1)"
    "on_port 0 (ieee1284_claim busy_env) s1 = Some (Ret E1284_SYS s2)"
    using busy_open_claim unfolding case_run by auto
  then show ?thesis
    by (intro exI [of _ s2], intro deviceid_leaves_open [where q = sample_public]) simp_all
qed

end
